(* ===== verification/Pool_Prelude.thy ===== *)
theory Pool_Prelude
  imports Main "HOL-Library.Word"
begin

text \<open>
  Shared vocabulary of the development: the result of a Rust call (a value, an error value, or a
  panic), checked and saturating machine arithmetic, big-endian byte strings, and transactional
  execution of a sequence of calls. Counters and balances are natural numbers whose width is
  written out at the point where the code adds or multiplies; bytes, digests and field elements
  are words of the library's word type.
\<close>

named_theorems result_simps \<open>success, error and panic of a composed call\<close>
named_theorems bytes_simps \<open>lengths and inverses of byte encodings\<close>

type_synonym u8 = "8 word"
type_synonym u32 = "32 word"
type_synonym u64 = "64 word"
type_synonym u256 = "256 word"
type_synonym u512 = "512 word"

text \<open>A 32-byte array (\<open>H256\<close>, \<open>[u8; 32]\<close>) is kept as the number it denotes in big-endian order.\<close>

type_synonym h256 = "256 word"

section \<open>Results\<close>

datatype ('e, 'a) result = Ok 'a | Err 'e | Panic

primrec bind_result :: "('e, 'a) result \<Rightarrow> ('a \<Rightarrow> ('e, 'b) result) \<Rightarrow> ('e, 'b) result" where
  "bind_result (Ok x) f = f x"
| "bind_result (Err e) f = Err e"
| "bind_result Panic f = Panic"

text \<open>\<open>ensure!(c, e)\<close>, and \<open>assert!(c)\<close> whose failure aborts the call.\<close>

definition ensure :: "bool \<Rightarrow> 'e \<Rightarrow> ('e, unit) result" where
  "ensure c e = (if c then Ok () else Err e)"

definition assert_or_panic :: "bool \<Rightarrow> ('e, unit) result" where
  "assert_or_panic c = (if c then Ok () else Panic)"

definition is_Ok :: "('e, 'a) result \<Rightarrow> bool" where
  "is_Ok r = (case r of Ok _ \<Rightarrow> True | _ \<Rightarrow> False)"

definition result_option :: "('e, 'a) result \<Rightarrow> 'a option" where
  "result_option r = (case r of Ok x \<Rightarrow> Some x | _ \<Rightarrow> None)"

definition of_option :: "'e \<Rightarrow> 'a option \<Rightarrow> ('e, 'a) result" where
  "of_option e x = (case x of Some v \<Rightarrow> Ok v | None \<Rightarrow> Err e)"

definition unwrap :: "'a option \<Rightarrow> ('e, 'a) result" where
  "unwrap x = (case x of Some v \<Rightarrow> Ok v | None \<Rightarrow> Panic)"

lemma bind_result_Ok_iff [result_simps]:
  "bind_result m f = Ok y \<longleftrightarrow> (\<exists>x. m = Ok x \<and> f x = Ok y)"
  by (cases m) auto

lemma bind_result_Err_iff [result_simps]:
  "bind_result m f = Err e \<longleftrightarrow> m = Err e \<or> (\<exists>x. m = Ok x \<and> f x = Err e)"
  by (cases m) auto

lemma bind_result_Panic_iff [result_simps]:
  "bind_result m f = Panic \<longleftrightarrow> m = Panic \<or> (\<exists>x. m = Ok x \<and> f x = Panic)"
  by (cases m) auto

lemma bind_result_assoc:
  "bind_result (bind_result m f) g = bind_result m (\<lambda>x. bind_result (f x) g)"
  by (cases m) auto

lemma ensure_iffs [result_simps]:
  "ensure c e = Ok u \<longleftrightarrow> c"
  "ensure c e = Err e' \<longleftrightarrow> \<not> c \<and> e' = e"
  "ensure c e \<noteq> Panic"
  by (auto simp: ensure_def)

lemma assert_iffs [result_simps]:
  "assert_or_panic c = Ok u \<longleftrightarrow> c"
  "assert_or_panic c = Panic \<longleftrightarrow> \<not> c"
  "assert_or_panic c \<noteq> Err e"
  by (auto simp: assert_or_panic_def)

lemma of_option_iffs [result_simps]:
  "of_option e x = Ok v \<longleftrightarrow> x = Some v"
  "of_option e x = Err e' \<longleftrightarrow> x = None \<and> e' = e"
  "of_option e x \<noteq> Panic"
  by (auto simp: of_option_def split: option.splits)

lemma unwrap_iffs [result_simps]:
  "unwrap x = Ok v \<longleftrightarrow> x = Some v"
  "unwrap x = Panic \<longleftrightarrow> x = None"
  "unwrap x \<noteq> Err e"
  by (auto simp: unwrap_def split: option.splits)

lemma is_Ok_iff: "is_Ok r \<longleftrightarrow> (\<exists>x. r = Ok x)"
  by (cases r) (auto simp: is_Ok_def)

lemma result_option_Some_iff [simp]: "result_option r = Some x \<longleftrightarrow> r = Ok x"
  by (cases r) (auto simp: result_option_def)

section \<open>Stored maps\<close>

text \<open>
  A read with a default: a FRAME storage map declared \<open>ValueQuery\<close>, or a lookup followed by
  \<open>unwrap_or\<close>.
\<close>

definition get :: "'v \<Rightarrow> ('k \<rightharpoonup> 'v) \<Rightarrow> 'k \<Rightarrow> 'v" where
  "get dflt m k = (case m k of None \<Rightarrow> dflt | Some v \<Rightarrow> v)"

lemma get_simps [simp]:
  "get d Map.empty k = d" "get d (m(k \<mapsto> v)) k' = (if k' = k then v else get d m k')"
  by (simp_all add: get_def)

lemma get_fun_upd: "get d (m(k \<mapsto> v)) = (get d m)(k := v)"
  by (simp add: fun_eq_iff)

lemma get_marked:
  "get False (m ++ map_of (map (\<lambda>n. (n, True)) ns)) k \<longleftrightarrow> get False m k \<or> k \<in> set ns"
  by (induction ns) (auto simp: get_def map_add_def split: option.splits)

text \<open>Marking a list of keys, one after the other.\<close>

definition mark_all :: "'k list \<Rightarrow> ('k \<rightharpoonup> bool) \<Rightarrow> ('k \<rightharpoonup> bool)" where
  "mark_all ks m = fold (\<lambda>k m. m(k \<mapsto> True)) ks m"

lemma mark_all_simps [simp]:
  "mark_all [] m = m" "mark_all (k # ks) m = mark_all ks (m(k \<mapsto> True))"
  by (simp_all add: mark_all_def)

lemma dom_mark_all [simp]: "dom (mark_all ks m) = dom m \<union> set ks"
  by (induction ks arbitrary: m) auto

section \<open>Machine arithmetic on natural numbers\<close>

text \<open>
  \<open>uadd w\<close> is \<open>+\<close> on an unsigned \<open>w\<close>-bit integer in a build with overflow checks,
  \<open>umul w\<close> and \<open>upow w\<close> likewise; \<open>usub\<close> panics below zero; \<open>urem\<close> panics on a
  zero divisor.
\<close>

definition uadd :: "nat \<Rightarrow> nat \<Rightarrow> nat \<Rightarrow> ('e, nat) result" where
  "uadd w a b = (if a + b < 2 ^ w then Ok (a + b) else Panic)"

definition usub :: "nat \<Rightarrow> nat \<Rightarrow> ('e, nat) result" where
  "usub a b = (if b \<le> a then Ok (a - b) else Panic)"

definition upow :: "nat \<Rightarrow> nat \<Rightarrow> nat \<Rightarrow> ('e, nat) result" where
  "upow w a n = (if a ^ n < 2 ^ w then Ok (a ^ n) else Panic)"

definition urem :: "nat \<Rightarrow> nat \<Rightarrow> ('e, nat) result" where
  "urem a b = (if b = 0 then Panic else Ok (a mod b))"

definition saturating_add :: "nat \<Rightarrow> nat \<Rightarrow> nat \<Rightarrow> nat" where
  "saturating_add w a b = min (2 ^ w - 1) (a + b)"

definition saturating_sub :: "nat \<Rightarrow> nat \<Rightarrow> nat" where
  "saturating_sub a b = a - b"

lemma uadd_iffs [result_simps]:
  "uadd w a b = Ok c \<longleftrightarrow> a + b < 2 ^ w \<and> c = a + b"
  "uadd w a b = Panic \<longleftrightarrow> 2 ^ w \<le> a + b"
  "uadd w a b \<noteq> Err e"
  by (auto simp: uadd_def)

lemma usub_iffs [result_simps]:
  "usub a b = Ok c \<longleftrightarrow> b \<le> a \<and> c = a - b"
  "usub a b = Panic \<longleftrightarrow> a < b"
  "usub a b \<noteq> Err e"
  by (auto simp: usub_def)

lemma upow_iffs [result_simps]:
  "upow w a n = Ok c \<longleftrightarrow> a ^ n < 2 ^ w \<and> c = a ^ n"
  "upow w a n = Panic \<longleftrightarrow> 2 ^ w \<le> a ^ n"
  "upow w a n \<noteq> Err e"
  by (auto simp: upow_def)

lemma urem_iffs [result_simps]:
  "urem a b = Ok c \<longleftrightarrow> b \<noteq> 0 \<and> c = a mod b"
  "urem a b = Panic \<longleftrightarrow> b = 0"
  "urem a b \<noteq> Err e"
  by (auto simp: urem_def)

lemma saturating_add_exact: "a + b < 2 ^ w \<Longrightarrow> saturating_add w a b = a + b"
  by (simp add: saturating_add_def)

lemma saturating_add_bounds:
  "saturating_add w a b < 2 ^ w" "saturating_add w a b \<le> a + b"
  by (auto simp: saturating_add_def min_less_iff_disj)

section \<open>Big-endian bytes\<close>

text \<open>\<open>be_bytes k n\<close> is \<open>to_be_bytes\<close> of an integer of \<open>k\<close> bytes.\<close>

primrec be_bytes :: "nat \<Rightarrow> nat \<Rightarrow> u8 list" where
  "be_bytes 0 n = []"
| "be_bytes (Suc k) n = be_bytes k (n div 256) @ [of_nat n]"

definition from_be_bytes :: "u8 list \<Rightarrow> nat" where
  "from_be_bytes bs = foldl (\<lambda>a b. 256 * a + unat b) 0 bs"

definition h256_bytes :: "h256 \<Rightarrow> u8 list" where
  "h256_bytes h = be_bytes 32 (unat h)"

lemma length_be_bytes [simp, bytes_simps]: "length (be_bytes k n) = k"
  by (induction k arbitrary: n) auto

lemma length_h256_bytes [simp, bytes_simps]: "length (h256_bytes h) = 32"
  by (simp add: h256_bytes_def)

lemma from_be_bytes_simps [simp]:
  "from_be_bytes [] = 0"
  "from_be_bytes (bs @ [b]) = 256 * from_be_bytes bs + unat b"
  by (simp_all add: from_be_bytes_def)

lemma unat_of_nat_u8: "unat (of_nat n :: u8) = n mod 256"
  by (simp add: unat_of_nat)

lemma unat_u8_less [simp]: "unat (b :: u8) < 256"
  using unsigned_less [of b, where ?'a = nat] by simp

lemma from_be_be_bytes: "from_be_bytes (be_bytes k n) = n mod 256 ^ k"
proof (induction k arbitrary: n)
  case (Suc k)
  then show ?case
    by (simp add: unat_of_nat_u8 mod_mult2_eq)
qed simp

lemma be_bytes_from_be: "be_bytes (length bs) (from_be_bytes bs) = bs"
proof (induction bs rule: rev_induct)
  case (snoc b bs)
  have "(256 * from_be_bytes bs + unat b) div 256 = from_be_bytes bs"
    by simp
  moreover have "(of_nat (256 * from_be_bytes bs + unat b) :: u8) = b"
    unfolding word_unat_eq_iff unat_of_nat_u8 by simp
  ultimately show ?case
    using snoc by (simp del: of_nat_add of_nat_mult)
qed simp

lemma from_be_bytes_less: "from_be_bytes bs < 256 ^ length bs"
  by (metis be_bytes_from_be from_be_be_bytes mod_less_divisor zero_less_numeral zero_less_power)

lemma be_bytes_eq_iff:
  "m < 256 ^ k \<Longrightarrow> n < 256 ^ k \<Longrightarrow> be_bytes k m = be_bytes k n \<longleftrightarrow> m = n"
  by (metis from_be_be_bytes mod_less)

lemma unat_h256_less: "unat (h :: h256) < 256 ^ 32"
  using unsigned_less [of h, where ?'a = nat] by simp

lemma h256_bytes_inj [simp]: "h256_bytes a = h256_bytes b \<longleftrightarrow> a = b"
  unfolding h256_bytes_def be_bytes_eq_iff [OF unat_h256_less unat_h256_less]
  by (simp add: word_unat_eq_iff)

lemma from_be_h256_bytes [simp]: "from_be_bytes (h256_bytes h) = unat h"
  unfolding h256_bytes_def from_be_be_bytes by (rule mod_less [OF unat_h256_less])

lemma be_bytes_0: "be_bytes k 0 = replicate k 0"
  by (induction k) (simp_all add: replicate_append_same)

lemma h256_bytes_0: "h256_bytes 0 = replicate 32 0"
  by (simp add: h256_bytes_def be_bytes_0)

section \<open>Strings\<close>

text \<open>A Rust \<open>str\<close> is its sequence of UTF-8 bytes, kept as a list of 8-bit characters.\<close>

definition as_bytes :: "string \<Rightarrow> u8 list" where
  "as_bytes s = map of_char s"

lemma of_char_u8_eq_iff: "(of_char a :: u8) = of_char b \<longleftrightarrow> a = b"
proof
  assume eq: "(of_char a :: u8) = of_char b"
  have r: "unat (of_char c :: u8) = of_char c" for c
  proof -
    have "unat (of_nat (of_char c) :: u8) = of_char c mod 256"
      by (rule unat_of_nat_u8)
    then show ?thesis by (simp add: of_nat_of_char)
  qed
  from eq have "(of_char a :: nat) = of_char b"
    by (metis r)
  then show "a = b" by (simp only: of_char_eq_iff)
qed simp

lemma as_bytes_simps [simp, bytes_simps]:
  "as_bytes [] = []" "as_bytes (s @ t) = as_bytes s @ as_bytes t"
  "length (as_bytes s) = length s"
  by (simp_all add: as_bytes_def)

lemma as_bytes_inj [simp]: "as_bytes s = as_bytes t \<longleftrightarrow> s = t"
proof
  assume "as_bytes s = as_bytes t"
  then show "s = t"
    by (induction s arbitrary: t) (auto simp: as_bytes_def of_char_u8_eq_iff)
qed simp

section \<open>Transactional execution\<close>

text \<open>
  Every platform of the stack runs a call atomically: a call that returns an error or panics
  leaves the stored state as it was (the storage layer around a FRAME dispatchable, a reverted
  CosmWasm, NEAR or ink! message).
\<close>

definition commit :: "('s \<Rightarrow> 'c \<Rightarrow> ('e, 's) result) \<Rightarrow> 's \<Rightarrow> 'c \<Rightarrow> 's" where
  "commit step s c = (case step s c of Ok s' \<Rightarrow> s' | _ \<Rightarrow> s)"

fun run :: "('s \<Rightarrow> 'c \<Rightarrow> ('e, 's) result) \<Rightarrow> 's \<Rightarrow> 'c list \<Rightarrow> 's" where
  "run step s [] = s"
| "run step s (c # cs) = run step (commit step s c) cs"

text \<open>The calls of a sequence that went through.\<close>

fun committed :: "('s \<Rightarrow> 'c \<Rightarrow> ('e, 's) result) \<Rightarrow> 's \<Rightarrow> 'c list \<Rightarrow> 'c list" where
  "committed step s [] = []"
| "committed step s (c # cs) =
     (if is_Ok (step s c) then c # committed step (commit step s c) cs
      else committed step s cs)"

lemma commit_cases:
  obtains s' where "step s c = Ok s'" "commit step s c = s'"
  | "\<not> is_Ok (step s c)" "commit step s c = s"
  by (cases "step s c") (auto simp: commit_def is_Ok_def)

lemma run_append: "run step s (cs @ ds) = run step (run step s cs) ds"
  by (induction cs arbitrary: s) auto

lemma run_invariant_on:
  assumes "I s" and "list_all P cs" and "\<And>s c s'. I s \<Longrightarrow> P c \<Longrightarrow> step s c = Ok s' \<Longrightarrow> I s'"
  shows "I (run step s cs)"
  using assms(1,2)
proof (induction cs arbitrary: s)
  case (Cons c cs)
  have "I (commit step s c)"
    using Cons.prems assms(3) by (cases rule: commit_cases[of step s c]) auto
  then show ?case using Cons by simp
qed simp

lemma run_invariant:
  assumes "I s" and "\<And>s c s'. I s \<Longrightarrow> step s c = Ok s' \<Longrightarrow> I s'"
  shows "I (run step s cs)"
  by (rule run_invariant_on [where P = "\<lambda>_. True"]) (use assms in \<open>auto simp: list_all_iff\<close>)

text \<open>A relation between the state and a log that every committed call extends.\<close>

lemma run_accumulates:
  assumes "R s xs" and "\<And>s xs c s'. R s xs \<Longrightarrow> step s c = Ok s' \<Longrightarrow> R s' (xs @ out c)"
  shows "R (run step s cs) (xs @ concat (map out (committed step s cs)))"
  using assms(1)
proof (induction cs arbitrary: s xs)
  case (Cons c cs)
  show ?case
  proof (cases "step s c")
    case (Ok s')
    then have "R s' (xs @ out c)" using Cons.prems assms(2) by blast
    from Cons.IH [OF this] Ok show ?thesis by (simp add: commit_def is_Ok_def)
  qed (use Cons in \<open>auto simp: commit_def is_Ok_def\<close>)
qed simp

end
