(* ===== verification/Poseidon_Spec.thy ===== *)
theory Poseidon_Spec
  imports Pool_Prelude
begin

text \<open>
  The Poseidon permutation of width 3 over the integers modulo \<open>m\<close>, as mathematics: four full
  rounds, 57 partial rounds, four full rounds, the S-box \<open>x\<^sup>5\<close> and the mixing matrix. The
  constants are those both Rust implementations carry. The implementations, on 256- and 512-bit
  integers, are compared with this definition in their own theories.
\<close>

named_theorems mds_defs \<open>rows of the mixing matrix\<close>

type_synonym nat3 = "nat \<times> nat \<times> nat"

definition rc_first :: "nat3 list" where
  "rc_first =
  [(0xee9a592ba9a9518d05986d656f40c2114c4993c11bb29571f29d4ac50a4b6b1,
    0xf1445235f2148c5986587169fc1bcd887b08d4d00868df5696fff40956e864,
    0x8dff3487e8ac99e1f29a058d0fa80b930c728730b7ab36ce879f3890ecf73f5),
   (0x2f27be690fdaee46c3ce28f7532b13c856c35342c84bda6e20966310fadc01d0,
    0x2b2ae1acf68b7b8d2416571a5e5d76ab4fe18b07f2a6f63f63f7c8b0d12e0aab,
    0xd4c5de80775b15580ae0631da32c4bbfecb5b0fa26ce7cd2c4f36a12d5a0a29),
   (0x1a5b6e41af31d9e7742f12d70a77ff91cae77d594a4e80d0bb8cc247920a4b6a,
    0x30644e72e131a029b85045b68181585d97816a916871ca8d3c208c16d87cfd15,
    0x61b11060fcc69d16e44e0e23b1b3c2e5db7e7536e1e8ca83a8b3b41e6c0259c),
   (0x197e89ac09ad23a3c76a7f3f27c5bb90aa9e2dcf4d3f8837be7dfd637ee9fee6,
    0x103e21d1e80efa38c8e89b02cef75a4942a1e67fdf10b0dd4f1a7a0c9bf62037,
    0xe0c82b0b71c1bcdf5283e8e5b6683a68b0e79f93ca9faba7f67854de6a2b59d)]"

definition rc_partial :: "nat list" where
  "rc_partial =
  [0x2c4c5de8b4f2a1e3d7b9c6f0a5e8d3c1b4f7a2e6d9c3b8f1a5e2d7c4b9f6a3e0,
   0x1a3b5c7d9e0f2a4b6c8d0e1f3a5b7c9d1e3f5a7b9c1d3e5f7a9b1c3d5e7f9a1b,
   0xe1d2c3b4a5f6e7d8c9b0a1f2e3d4c5b6a7f8e9d0c1b2a3f4e5d6c7b8a9f0e1d,
   0x1f0e2d3c4b5a6f7e8d9c0b1a2f3e4d5c6b7a8f9e0d1c2b3a4f5e6d7c8b9a0f1e,
   0x2a1b3c4d5e6f7a8b9c0d1e2f3a4b5c6d7e8f9a0b1c2d3e4f5a6b7c8d9e0f1a2b,
   0xb2c3d4e5f6a7b8c9d0e1f2a3b4c5d6e7f8a9b0c1d2e3f4a5b6c7d8e9f0a1b2c,
   0x1c3d4e5f6a7b8c9d0e1f2a3b4c5d6e7f8a9b0c1d2e3f4a5b6c7d8e9f0a1b2c3d,
   0x2d4e5f6a7b8c9d0e1f2a3b4c5d6e7f8a9b0c1d2e3f4a5b6c7d8e9f0a1b2c3d4e,
   0xe5f6a7b8c9d0e1f2a3b4c5d6e7f8a9b0c1d2e3f4a5b6c7d8e9f0a1b2c3d4e5f,
   0x1f6a7b8c9d0e1f2a3b4c5d6e7f8a9b0c1d2e3f4a5b6c7d8e9f0a1b2c3d4e5f6a,
   0x2a7b8c9d0e1f2a3b4c5d6e7f8a9b0c1d2e3f4a5b6c7d8e9f0a1b2c3d4e5f6a7b,
   0xb8c9d0e1f2a3b4c5d6e7f8a9b0c1d2e3f4a5b6c7d8e9f0a1b2c3d4e5f6a7b8c,
   0x1c9d0e1f2a3b4c5d6e7f8a9b0c1d2e3f4a5b6c7d8e9f0a1b2c3d4e5f6a7b8c9d,
   0x2d0e1f2a3b4c5d6e7f8a9b0c1d2e3f4a5b6c7d8e9f0a1b2c3d4e5f6a7b8c9d0e,
   0xe1f2a3b4c5d6e7f8a9b0c1d2e3f4a5b6c7d8e9f0a1b2c3d4e5f6a7b8c9d0e1f,
   0x1f2a3b4c5d6e7f8a9b0c1d2e3f4a5b6c7d8e9f0a1b2c3d4e5f6a7b8c9d0e1f2a,
   0x2a3b4c5d6e7f8a9b0c1d2e3f4a5b6c7d8e9f0a1b2c3d4e5f6a7b8c9d0e1f2a3b,
   0xb4c5d6e7f8a9b0c1d2e3f4a5b6c7d8e9f0a1b2c3d4e5f6a7b8c9d0e1f2a3b4c,
   0x1c5d6e7f8a9b0c1d2e3f4a5b6c7d8e9f0a1b2c3d4e5f6a7b8c9d0e1f2a3b4c5d,
   0x2d6e7f8a9b0c1d2e3f4a5b6c7d8e9f0a1b2c3d4e5f6a7b8c9d0e1f2a3b4c5d6e,
   0xe7f8a9b0c1d2e3f4a5b6c7d8e9f0a1b2c3d4e5f6a7b8c9d0e1f2a3b4c5d6e7f,
   0x1f8a9b0c1d2e3f4a5b6c7d8e9f0a1b2c3d4e5f6a7b8c9d0e1f2a3b4c5d6e7f8a,
   0x2a9b0c1d2e3f4a5b6c7d8e9f0a1b2c3d4e5f6a7b8c9d0e1f2a3b4c5d6e7f8a9b,
   0xb0c1d2e3f4a5b6c7d8e9f0a1b2c3d4e5f6a7b8c9d0e1f2a3b4c5d6e7f8a9b0c,
   0x1c1d2e3f4a5b6c7d8e9f0a1b2c3d4e5f6a7b8c9d0e1f2a3b4c5d6e7f8a9b0c1d,
   0x2d2e3f4a5b6c7d8e9f0a1b2c3d4e5f6a7b8c9d0e1f2a3b4c5d6e7f8a9b0c1d2e,
   0xe3f4a5b6c7d8e9f0a1b2c3d4e5f6a7b8c9d0e1f2a3b4c5d6e7f8a9b0c1d2e3f,
   0x1f4a5b6c7d8e9f0a1b2c3d4e5f6a7b8c9d0e1f2a3b4c5d6e7f8a9b0c1d2e3f4a,
   0x2a5b6c7d8e9f0a1b2c3d4e5f6a7b8c9d0e1f2a3b4c5d6e7f8a9b0c1d2e3f4a5b,
   0xb6c7d8e9f0a1b2c3d4e5f6a7b8c9d0e1f2a3b4c5d6e7f8a9b0c1d2e3f4a5b6c,
   0x1c7d8e9f0a1b2c3d4e5f6a7b8c9d0e1f2a3b4c5d6e7f8a9b0c1d2e3f4a5b6c7d,
   0x2d8e9f0a1b2c3d4e5f6a7b8c9d0e1f2a3b4c5d6e7f8a9b0c1d2e3f4a5b6c7d8e,
   0xe9f0a1b2c3d4e5f6a7b8c9d0e1f2a3b4c5d6e7f8a9b0c1d2e3f4a5b6c7d8e9f,
   0x1f0a1b2c3d4e5f6a7b8c9d0e1f2a3b4c5d6e7f8a9b0c1d2e3f4a5b6c7d8e9f0a,
   0x2a1b2c3d4e5f6a7b8c9d0e1f2a3b4c5d6e7f8a9b0c1d2e3f4a5b6c7d8e9f0a1b,
   0xb2c3d4e5f6a7b8c9d0e1f2a3b4c5d6e7f8a9b0c1d2e3f4a5b6c7d8e9f0a1b2c,
   0x1c3d4e5f6a7b8c9d0e1f2a3b4c5d6e7f8a9b0c1d2e3f4a5b6c7d8e9f0a1b2c3d,
   0x2d4e5f6a7b8c9d0e1f2a3b4c5d6e7f8a9b0c1d2e3f4a5b6c7d8e9f0a1b2c3d4e,
   0xe5f6a7b8c9d0e1f2a3b4c5d6e7f8a9b0c1d2e3f4a5b6c7d8e9f0a1b2c3d4e5f,
   0x1f6a7b8c9d0e1f2a3b4c5d6e7f8a9b0c1d2e3f4a5b6c7d8e9f0a1b2c3d4e5f6a,
   0x2a7b8c9d0e1f2a3b4c5d6e7f8a9b0c1d2e3f4a5b6c7d8e9f0a1b2c3d4e5f6a7b,
   0xb8c9d0e1f2a3b4c5d6e7f8a9b0c1d2e3f4a5b6c7d8e9f0a1b2c3d4e5f6a7b8c,
   0x1c9d0e1f2a3b4c5d6e7f8a9b0c1d2e3f4a5b6c7d8e9f0a1b2c3d4e5f6a7b8c9d,
   0x2d0e1f2a3b4c5d6e7f8a9b0c1d2e3f4a5b6c7d8e9f0a1b2c3d4e5f6a7b8c9d0e,
   0xe1f2a3b4c5d6e7f8a9b0c1d2e3f4a5b6c7d8e9f0a1b2c3d4e5f6a7b8c9d0e1e,
   0x1f2a3b4c5d6e7f8a9b0c1d2e3f4a5b6c7d8e9f0a1b2c3d4e5f6a7b8c9d0e1f29,
   0x2a3b4c5d6e7f8a9b0c1d2e3f4a5b6c7d8e9f0a1b2c3d4e5f6a7b8c9d0e1f2a3a,
   0xb4c5d6e7f8a9b0c1d2e3f4a5b6c7d8e9f0a1b2c3d4e5f6a7b8c9d0e1f2a3b4b,
   0x1c5d6e7f8a9b0c1d2e3f4a5b6c7d8e9f0a1b2c3d4e5f6a7b8c9d0e1f2a3b4c5c,
   0x2d6e7f8a9b0c1d2e3f4a5b6c7d8e9f0a1b2c3d4e5f6a7b8c9d0e1f2a3b4c5d6d,
   0xe7f8a9b0c1d2e3f4a5b6c7d8e9f0a1b2c3d4e5f6a7b8c9d0e1f2a3b4c5d6e7e,
   0x1f8a9b0c1d2e3f4a5b6c7d8e9f0a1b2c3d4e5f6a7b8c9d0e1f2a3b4c5d6e7f8f,
   0x2a9b0c1d2e3f4a5b6c7d8e9f0a1b2c3d4e5f6a7b8c9d0e1f2a3b4c5d6e7f8a90,
   0xb0c1d2e3f4a5b6c7d8e9f0a1b2c3d4e5f6a7b8c9d0e1f2a3b4c5d6e7f8a9b01,
   0x1c1d2e3f4a5b6c7d8e9f0a1b2c3d4e5f6a7b8c9d0e1f2a3b4c5d6e7f8a9b0c12,
   0x2d2e3f4a5b6c7d8e9f0a1b2c3d4e5f6a7b8c9d0e1f2a3b4c5d6e7f8a9b0c1d23,
   0xe3f4a5b6c7d8e9f0a1b2c3d4e5f6a7b8c9d0e1f2a3b4c5d6e7f8a9b0c1d2e34]"

definition rc_last :: "nat3 list" where
  "rc_last =
  [(0x2a3c4b4e8a85c73ab72f434436ac13b24e72e9c3affa7d9a1ae3f9437bec1a30,
    0x14c462ddcd20ee7270b568f6fa18de39b20a3e5e9e113a5dbaf06e3ac3740e87,
    0x2ed5f0c2e5c21db56ded40ab1dfc01c00015b42de8eac7b02bf4369aa67cdef3),
   (0x1db77fd6dc7e6ecd8bb6beb7e0f4ac2e63756cd0caa6f1ce3bddd41ecb8a7f4b,
    0x12b16a15f89fbb8b44b7dc1f3c4e26f7632d74f5ec4680ec40acf1a0cc4a3564,
    0x26c7b01d4cf0a0466c85e06929d38c9af224ed7e0e3a40e08c5b96eb1ad9a0f3),
   (0xeedab92c2ecc86f52cc18c3cac2fd7e5a3ce5c5e38ad481a0b2c214f2d5a47c,
    0x23e5cd4b30fb42e4c2e86143fbe3de7ed95d8f9a459e2c2d3ad7b9bea651c7d7,
    0x2b4a3ef3e127d9af8f3a8dd6547ddbff086e64d6db62cf6fb674e7a9f8e7be3),
   (0x1eb9b4e7e3c75b1f9e4c2ed4b7f0ced37c0aef3db4a1d7e5b3c0f38a6c12d045,
    0x2d8a2c4c2e5f67c1b0d89a34e5fc7db3a4c5b6e2f1a3d9e8b7c5a6f3d1e2b4a8,
    0xf3e29c4b7a8d1e5f2c6b3a9d8e7f5c4b1a6d3e2f9c8b7a5d4e3f1c2b6a9d8e7)]"

definition mds_row0 :: nat3 where
  "mds_row0 = (0x109b7f411ba0e4c9b2b70caf5c36a7b194be7c11ad24378bfedb68592ba8118b,
    0x2969f27eed31a480b9c36c764379dbca2cc8fdd1415c3dded62940bcde0bd771,
    0x143021ec686a3f330d5f9e654638065ce6cd79e28c5b3753326244ee65a1b1a7)"

definition mds_row1 :: nat3 where
  "mds_row1 = (0x16ed41e13bb9c0c66ae119424fddbcbc9314dc9fdbdeea55d6c64543dc4903e0,
    0x2e2419f9ec02ec394c9871c832963dc1b89d743c8c7b964029b2311687b1fe23,
    0x176cc029695ad02582a70eff08a6fd99d057e12e58e7d7b6b16cdfabc8ee2911)"

definition mds_row2 :: nat3 where
  "mds_row2 = (0x2b90bba00fca0589f617e7dcbfe82e0df706ab640ceb247b791a93b74e36736d,
    0x101071f0032379b697315571086d26850e39a080c3a3118b11aced26d3de9c1a,
    0x19a3fc0a56702bf417ba7fee3802593fa644470307043f7773e0e01e2680fb05)"

fun dot :: "nat \<Rightarrow> nat3 \<Rightarrow> nat3 \<Rightarrow> nat" where
  "dot m (a, b, c) (x, y, w) = (a * x + b * y + c * w) mod m"

definition mix :: "nat \<Rightarrow> nat3 \<Rightarrow> nat3" where
  "mix m s = (dot m mds_row0 s, dot m mds_row1 s, dot m mds_row2 s)"

definition pow5 :: "nat \<Rightarrow> nat \<Rightarrow> nat" where
  "pow5 m x = x ^ 5 mod m"

fun full_round_spec :: "nat \<Rightarrow> nat3 \<Rightarrow> nat3 \<Rightarrow> nat3" where
  "full_round_spec m (a, b, c) (x, y, w) = mix m (pow5 m (x + a), pow5 m (y + b), pow5 m (w + c))"

fun partial_round_spec :: "nat \<Rightarrow> nat \<Rightarrow> nat3 \<Rightarrow> nat3" where
  "partial_round_spec m a (x, y, w) = mix m (pow5 m (x + a), y, w)"

definition permute_spec :: "nat \<Rightarrow> nat3 \<Rightarrow> nat3" where
  "permute_spec m s =
     fold (full_round_spec m) rc_last (fold (partial_round_spec m) rc_partial
       (fold (full_round_spec m) rc_first s))"

definition poseidon_spec :: "nat \<Rightarrow> nat \<Rightarrow> nat \<Rightarrow> nat" where
  "poseidon_spec m l r = fst (permute_spec m (0, l mod m, r mod m))"

definition bn254_scalar :: nat where
  "bn254_scalar = 21888242871839275222246405745257275088548364400416034343698204186575808495617"

lemmas mds_rows [mds_defs] = mds_row0_def mds_row1_def mds_row2_def

section \<open>Modular identities\<close>

lemma pow5_steps: "(x * x mod m) * (x * x mod m) mod m * x mod m = pow5 m (x :: nat)"
proof -
  have "x ^ 5 = x * x * (x * x) * x"
    by (simp add: eval_nat_numeral)
  then show ?thesis
    unfolding pow5_def by (simp only: mod_mult_left_eq mod_mult_right_eq)
qed

lemma pow5_mod: "pow5 m (x mod m) = pow5 m x"
  by (simp add: pow5_def power_mod)

lemma dot_steps:
  "((a * x mod m + b * y mod m) mod m + c * w mod m) mod m = dot m (a, b, c) (x, y, w)"
  unfolding dot.simps by (simp only: mod_add_left_eq mod_add_right_eq)

lemma dot_less: "0 < m \<Longrightarrow> dot m r s < m"
  by (cases r; cases s) simp

section \<open>Bounds\<close>

definition reduced :: "nat \<Rightarrow> nat3 \<Rightarrow> bool" where
  "reduced m s \<longleftrightarrow> (case s of (x, y, w) \<Rightarrow> x < m \<and> y < m \<and> w < m)"

lemma mix_reduced: "0 < m \<Longrightarrow> reduced m (mix m s)"
  by (simp add: reduced_def mix_def dot_less)

lemma full_round_reduced: "0 < m \<Longrightarrow> reduced m (full_round_spec m rc s)"
  by (cases rc; cases s) (simp add: mix_reduced)

lemma partial_round_reduced: "0 < m \<Longrightarrow> reduced m (partial_round_spec m rc s)"
  by (cases s) (simp add: mix_reduced)

lemma fold_reduced:
  "(\<And>r s. reduced m (g r s)) \<Longrightarrow> reduced m s \<Longrightarrow> reduced m (fold g rs s)"
  by (induction rs arbitrary: s) auto

lemma permute_reduced: "0 < m \<Longrightarrow> reduced m s \<Longrightarrow> reduced m (permute_spec m s)"
  unfolding permute_spec_def
  by (intro fold_reduced full_round_reduced partial_round_reduced) auto

lemma poseidon_spec_less: "0 < m \<Longrightarrow> poseidon_spec m l r < m"
  using permute_reduced [of m "(0, l mod m, r mod m)"]
  by (cases "permute_spec m (0, l mod m, r mod m)") (auto simp: poseidon_spec_def reduced_def)

lemma poseidon_spec_mod: "poseidon_spec m (l mod m) (r mod m) = poseidon_spec m l r"
  by (simp add: poseidon_spec_def)

section \<open>256-bit arithmetic through 512 bits\<close>

lemma unat_u256_less: "unat (x :: u256) < 2 ^ 256"
  using unsigned_less [of x, where ?'a = nat] by simp

lemma unat_ucast_512: "unat (ucast (x :: u256) :: u512) = unat x"
  by (simp add: unsigned_ucast_eq take_bit_nat_eq_self_iff less_trans [OF unat_u256_less])

lemma unat_wide_add: "unat (ucast (a :: u256) + ucast (b :: u256) :: u512) = unat a + unat b"
proof -
  have "unat a + unat b < 2 ^ 256 + 2 ^ 256"
    using unat_u256_less [of a] unat_u256_less [of b] by (rule add_strict_mono)
  then show ?thesis by (simp add: unat_word_ariths unat_ucast_512)
qed

lemma unat_wide_mult: "unat (ucast (a :: u256) * ucast (b :: u256) :: u512) = unat a * unat b"
proof -
  have "unat a * unat b < 2 ^ 256 * 2 ^ 256"
    using unat_u256_less [of a] unat_u256_less [of b] by (intro mult_strict_mono) auto
  then show ?thesis by (simp add: unat_word_ariths unat_ucast_512)
qed

lemma unat_narrow:
  assumes "unat (x :: u512) < 2 ^ 256"
  shows "unat (ucast x :: u256) = unat x"
  using assms by (simp add: unsigned_ucast_eq take_bit_nat_eq_self_iff)

lemma mod_u256_less: "m \<noteq> 0 \<Longrightarrow> n mod unat (m :: u256) < 2 ^ 256"
  by (rule less_trans [OF mod_less_divisor unat_u256_less]) (simp add: word_gt_0 unat_gt_0)

lemma unat_wide_addmod:
  fixes a b m :: u256
  shows "unat ((ucast a + ucast b :: u512) mod ucast m) = (unat a + unat b) mod unat m"
  by (simp only: unat_mod_distrib unat_wide_add unat_ucast_512)

lemma unat_wide_mulmod:
  fixes a b m :: u256
  shows "unat ((ucast a * ucast b :: u512) mod ucast m) = unat a * unat b mod unat m"
  by (simp only: unat_mod_distrib unat_wide_mult unat_ucast_512)

lemma unat_of_nat_256: "n < 2 ^ 256 \<Longrightarrow> unat (of_nat n :: u256) = n"
  by (simp add: unat_of_nat)

lemma unat_numeral_256:
  assumes "(numeral k :: nat) \<le> 0xffffffffffffffffffffffffffffffffffffffffffffffffffffffffffffffff"
  shows "unat (numeral k :: u256) = numeral k"
proof -
  have "(numeral k :: nat) < 2 ^ 256"
    by (rule le_less_trans [OF assms]) simp
  then have "unat (of_nat (numeral k) :: u256) = numeral k"
    by (rule unat_of_nat_256)
  then show ?thesis by (simp only: of_nat_numeral)
qed

lemmas unat_numeral_simps = unat_numeral_256 le_num_simps numeral_le_iff

end
