(* ===== verification/Merkle_Tree.thy ===== *)
theory Merkle_Tree
  imports Pool_Prelude
begin

text \<open>
  The commitment tree, independent of any contract: the reference tree (a perfect binary tree
  whose missing leaves are a zero value), the incremental insertion that keeps one hash per level,
  authentication paths, and the circular buffer of recent roots. The contracts' own loops are
  shown equal to the functions of this theory in their own theories.
\<close>

section \<open>The reference tree\<close>

text \<open>\<open>node H lf l i\<close> is the hash of the \<open>i\<close>-th node of level \<open>l\<close> over the leaves \<open>lf\<close>.\<close>

fun node :: "('h \<Rightarrow> 'h \<Rightarrow> 'h) \<Rightarrow> (nat \<Rightarrow> 'h) \<Rightarrow> nat \<Rightarrow> nat \<Rightarrow> 'h" where
  "node H lf 0 i = lf i"
| "node H lf (Suc l) i = H (node H lf l (2 * i)) (node H lf l (2 * i + 1))"

definition padded :: "'h \<Rightarrow> 'h list \<Rightarrow> nat \<Rightarrow> 'h" where
  "padded z xs i = (if i < length xs then xs ! i else z)"

definition tree_root :: "('h \<Rightarrow> 'h \<Rightarrow> 'h) \<Rightarrow> 'h \<Rightarrow> nat \<Rightarrow> 'h list \<Rightarrow> 'h" where
  "tree_root H z d xs = node H (padded z xs) d 0"

primrec zeros :: "('h \<Rightarrow> 'h \<Rightarrow> 'h) \<Rightarrow> 'h \<Rightarrow> nat \<Rightarrow> 'h" where
  "zeros H z 0 = z"
| "zeros H z (Suc l) = H (zeros H z l) (zeros H z l)"

lemma zeros_shift: "zeros H (H z z) l = H (zeros H z l) (zeros H z l)"
  by (induction l) auto

lemma node_cong:
  assumes "\<And>j. i * 2 ^ l \<le> j \<Longrightarrow> j < (i + 1) * 2 ^ l \<Longrightarrow> f j = g j"
  shows "node H f l i = node H g l i"
  using assms
proof (induction l arbitrary: i)
  case (Suc l)
  have "node H f l (2 * i) = node H g l (2 * i)"
    by (rule Suc.IH, rule Suc.prems) (auto simp: algebra_simps)
  moreover have "node H f l (2 * i + 1) = node H g l (2 * i + 1)"
    by (rule Suc.IH, rule Suc.prems) (auto simp: algebra_simps)
  ultimately show ?case by simp
qed simp

lemma node_const: "node H (\<lambda>_. z) l i = zeros H z l"
  by (induction l arbitrary: i) auto

lemma node_beyond:
  assumes "length xs \<le> i * 2 ^ l"
  shows "node H (padded z xs) l i = zeros H z l"
proof -
  have "node H (padded z xs) l i = node H (\<lambda>_. z) l i"
    using assms by (intro node_cong) (simp add: padded_def)
  then show ?thesis by (simp add: node_const)
qed

lemma tree_root_Nil: "tree_root H z d [] = zeros H z d"
  by (simp add: tree_root_def node_beyond)

lemma node_prefix:
  assumes "(i + 1) * 2 ^ l \<le> length xs"
  shows "node H (padded z (xs @ ys)) l i = node H (padded z xs) l i"
  using assms by (intro node_cong) (simp add: padded_def nth_append)

section \<open>Incremental insertion\<close>

text \<open>
  \<open>climb\<close> walks from level \<open>l\<close> to level \<open>l + k\<close>: at an even position it records the hash as
  the last left subtree of the level and pairs it with the empty subtree, at an odd position it
  pairs it with the recorded left subtree.
\<close>

fun climb :: "('h \<Rightarrow> 'h \<Rightarrow> 'h) \<Rightarrow> (nat \<Rightarrow> 'h) \<Rightarrow> nat \<Rightarrow> nat \<Rightarrow> nat \<Rightarrow> 'h \<Rightarrow> (nat \<Rightarrow> 'h) \<Rightarrow> (nat \<Rightarrow> 'h) \<times> 'h" where
  "climb H zh l 0 i cur f = (f, cur)"
| "climb H zh l (Suc k) i cur f =
     (if even i then climb H zh (Suc l) k (i div 2) (H cur (zh l)) (f(l := cur))
      else climb H zh (Suc l) k (i div 2) (H (f l) cur) f)"

text \<open>The same walk on a stored map, whose missing entries read as a default.\<close>

fun climb_map :: "('h \<Rightarrow> 'h \<Rightarrow> 'h) \<Rightarrow> (nat \<Rightarrow> 'h) \<Rightarrow> 'h \<Rightarrow> nat \<Rightarrow> nat \<Rightarrow> nat \<Rightarrow> 'h \<Rightarrow> (nat \<rightharpoonup> 'h) \<Rightarrow> (nat \<rightharpoonup> 'h) \<times> 'h" where
  "climb_map H zh z l 0 i cur m = (m, cur)"
| "climb_map H zh z l (Suc k) i cur m =
     (if even i then climb_map H zh z (Suc l) k (i div 2) (H cur (zh l)) (m(l \<mapsto> cur))
      else climb_map H zh z (Suc l) k (i div 2) (H (get z m l) cur) m)"

lemma climb_map_climb:
  "climb H zh l k i h (get z m) =
     (get z (fst (climb_map H zh z l k i h m)), snd (climb_map H zh z l k i h m))"
proof (induction k arbitrary: l i h m)
  case (Suc k)
  show ?case
    by (cases "even i") (simp_all add: Suc.IH get_fun_upd [symmetric] del: fun_upd_apply get_simps)
qed simp

text \<open>What the stored hashes must hold after the leaves \<open>xs\<close>.\<close>

definition frontier :: "('h \<Rightarrow> 'h \<Rightarrow> 'h) \<Rightarrow> 'h \<Rightarrow> nat \<Rightarrow> 'h list \<Rightarrow> (nat \<Rightarrow> 'h) \<Rightarrow> bool" where
  "frontier H z d xs f \<longleftrightarrow>
     (\<forall>l<d. odd (length xs div 2 ^ l) \<longrightarrow> f l = node H (padded z xs) l (length xs div 2 ^ l - 1))"

lemma climb_step_node:
  assumes n: "n = length xs" and i: "i = n div 2 ^ l"
    and cur: "cur = node H (padded z (xs @ [x])) l i"
    and left: "odd i \<Longrightarrow> f l = node H (padded z xs) l (i - 1)"
  shows "(if even i then H cur (zeros H z l) else H (f l) cur)
           = node H (padded z (xs @ [x])) (Suc l) (i div 2)"
proof (cases "even i")
  case True
  have "n < (i + 1) * 2 ^ l"
    using i by (metis add.commute dividend_less_times_div mult.commute mult_Suc plus_1_eq_Suc
        zero_less_numeral zero_less_power)
  then have "node H (padded z (xs @ [x])) l (i + 1) = zeros H z l"
    using n by (intro node_beyond) simp
  with True cur show ?thesis by simp
next
  case False
  have "(i - 1 + 1) * 2 ^ l \<le> length xs"
    using False i n by (simp add: odd_pos)
  then have "f l = node H (padded z (xs @ [x])) l (i - 1)"
    using False left by (simp add: node_prefix)
  moreover have "2 * (i div 2) = i - 1" "2 * (i div 2) + 1 = i"
    using False by presburger+
  ultimately show ?thesis using False cur by simp
qed

lemma climb_correct:
  assumes "n = length xs" and "i = n div 2 ^ l"
    and "cur = node H (padded z (xs @ [x])) l i"
    and "\<And>j. l \<le> j \<Longrightarrow> j < l + k \<Longrightarrow> odd (n div 2 ^ j) \<Longrightarrow>
           f j = node H (padded z xs) j (n div 2 ^ j - 1)"
  shows "climb H (zeros H z) l k i cur f =
           ((\<lambda>j. if l \<le> j \<and> j < l + k \<and> even (n div 2 ^ j)
                 then node H (padded z (xs @ [x])) j (n div 2 ^ j) else f j),
            node H (padded z (xs @ [x])) (l + k) (n div 2 ^ (l + k)))"
  using assms(2-)
proof (induction k arbitrary: l i cur f)
  case (Suc k)
  let ?cur = "if even i then H cur (zeros H z l) else H (f l) cur"
  let ?f = "if even i then f(l := cur) else f"
  have up: "i div 2 = n div 2 ^ Suc l"
    using Suc.prems(1) by (metis div_mult2_eq mult.commute power_Suc)
  have cur': "?cur = node H (padded z (xs @ [x])) (Suc l) (i div 2)"
    using assms(1) Suc.prems by (intro climb_step_node) auto
  have "climb H (zeros H z) l (Suc k) i cur f = climb H (zeros H z) (Suc l) k (i div 2) ?cur ?f"
    by simp
  also have "\<dots> = ((\<lambda>j. if Suc l \<le> j \<and> j < Suc l + k \<and> even (n div 2 ^ j)
                 then node H (padded z (xs @ [x])) j (n div 2 ^ j) else ?f j),
            node H (padded z (xs @ [x])) (Suc l + k) (n div 2 ^ (Suc l + k)))"
    using Suc.prems by (intro Suc.IH [OF up cur']) auto
  also have "\<dots> = ((\<lambda>j. if l \<le> j \<and> j < l + Suc k \<and> even (n div 2 ^ j)
                 then node H (padded z (xs @ [x])) j (n div 2 ^ j) else f j),
            node H (padded z (xs @ [x])) (l + Suc k) (n div 2 ^ (l + Suc k)))"
    using Suc.prems(1,2) by (auto simp: fun_eq_iff not_le le_Suc_eq dest: le_antisym)
  finally show ?case .
qed (auto simp: fun_eq_iff)

lemma Suc_div_cases: "Suc n div m = n div m \<or> Suc n div m = Suc (n div m)"
  by (simp add: div_Suc)

theorem climb_root:
  assumes fr: "frontier H z d xs f" and room: "length xs < 2 ^ d"
    and run: "climb H (zeros H z) 0 d (length xs) x f = (f', r)"
  shows "frontier H z d (xs @ [x]) f'" and "r = tree_root H z d (xs @ [x])"
proof -
  let ?n = "length xs" and ?N = "\<lambda>j. node H (padded z (xs @ [x])) j"
  have eq: "climb H (zeros H z) 0 d ?n x f =
     ((\<lambda>j. if 0 \<le> j \<and> j < 0 + d \<and> even (?n div 2 ^ j) then ?N j (?n div 2 ^ j) else f j),
      ?N (0 + d) (?n div 2 ^ (0 + d)))"
    using fr by (intro climb_correct) (auto simp: padded_def frontier_def)
  with run have f': "f' = (\<lambda>j. if j < d \<and> even (?n div 2 ^ j) then ?N j (?n div 2 ^ j) else f j)"
    and r: "r = ?N d (?n div 2 ^ d)" by auto
  show "r = tree_root H z d (xs @ [x])"
    using r room by (simp add: tree_root_def)
  show "frontier H z d (xs @ [x]) f'"
    unfolding frontier_def
  proof (intro allI impI)
    fix l assume l: "l < d" "odd (length (xs @ [x]) div 2 ^ l)"
    show "f' l = ?N l (length (xs @ [x]) div 2 ^ l - 1)"
    proof (cases "Suc ?n div 2 ^ l = ?n div 2 ^ l")
      case True
      with l have odd: "odd (?n div 2 ^ l)" by simp
      have "(?n div 2 ^ l - 1 + 1) * 2 ^ l \<le> length xs"
        using odd by (simp add: odd_pos)
      with odd l True fr show ?thesis
        by (simp add: f' frontier_def node_prefix)
    next
      case False
      then have "Suc ?n div 2 ^ l = Suc (?n div 2 ^ l)"
        using Suc_div_cases [of ?n "2 ^ l"] by blast
      with l show ?thesis by (simp add: f')
    qed
  qed
qed

lemma frontier_Nil: "frontier H z d [] f"
  by (simp add: frontier_def)

section \<open>Authentication paths\<close>

text \<open>
  The check of the circuits: starting from the leaf, hash with the sibling on the side the index
  bit says.
\<close>

fun path_root :: "('h \<Rightarrow> 'h \<Rightarrow> 'h) \<Rightarrow> 'h \<Rightarrow> (bool \<times> 'h) list \<Rightarrow> 'h" where
  "path_root H cur [] = cur"
| "path_root H cur ((b, s) # ps) = path_root H (if b then H s cur else H cur s) ps"

definition sibling :: "nat \<Rightarrow> nat" where
  "sibling i = (if even i then i + 1 else i - 1)"

fun auth_path :: "('h \<Rightarrow> 'h \<Rightarrow> 'h) \<Rightarrow> (nat \<Rightarrow> 'h) \<Rightarrow> nat \<Rightarrow> nat \<Rightarrow> nat \<Rightarrow> (bool \<times> 'h) list" where
  "auth_path H lf l 0 i = []"
| "auth_path H lf l (Suc k) i =
     (odd i, node H lf l (sibling i)) # auth_path H lf (Suc l) k (i div 2)"

lemma node_step:
  "node H lf (Suc l) (i div 2) =
     (if odd i then H (node H lf l (sibling i)) (node H lf l i)
      else H (node H lf l i) (node H lf l (sibling i)))"
proof (cases "even i")
  case False
  then have "2 * (i div 2) = i - 1" "2 * (i div 2) + 1 = i" by presburger+
  with False show ?thesis by (simp add: sibling_def)
qed (simp add: sibling_def)

lemma path_root_auth_path:
  "path_root H (node H lf l i) (auth_path H lf l k i) = node H lf (l + k) (i div 2 ^ k)"
proof (induction k arbitrary: l i)
  case (Suc k)
  have "path_root H (node H lf l i) (auth_path H lf l (Suc k) i) =
          path_root H (node H lf (Suc l) (i div 2)) (auth_path H lf (Suc l) k (i div 2))"
    unfolding node_step [of H lf l i] by simp
  also have "\<dots> = node H lf (Suc l + k) (i div 2 div 2 ^ k)"
    by (rule Suc)
  also have "i div 2 div 2 ^ k = i div 2 ^ Suc k"
    by (simp add: div_mult2_eq)
  finally show ?case by simp
qed simp

lemma path_root_complete:
  assumes "i < length xs" and "i < 2 ^ d"
  shows "path_root H (xs ! i) (auth_path H (padded z xs) 0 d i) = tree_root H z d xs"
  using path_root_auth_path [of H "padded z xs" 0 i d] assms
  by (simp add: padded_def tree_root_def)

text \<open>
  A root binds every leaf below it: two trees with the same root agree on all leaves, or some node
  of the two trees is the hash of two different pairs of children.
\<close>

definition tree_collision :: "('h \<Rightarrow> 'h \<Rightarrow> 'h) \<Rightarrow> nat \<Rightarrow> (nat \<Rightarrow> 'h) \<Rightarrow> (nat \<Rightarrow> 'h) \<Rightarrow> bool" where
  "tree_collision H d f g \<longleftrightarrow>
     (\<exists>l<d. \<exists>i. node H f (Suc l) i = node H g (Suc l) i \<and>
        (node H f l (2 * i), node H f l (2 * i + 1)) \<noteq> (node H g l (2 * i), node H g l (2 * i + 1)))"

lemma node_binding:
  assumes "node H f l i = node H g l i" and "\<not> tree_collision H d f g" and "l \<le> d"
    and "i * 2 ^ l \<le> j" and "j < (i + 1) * 2 ^ l"
  shows "f j = g j"
  using assms
proof (induction l arbitrary: i)
  case (Suc l)
  have "l < d" using Suc.prems(3) by simp
  with Suc.prems(1,2) have eqs: "node H f l (2 * i) = node H g l (2 * i)"
    "node H f l (2 * i + 1) = node H g l (2 * i + 1)"
    unfolding tree_collision_def by blast+
  have low: "2 * i * 2 ^ l \<le> j" and high: "j < (2 * i + 1 + 1) * 2 ^ l"
    using Suc.prems(4,5) by (simp_all add: mult.assoc mult.left_commute)
  show ?case
  proof (cases "j < (2 * i + 1) * 2 ^ l")
    case True
    with low \<open>l < d\<close> show ?thesis by (intro Suc.IH [OF eqs(1) Suc.prems(2)]) auto
  next
    case False
    with high \<open>l < d\<close> show ?thesis by (intro Suc.IH [OF eqs(2) Suc.prems(2)]) auto
  qed
qed (auto simp: less_Suc_eq_le dest: le_antisym)

lemma tree_root_binding:
  assumes "tree_root H z d xs = tree_root H z d ys" and "length xs = length ys"
    and "length xs \<le> 2 ^ d"
  shows "xs = ys \<or> tree_collision H d (padded z xs) (padded z ys)"
proof (rule disjCI)
  assume nc: "\<not> tree_collision H d (padded z xs) (padded z ys)"
  show "xs = ys"
  proof (rule nth_equalityI [OF assms(2)])
    fix j assume j: "j < length xs"
    have "padded z xs j = padded z ys j"
      using assms(1,3) nc j
      by (intro node_binding [of H "padded z xs" d 0 "padded z ys" d j])
        (simp_all add: tree_root_def)
    then show "xs ! j = ys ! j"
      using j assms(2) by (simp add: padded_def)
  qed
qed

section \<open>The circular buffer of roots\<close>

text \<open>
  \<open>ring_scan p cap i k\<close> looks at \<open>k\<close> slots from slot \<open>i\<close> downwards, wrapping from slot 0 to
  the last one.
\<close>

fun ring_scan :: "(nat \<Rightarrow> bool) \<Rightarrow> nat \<Rightarrow> nat \<Rightarrow> nat \<Rightarrow> bool" where
  "ring_scan p cap i 0 = False"
| "ring_scan p cap i (Suc k) =
     (if p i then True else ring_scan p cap (if i = 0 then cap - 1 else i - 1) k)"

lemma ring_scan_down:
  "k \<le> i + 1 \<Longrightarrow> ring_scan p cap i k \<longleftrightarrow> (\<exists>j\<le>i. i < j + k \<and> p j)"
proof (induction k arbitrary: i)
  case (Suc k)
  show ?case
  proof (cases "i = 0 \<or> p i")
    case True
    with Suc.prems show ?thesis by (cases k) auto
  next
    case False
    then have "ring_scan p cap i (Suc k) \<longleftrightarrow> (\<exists>j\<le>i - 1. i - 1 < j + k \<and> p j)"
      using Suc by simp
    also have "\<dots> \<longleftrightarrow> (\<exists>j. (j \<le> i \<and> i < j + Suc k) \<and> p j)"
    proof (rule ex_cong1)
      fix j
      have "j \<le> i - 1 \<and> i - 1 < j + k \<longleftrightarrow> j \<le> i \<and> i < j + Suc k" if "j \<noteq> i"
        using that False by arith
      then show "(j \<le> i - 1 \<and> i - 1 < j + k \<and> p j) \<longleftrightarrow> (j \<le> i \<and> i < j + Suc k) \<and> p j"
        using False by (cases "j = i") auto
    qed
    finally show ?thesis by simp
  qed
qed simp

lemma ring_scan_wrap:
  "ring_scan p cap i (Suc i + k) \<longleftrightarrow> (\<exists>j\<le>i. p j) \<or> ring_scan p cap (cap - 1) k"
proof (induction i)
  case (Suc i)
  then show ?case by (auto simp: le_Suc_eq)
qed simp

lemma ring_scan_all:
  assumes "i < cap"
  shows "ring_scan p cap i cap \<longleftrightarrow> (\<exists>j<cap. p j)"
proof -
  have "ring_scan p cap i cap \<longleftrightarrow> (\<exists>j\<le>i. p j) \<or> ring_scan p cap (cap - 1) (cap - Suc i)"
    using assms ring_scan_wrap [of p cap i "cap - Suc i"] by simp
  also have "\<dots> \<longleftrightarrow> (\<exists>j\<le>i. p j) \<or> (\<exists>j\<le>cap - 1. cap - 1 < j + (cap - Suc i) \<and> p j)"
    using assms by (simp add: ring_scan_down)
  also have "\<dots> \<longleftrightarrow> (\<exists>j<cap. p j)"
  proof -
    have "j \<le> cap - 1 \<and> cap - 1 < j + (cap - Suc i) \<longleftrightarrow> i < j \<and> j < cap" for j
      using assms by arith
    then have "(\<exists>j\<le>cap - 1. cap - 1 < j + (cap - Suc i) \<and> p j) \<longleftrightarrow> (\<exists>j. (i < j \<and> j < cap) \<and> p j)"
      by blast
    moreover have "j < cap \<longleftrightarrow> j \<le> i \<or> (i < j \<and> j < cap)" for j
      using assms by arith
    ultimately show ?thesis by blast
  qed
  finally show ?thesis .
qed

text \<open>
  The buffer after \<open>n\<close> insertions, \<open>R k\<close> being the root after \<open>k\<close> of them: the last \<open>cap\<close>
  roots, each in slot \<open>k mod cap\<close>, and nothing else.
\<close>

definition ring_holds :: "nat \<Rightarrow> (nat \<Rightarrow> 'h) \<Rightarrow> nat \<Rightarrow> (nat \<rightharpoonup> 'h) \<Rightarrow> nat \<Rightarrow> bool" where
  "ring_holds cap R n ring cur \<longleftrightarrow> 0 < cap \<and> cur = n mod cap \<and>
     (\<forall>j r. ring j = Some r \<longleftrightarrow> (\<exists>k\<le>n. n < k + cap \<and> j = k mod cap \<and> r = R k))"

lemma window_unique:
  fixes k k' n cap :: nat
  assumes "k \<le> n" "n < k + cap" "k' \<le> n" "n < k' + cap" "k mod cap = k' mod cap"
  shows "k = k'"
proof (rule ccontr)
  assume "k \<noteq> k'"
  have *: False if "a < b" "b < a + cap" "a mod cap = b mod cap" for a b :: nat
  proof -
    from that(1,3) have "cap dvd b - a" by (metis mod_eq_dvd_iff_nat less_imp_le)
    with that(1,2) show False by (auto dest: dvd_imp_le)
  qed
  from \<open>k \<noteq> k'\<close> consider "k < k'" | "k' < k" by linarith
  then show False
    using * [of k k'] * [of k' k] assms by cases linarith+
qed

lemma ring_holds_0: "0 < cap \<Longrightarrow> ring_holds cap R 0 [0 \<mapsto> R 0] 0"
  by (auto simp: ring_holds_def)

lemma ring_holds_push:
  assumes h: "ring_holds cap R n ring cur" and i: "i = (cur + 1) mod cap"
  shows "ring_holds cap R (Suc n) (ring(i \<mapsto> R (Suc n))) i"
proof -
  have cap: "0 < cap" and i': "i = Suc n mod cap"
    using h i by (auto simp: ring_holds_def mod_Suc_eq)
  have "(ring(i \<mapsto> R (Suc n))) j = Some r \<longleftrightarrow>
          (\<exists>k\<le>Suc n. Suc n < k + cap \<and> j = k mod cap \<and> r = R k)" for j r
  proof (cases "j = i")
    case True
    have "k = Suc n" if "k \<le> Suc n" "Suc n < k + cap" "j = k mod cap" for k
      using that True i' cap by (intro window_unique [of k "Suc n" cap "Suc n"]) auto
    with True i' cap show ?thesis by auto
  next
    case False
    have "(\<exists>k\<le>n. n < k + cap \<and> j = k mod cap \<and> r = R k) \<longleftrightarrow>
          (\<exists>k\<le>Suc n. Suc n < k + cap \<and> j = k mod cap \<and> r = R k)"
    proof -
      have "n + 1 \<noteq> k + cap" if "j = k mod cap" for k
        using that False i' by (metis Suc_eq_plus1 mod_add_self2)
      moreover have "k \<noteq> Suc n" if "j = k mod cap" for k
        using that False i' by auto
      ultimately have "(k \<le> n \<and> n < k + cap) \<longleftrightarrow> (k \<le> Suc n \<and> Suc n < k + cap)"
        if "j = k mod cap" for k
        using that by (metis Suc_eq_plus1 Suc_lessD Suc_lessI le_Suc_eq)
      then show ?thesis by blast
    qed
    with False h show ?thesis by (simp add: ring_holds_def)
  qed
  then show ?thesis using cap i' by (simp add: ring_holds_def)
qed

lemma ring_holds_scan:
  assumes "ring_holds cap R n ring cur"
  shows "ring_scan (\<lambda>j. ring j = Some r) cap cur cap \<longleftrightarrow> (\<exists>k\<le>n. n < k + cap \<and> r = R k)"
proof -
  have "cur < cap" using assms by (simp add: ring_holds_def)
  then have "ring_scan (\<lambda>j. ring j = Some r) cap cur cap \<longleftrightarrow> (\<exists>j<cap. ring j = Some r)"
    by (rule ring_scan_all)
  also have "\<dots> \<longleftrightarrow> (\<exists>k\<le>n. n < k + cap \<and> r = R k)"
    using assms mod_less_divisor [of cap] unfolding ring_holds_def by metis
  finally show ?thesis .
qed

lemma ring_holds_latest: "ring_holds cap R n ring cur \<Longrightarrow> ring cur = Some (R n)"
  by (auto simp: ring_holds_def)

section \<open>The tree a contract stores\<close>

text \<open>
  \<open>tree_rep H z d cap xs n f ring cur\<close>: the counter \<open>n\<close>, the subtree hashes \<open>f\<close>, the root
  buffer \<open>ring\<close> and its position \<open>cur\<close> store the tree of depth \<open>d\<close> over the leaves \<open>xs\<close>
  and its last \<open>cap\<close> roots.
\<close>

definition tree_rep ::
  "('h \<Rightarrow> 'h \<Rightarrow> 'h) \<Rightarrow> 'h \<Rightarrow> nat \<Rightarrow> nat \<Rightarrow> 'h list \<Rightarrow> nat \<Rightarrow> (nat \<Rightarrow> 'h) \<Rightarrow> (nat \<rightharpoonup> 'h) \<Rightarrow> nat \<Rightarrow> bool" where
  "tree_rep H z d cap xs n f ring cur \<longleftrightarrow> n = length xs \<and> n \<le> 2 ^ d \<and> frontier H z d xs f \<and>
     ring_holds cap (\<lambda>k. tree_root H z d (take k xs)) n ring cur"

lemma tree_rep_Nil:
  "0 < cap \<Longrightarrow> tree_rep H z d cap [] 0 f [0 \<mapsto> tree_root H z d []] 0"
  using ring_holds_0 [of cap "\<lambda>k. tree_root H z d (take k [])"]
  by (simp add: tree_rep_def frontier_Nil)

lemma ring_holds_cong:
  assumes "\<And>k. k \<le> n \<Longrightarrow> R k = R' k"
  shows "ring_holds cap R n ring cur \<longleftrightarrow> ring_holds cap R' n ring cur"
proof -
  have "(\<exists>k\<le>n. n < k + cap \<and> j = k mod cap \<and> r = R k) \<longleftrightarrow>
        (\<exists>k\<le>n. n < k + cap \<and> j = k mod cap \<and> r = R' k)" for j r
    by (intro ex_cong1 conj_cong refl) (simp add: assms)
  then show ?thesis by (simp add: ring_holds_def)
qed

lemma tree_rep_push:
  assumes rep: "tree_rep H z d cap xs n f ring cur" and room: "n < 2 ^ d"
    and run: "climb H (zeros H z) 0 d n x f = (f', r)" and i: "i = (cur + 1) mod cap"
  shows "tree_rep H z d cap (xs @ [x]) (n + 1) f' (ring(i \<mapsto> r)) i"
proof -
  have n: "n = length xs" and fr: "frontier H z d xs f"
    and rh: "ring_holds cap (\<lambda>k. tree_root H z d (take k xs)) n ring cur"
    using rep by (auto simp: tree_rep_def)
  let ?R = "\<lambda>k. tree_root H z d (take k (xs @ [x]))"
  have r: "frontier H z d (xs @ [x]) f'" "r = ?R (Suc n)"
    using climb_root [OF fr _ run [unfolded n]] room n by auto
  have "ring_holds cap ?R n ring cur"
    using rh n by (subst ring_holds_cong [where R' = "\<lambda>k. tree_root H z d (take k xs)"]) auto
  then have "ring_holds cap ?R (Suc n) (ring(i \<mapsto> ?R (Suc n))) i"
    using i by (rule ring_holds_push)
  with r room n show ?thesis by (simp add: tree_rep_def)
qed

lemma tree_rep_push_map:
  assumes "tree_rep H z d cap xs n (get z m) ring cur" and "n < 2 ^ d"
    and "w = climb_map H (zeros H z) z 0 d n x m" and "i = (cur + 1) mod cap"
  shows "tree_rep H z d cap (xs @ [x]) (n + 1) (get z (fst w)) (ring(i \<mapsto> snd w)) i"
  unfolding assms(3) by (rule tree_rep_push [OF assms(1,2) climb_map_climb assms(4)])

lemma tree_rep_latest:
  "tree_rep H z d cap xs n f ring cur \<Longrightarrow> ring cur = Some (tree_root H z d xs)"
  using ring_holds_latest [of cap "\<lambda>k. tree_root H z d (take k xs)" n ring cur]
  by (auto simp: tree_rep_def)

lemma tree_rep_scan:
  "tree_rep H z d cap xs n f ring cur \<Longrightarrow>
     ring_scan (\<lambda>j. ring j = Some r) cap cur cap \<longleftrightarrow>
       (\<exists>k\<le>length xs. length xs < k + cap \<and> r = tree_root H z d (take k xs))"
  using ring_holds_scan [of cap "\<lambda>k. tree_root H z d (take k xs)" n ring cur r]
  by (auto simp: tree_rep_def)

section \<open>The interface of a commitment tree\<close>

text \<open>
  What a pool relies on: \<open>rep s xs\<close> says that the stored state \<open>s\<close> holds the leaves \<open>xs\<close>;
  insertion goes through exactly for a valid leaf while there is room and then appends it, the
  latest root is the root of the reference tree, and exactly the last \<open>cap\<close> roots are accepted,
  the zero value never.
\<close>

locale commitment_tree =
  fixes insert_op :: "'s \<Rightarrow> 'h \<Rightarrow> ('e, 's) result"
    and known :: "'s \<Rightarrow> 'h \<Rightarrow> bool"
    and latest :: "'s \<Rightarrow> 'h"
    and rep :: "'s \<Rightarrow> 'h list \<Rightarrow> bool"
    and valid :: "'h \<Rightarrow> bool"
    and H :: "'h \<Rightarrow> 'h \<Rightarrow> 'h" and z :: 'h and d cap :: nat
  assumes rep_bounded: "rep s xs \<Longrightarrow> length xs \<le> 2 ^ d"
    and insert_ok_iff: "rep s xs \<Longrightarrow> is_Ok (insert_op s x) \<longleftrightarrow> length xs < 2 ^ d \<and> valid x"
    and insert_rep: "rep s xs \<Longrightarrow> insert_op s x = Ok s' \<Longrightarrow> rep s' (xs @ [x])"
    and latest_rep: "rep s xs \<Longrightarrow> latest s = tree_root H z d xs"
    and known_rep: "rep s xs \<Longrightarrow> known s r \<longleftrightarrow>
      r \<noteq> z \<and> (\<exists>k\<le>length xs. length xs < k + cap \<and> r = tree_root H z d (take k xs))"
begin

lemma run_insert_rep:
  assumes "rep s xs" and "length xs + length ys \<le> 2 ^ d" and "list_all valid ys"
  shows "rep (run insert_op s ys) (xs @ ys)"
  using assms
proof (induction ys arbitrary: s xs)
  case (Cons y ys)
  have "length xs < 2 ^ d \<and> valid y" using Cons.prems(2,3) by simp
  then obtain s' where s': "insert_op s y = Ok s'"
    using insert_ok_iff [OF Cons.prems(1), of y] by (auto simp: is_Ok_iff)
  with Cons insert_rep [OF Cons.prems(1) s'] show ?case
    by (fastforce simp: commit_def)
qed simp

lemma run_insert_latest:
  "rep s xs \<Longrightarrow> length xs + length ys \<le> 2 ^ d \<Longrightarrow> list_all valid ys \<Longrightarrow>
     latest (run insert_op s ys) = tree_root H z d (xs @ ys)"
  by (simp add: latest_rep run_insert_rep)

lemma recent_root_known:
  assumes "rep s xs" and "length xs + length ys \<le> 2 ^ d" and "list_all valid ys"
    and "length ys < cap" and "latest s \<noteq> z"
  shows "known (run insert_op s ys) (latest s)"
proof -
  have "rep (run insert_op s ys) (xs @ ys)"
    using assms(1,2,3) by (rule run_insert_rep)
  moreover have "latest s = tree_root H z d (take (length xs) (xs @ ys))"
    using assms(1) by (simp add: latest_rep)
  ultimately show ?thesis
    using assms(4,5) known_rep by (metis add_less_cancel_left le_add1 length_append)
qed

lemma known_root_leaf_path:
  assumes "rep s xs" and "known s r"
  shows "\<exists>k\<le>length xs. length xs < k + cap \<and> r = tree_root H z d (take k xs) \<and>
           (\<forall>i<k. path_root H (xs ! i) (auth_path H (padded z (take k xs)) 0 d i) = r)"
proof -
  obtain k where k: "k \<le> length xs" "length xs < k + cap" "r = tree_root H z d (take k xs)"
    using assms known_rep by blast
  have "path_root H (xs ! i) (auth_path H (padded z (take k xs)) 0 d i) = r" if "i < k" for i
    using path_root_complete [of i "take k xs" d H z] that k rep_bounded [OF assms(1)] by simp
  with k show ?thesis by blast
qed

end

end
