(* ===== verification/Pallet_Poseidon.thy ===== *)
theory Pallet_Poseidon
  imports Poseidon_Spec Merkle_Tree
begin

text \<open>
  The Poseidon hash of the Substrate pallet (\<open>pallets/privacy-pool/src/lib.rs\<close>, from
  \<open>BN254_MODULUS\<close> to \<open>zero_hash\<close>), on 256-bit integers with 512-bit intermediate results,
  and its equality with the permutation over the integers modulo the constant the code uses.
\<close>

type_synonym u256x3 = "u256 \<times> u256 \<times> u256"

text \<open>\<open>U256([l0, l1, l2, l3])\<close>: the least significant limb comes first.\<close>

fun u256_limbs :: "nat list \<Rightarrow> u256" where
  "u256_limbs [] = 0"
| "u256_limbs (l # ls) = of_nat l + 2 ^ 64 * u256_limbs ls"

definition BN254_MODULUS :: u256 where
  "BN254_MODULUS = u256_limbs [0x30644e72e131a029, 0xb85045b68181585d, 0x97816a916871ca8d,
                               0x3c208c16d87cfd47]"

definition u256_addmod :: "u256 \<Rightarrow> u256 \<Rightarrow> u256 \<Rightarrow> u256" where
  "u256_addmod a b m =
     (let a512 = ucast a :: u512; b512 = ucast b; m512 = ucast m;
          result = (a512 + b512) mod m512
      in ucast result)"

definition u256_mulmod :: "u256 \<Rightarrow> u256 \<Rightarrow> u256 \<Rightarrow> u256" where
  "u256_mulmod a b m =
     (let a512 = ucast a :: u512; b512 = ucast b; m512 = ucast m;
          result = (a512 * b512) mod m512
      in ucast result)"

definition sbox :: "u256 \<Rightarrow> u256" where
  "sbox x =
     (let m = BN254_MODULUS;
          x2 = u256_mulmod x x m;
          x4 = u256_mulmod x2 x2 m
      in u256_mulmod x4 x m)"

definition mds :: "u256x3 \<Rightarrow> u256x3" where
  "mds state = (case state of (s0, s1, s2) \<Rightarrow>
    (let m = BN254_MODULUS;
     m00 = 0x109b7f411ba0e4c9b2b70caf5c36a7b194be7c11ad24378bfedb68592ba8118b;
     m01 = 0x2969f27eed31a480b9c36c764379dbca2cc8fdd1415c3dded62940bcde0bd771;
     m02 = 0x143021ec686a3f330d5f9e654638065ce6cd79e28c5b3753326244ee65a1b1a7;
     m10 = 0x16ed41e13bb9c0c66ae119424fddbcbc9314dc9fdbdeea55d6c64543dc4903e0;
     m11 = 0x2e2419f9ec02ec394c9871c832963dc1b89d743c8c7b964029b2311687b1fe23;
     m12 = 0x176cc029695ad02582a70eff08a6fd99d057e12e58e7d7b6b16cdfabc8ee2911;
     m20 = 0x2b90bba00fca0589f617e7dcbfe82e0df706ab640ceb247b791a93b74e36736d;
     m21 = 0x101071f0032379b697315571086d26850e39a080c3a3118b11aced26d3de9c1a;
     m22 = 0x19a3fc0a56702bf417ba7fee3802593fa644470307043f7773e0e01e2680fb05;
     r0 = u256_addmod (u256_addmod (u256_mulmod m00 s0 m) (u256_mulmod m01 s1 m) m)
            (u256_mulmod m02 s2 m) m;
     r1 = u256_addmod (u256_addmod (u256_mulmod m10 s0 m) (u256_mulmod m11 s1 m) m)
            (u256_mulmod m12 s2 m) m;
     r2 = u256_addmod (u256_addmod (u256_mulmod m20 s0 m) (u256_mulmod m21 s1 m) m)
            (u256_mulmod m22 s2 m) m
     in (r0, r1, r2)))"

definition full_rc_first :: "u256x3 list" where
  "full_rc_first =
  [(0xee9a592ba9a9518d05986d656f40c2114c4993c11bb29571f29d4ac50a4b6b1,
    0xf1445235f2148c5986587169fc1bcd887b08d4d00868df5696fff40956e864,
    0x8dff3487e8ac99e1f29a058d0fa80b930c728730b7ab36ce879f3890ecf73f5),
   (0x2f27be690fdaee46c3ce28f7532b13c856c35342c84bda6e20966310fadc01d0,
    0x2b2ae1acf68b7b8d2416571a5e5d76ab4fe18b07f2a6f63f63f7c8b0d12e0aab,
    0xd4c5de80775b15580ae0631da32c4bbfecb5b0fa26ce7cd2c4f36a12d5a0a29),
   (0x1a5b6e41af31d9e7742f12d70a77ff91cae77d594a4e80d0bb8cc247920a4b6a,
    0x30644e72e131a029b85045b68181585d97816a916871ca8d3c208c16d87cfd15,
    0x61b11060fcc69d16e44e0e23b1b3c2e5db7e7536e1e8ca83a8b3b41e6c0259c),
   (0x197e89ac09ad23a3c76a7f3f27c5bb90aa9e2dcf4d3f8837be7dfd637ee9fee6,
    0x103e21d1e80efa38c8e89b02cef75a4942a1e67fdf10b0dd4f1a7a0c9bf62037,
    0xe0c82b0b71c1bcdf5283e8e5b6683a68b0e79f93ca9faba7f67854de6a2b59d)]"

definition partial_rc :: "u256 list" where
  "partial_rc =
  [0x2c4c5de8b4f2a1e3d7b9c6f0a5e8d3c1b4f7a2e6d9c3b8f1a5e2d7c4b9f6a3e0,
   0x1a3b5c7d9e0f2a4b6c8d0e1f3a5b7c9d1e3f5a7b9c1d3e5f7a9b1c3d5e7f9a1b,
   0xe1d2c3b4a5f6e7d8c9b0a1f2e3d4c5b6a7f8e9d0c1b2a3f4e5d6c7b8a9f0e1d,
   0x1f0e2d3c4b5a6f7e8d9c0b1a2f3e4d5c6b7a8f9e0d1c2b3a4f5e6d7c8b9a0f1e,
   0x2a1b3c4d5e6f7a8b9c0d1e2f3a4b5c6d7e8f9a0b1c2d3e4f5a6b7c8d9e0f1a2b,
   0xb2c3d4e5f6a7b8c9d0e1f2a3b4c5d6e7f8a9b0c1d2e3f4a5b6c7d8e9f0a1b2c,
   0x1c3d4e5f6a7b8c9d0e1f2a3b4c5d6e7f8a9b0c1d2e3f4a5b6c7d8e9f0a1b2c3d,
   0x2d4e5f6a7b8c9d0e1f2a3b4c5d6e7f8a9b0c1d2e3f4a5b6c7d8e9f0a1b2c3d4e,
   0xe5f6a7b8c9d0e1f2a3b4c5d6e7f8a9b0c1d2e3f4a5b6c7d8e9f0a1b2c3d4e5f,
   0x1f6a7b8c9d0e1f2a3b4c5d6e7f8a9b0c1d2e3f4a5b6c7d8e9f0a1b2c3d4e5f6a,
   0x2a7b8c9d0e1f2a3b4c5d6e7f8a9b0c1d2e3f4a5b6c7d8e9f0a1b2c3d4e5f6a7b,
   0xb8c9d0e1f2a3b4c5d6e7f8a9b0c1d2e3f4a5b6c7d8e9f0a1b2c3d4e5f6a7b8c,
   0x1c9d0e1f2a3b4c5d6e7f8a9b0c1d2e3f4a5b6c7d8e9f0a1b2c3d4e5f6a7b8c9d,
   0x2d0e1f2a3b4c5d6e7f8a9b0c1d2e3f4a5b6c7d8e9f0a1b2c3d4e5f6a7b8c9d0e,
   0xe1f2a3b4c5d6e7f8a9b0c1d2e3f4a5b6c7d8e9f0a1b2c3d4e5f6a7b8c9d0e1f,
   0x1f2a3b4c5d6e7f8a9b0c1d2e3f4a5b6c7d8e9f0a1b2c3d4e5f6a7b8c9d0e1f2a,
   0x2a3b4c5d6e7f8a9b0c1d2e3f4a5b6c7d8e9f0a1b2c3d4e5f6a7b8c9d0e1f2a3b,
   0xb4c5d6e7f8a9b0c1d2e3f4a5b6c7d8e9f0a1b2c3d4e5f6a7b8c9d0e1f2a3b4c,
   0x1c5d6e7f8a9b0c1d2e3f4a5b6c7d8e9f0a1b2c3d4e5f6a7b8c9d0e1f2a3b4c5d,
   0x2d6e7f8a9b0c1d2e3f4a5b6c7d8e9f0a1b2c3d4e5f6a7b8c9d0e1f2a3b4c5d6e,
   0xe7f8a9b0c1d2e3f4a5b6c7d8e9f0a1b2c3d4e5f6a7b8c9d0e1f2a3b4c5d6e7f,
   0x1f8a9b0c1d2e3f4a5b6c7d8e9f0a1b2c3d4e5f6a7b8c9d0e1f2a3b4c5d6e7f8a,
   0x2a9b0c1d2e3f4a5b6c7d8e9f0a1b2c3d4e5f6a7b8c9d0e1f2a3b4c5d6e7f8a9b,
   0xb0c1d2e3f4a5b6c7d8e9f0a1b2c3d4e5f6a7b8c9d0e1f2a3b4c5d6e7f8a9b0c,
   0x1c1d2e3f4a5b6c7d8e9f0a1b2c3d4e5f6a7b8c9d0e1f2a3b4c5d6e7f8a9b0c1d,
   0x2d2e3f4a5b6c7d8e9f0a1b2c3d4e5f6a7b8c9d0e1f2a3b4c5d6e7f8a9b0c1d2e,
   0xe3f4a5b6c7d8e9f0a1b2c3d4e5f6a7b8c9d0e1f2a3b4c5d6e7f8a9b0c1d2e3f,
   0x1f4a5b6c7d8e9f0a1b2c3d4e5f6a7b8c9d0e1f2a3b4c5d6e7f8a9b0c1d2e3f4a,
   0x2a5b6c7d8e9f0a1b2c3d4e5f6a7b8c9d0e1f2a3b4c5d6e7f8a9b0c1d2e3f4a5b,
   0xb6c7d8e9f0a1b2c3d4e5f6a7b8c9d0e1f2a3b4c5d6e7f8a9b0c1d2e3f4a5b6c,
   0x1c7d8e9f0a1b2c3d4e5f6a7b8c9d0e1f2a3b4c5d6e7f8a9b0c1d2e3f4a5b6c7d,
   0x2d8e9f0a1b2c3d4e5f6a7b8c9d0e1f2a3b4c5d6e7f8a9b0c1d2e3f4a5b6c7d8e,
   0xe9f0a1b2c3d4e5f6a7b8c9d0e1f2a3b4c5d6e7f8a9b0c1d2e3f4a5b6c7d8e9f,
   0x1f0a1b2c3d4e5f6a7b8c9d0e1f2a3b4c5d6e7f8a9b0c1d2e3f4a5b6c7d8e9f0a,
   0x2a1b2c3d4e5f6a7b8c9d0e1f2a3b4c5d6e7f8a9b0c1d2e3f4a5b6c7d8e9f0a1b,
   0xb2c3d4e5f6a7b8c9d0e1f2a3b4c5d6e7f8a9b0c1d2e3f4a5b6c7d8e9f0a1b2c,
   0x1c3d4e5f6a7b8c9d0e1f2a3b4c5d6e7f8a9b0c1d2e3f4a5b6c7d8e9f0a1b2c3d,
   0x2d4e5f6a7b8c9d0e1f2a3b4c5d6e7f8a9b0c1d2e3f4a5b6c7d8e9f0a1b2c3d4e,
   0xe5f6a7b8c9d0e1f2a3b4c5d6e7f8a9b0c1d2e3f4a5b6c7d8e9f0a1b2c3d4e5f,
   0x1f6a7b8c9d0e1f2a3b4c5d6e7f8a9b0c1d2e3f4a5b6c7d8e9f0a1b2c3d4e5f6a,
   0x2a7b8c9d0e1f2a3b4c5d6e7f8a9b0c1d2e3f4a5b6c7d8e9f0a1b2c3d4e5f6a7b,
   0xb8c9d0e1f2a3b4c5d6e7f8a9b0c1d2e3f4a5b6c7d8e9f0a1b2c3d4e5f6a7b8c,
   0x1c9d0e1f2a3b4c5d6e7f8a9b0c1d2e3f4a5b6c7d8e9f0a1b2c3d4e5f6a7b8c9d,
   0x2d0e1f2a3b4c5d6e7f8a9b0c1d2e3f4a5b6c7d8e9f0a1b2c3d4e5f6a7b8c9d0e,
   0xe1f2a3b4c5d6e7f8a9b0c1d2e3f4a5b6c7d8e9f0a1b2c3d4e5f6a7b8c9d0e1e,
   0x1f2a3b4c5d6e7f8a9b0c1d2e3f4a5b6c7d8e9f0a1b2c3d4e5f6a7b8c9d0e1f29,
   0x2a3b4c5d6e7f8a9b0c1d2e3f4a5b6c7d8e9f0a1b2c3d4e5f6a7b8c9d0e1f2a3a,
   0xb4c5d6e7f8a9b0c1d2e3f4a5b6c7d8e9f0a1b2c3d4e5f6a7b8c9d0e1f2a3b4b,
   0x1c5d6e7f8a9b0c1d2e3f4a5b6c7d8e9f0a1b2c3d4e5f6a7b8c9d0e1f2a3b4c5c,
   0x2d6e7f8a9b0c1d2e3f4a5b6c7d8e9f0a1b2c3d4e5f6a7b8c9d0e1f2a3b4c5d6d,
   0xe7f8a9b0c1d2e3f4a5b6c7d8e9f0a1b2c3d4e5f6a7b8c9d0e1f2a3b4c5d6e7e,
   0x1f8a9b0c1d2e3f4a5b6c7d8e9f0a1b2c3d4e5f6a7b8c9d0e1f2a3b4c5d6e7f8f,
   0x2a9b0c1d2e3f4a5b6c7d8e9f0a1b2c3d4e5f6a7b8c9d0e1f2a3b4c5d6e7f8a90,
   0xb0c1d2e3f4a5b6c7d8e9f0a1b2c3d4e5f6a7b8c9d0e1f2a3b4c5d6e7f8a9b01,
   0x1c1d2e3f4a5b6c7d8e9f0a1b2c3d4e5f6a7b8c9d0e1f2a3b4c5d6e7f8a9b0c12,
   0x2d2e3f4a5b6c7d8e9f0a1b2c3d4e5f6a7b8c9d0e1f2a3b4c5d6e7f8a9b0c1d23,
   0xe3f4a5b6c7d8e9f0a1b2c3d4e5f6a7b8c9d0e1f2a3b4c5d6e7f8a9b0c1d2e34]"

definition full_rc_last :: "u256x3 list" where
  "full_rc_last =
  [(0x2a3c4b4e8a85c73ab72f434436ac13b24e72e9c3affa7d9a1ae3f9437bec1a30,
    0x14c462ddcd20ee7270b568f6fa18de39b20a3e5e9e113a5dbaf06e3ac3740e87,
    0x2ed5f0c2e5c21db56ded40ab1dfc01c00015b42de8eac7b02bf4369aa67cdef3),
   (0x1db77fd6dc7e6ecd8bb6beb7e0f4ac2e63756cd0caa6f1ce3bddd41ecb8a7f4b,
    0x12b16a15f89fbb8b44b7dc1f3c4e26f7632d74f5ec4680ec40acf1a0cc4a3564,
    0x26c7b01d4cf0a0466c85e06929d38c9af224ed7e0e3a40e08c5b96eb1ad9a0f3),
   (0xeedab92c2ecc86f52cc18c3cac2fd7e5a3ce5c5e38ad481a0b2c214f2d5a47c,
    0x23e5cd4b30fb42e4c2e86143fbe3de7ed95d8f9a459e2c2d3ad7b9bea651c7d7,
    0x2b4a3ef3e127d9af8f3a8dd6547ddbff086e64d6db62cf6fb674e7a9f8e7be3),
   (0x1eb9b4e7e3c75b1f9e4c2ed4b7f0ced37c0aef3db4a1d7e5b3c0f38a6c12d045,
    0x2d8a2c4c2e5f67c1b0d89a34e5fc7db3a4c5b6e2f1a3d9e8b7c5a6f3d1e2b4a8,
    0xf3e29c4b7a8d1e5f2c6b3a9d8e7f5c4b1a6d3e2f9c8b7a5d4e3f1c2b6a9d8e7)]"

text \<open>The bodies of the loops over the full and over the partial rounds.\<close>

definition full_round :: "u256x3 \<Rightarrow> u256x3 \<Rightarrow> u256x3" where
  "full_round round_rc state = (case (round_rc, state) of ((c0, c1, c2), (s0, s1, s2)) \<Rightarrow>
     let m = BN254_MODULUS in
     mds (sbox (u256_addmod s0 c0 m), sbox (u256_addmod s1 c1 m), sbox (u256_addmod s2 c2 m)))"

definition partial_round :: "u256 \<Rightarrow> u256x3 \<Rightarrow> u256x3" where
  "partial_round rc0 state = (case state of (s0, s1, s2) \<Rightarrow>
     let m = BN254_MODULUS; rc = rc0 mod m in
     mds (sbox (u256_addmod s0 rc m), s1, s2))"

definition poseidon_hash :: "h256 \<Rightarrow> h256 \<Rightarrow> h256" where
  "poseidon_hash left right =
     (let m = BN254_MODULUS;
          l = left mod m;
          r = right mod m;
          state = (0, l, r);
          state = fold full_round full_rc_first state;
          state = fold partial_round partial_rc state;
          state = fold full_round full_rc_last state
      in fst state)"

primrec zero_hash :: "nat \<Rightarrow> h256" where
  "zero_hash 0 = 0"
| "zero_hash (Suc level) = (let z = zero_hash level in poseidon_hash z z)"

section \<open>Field operations\<close>

lemma BN254_MODULUS_val:
  "BN254_MODULUS = 0x3c208c16d87cfd4797816a916871ca8db85045b68181585d30644e72e131a029"
  by (simp add: BN254_MODULUS_def)

lemma modulus_pos: "0 < unat BN254_MODULUS" and modulus_nz: "BN254_MODULUS \<noteq> 0"
  by (simp_all add: BN254_MODULUS_val)

lemma unat_addmod: "m \<noteq> 0 \<Longrightarrow> unat (u256_addmod a b m) = (unat a + unat b) mod unat m"
  unfolding u256_addmod_def Let_def
  by (subst unat_narrow) (unfold unat_wide_addmod, erule mod_u256_less, rule refl)

lemma unat_mulmod: "m \<noteq> 0 \<Longrightarrow> unat (u256_mulmod a b m) = unat a * unat b mod unat m"
  unfolding u256_mulmod_def Let_def
  by (subst unat_narrow) (unfold unat_wide_mulmod, erule mod_u256_less, rule refl)

lemma unat_sbox: "unat (sbox x) = pow5 (unat BN254_MODULUS) (unat x)"
  by (simp add: sbox_def Let_def unat_mulmod modulus_nz pow5_steps)

definition unat3 :: "u256x3 \<Rightarrow> nat3" where
  "unat3 s = (case s of (x, y, w) \<Rightarrow> (unat x, unat y, unat w))"

lemma unat_mds: "unat3 (mds s) = mix (unat BN254_MODULUS) (unat3 s)"
  by (cases s) (simp only: mds_def Let_def unat3_def mix_def unat_addmod unat_mulmod
      modulus_nz not_False_eq_True dot_steps mds_defs unat_numeral_simps prod.case)

lemma unat_full_round:
  "unat3 (full_round rc s) = full_round_spec (unat BN254_MODULUS) (unat3 rc) (unat3 s)"
  by (cases rc; cases s)
    (simp add: full_round_def unat_mds, simp add: unat3_def unat_sbox unat_addmod modulus_nz pow5_mod)

lemma unat_partial_round:
  "unat3 (partial_round rc s) = partial_round_spec (unat BN254_MODULUS) (unat rc) (unat3 s)"
proof (cases s)
  case (fields x y w)
  have "pow5 (unat BN254_MODULUS) (unat x + unat rc mod unat BN254_MODULUS)
          = pow5 (unat BN254_MODULUS) (unat x + unat rc)"
    by (metis mod_add_right_eq pow5_mod)
  then show ?thesis
    by (simp add: fields partial_round_def unat_mds)
      (simp add: unat3_def unat_sbox unat_addmod modulus_nz pow5_mod unat_mod_distrib)
qed

lemma unat_fold:
  assumes "\<And>r s. unat3 (f r s) = g (h r) (unat3 s)"
  shows "unat3 (fold f rs s) = fold g (map h rs) (unat3 s)"
  by (induction rs arbitrary: s) (auto simp: assms)

lemma unat_constants:
  "map unat3 full_rc_first = rc_first" "map unat partial_rc = rc_partial"
  "map unat3 full_rc_last = rc_last"
  unfolding full_rc_first_def rc_first_def partial_rc_def rc_partial_def full_rc_last_def
    rc_last_def unat3_def list.map prod.case
  by (simp_all only: unat_numeral_simps)

lemma unat_poseidon_hash:
  "unat (poseidon_hash l r) = poseidon_spec (unat BN254_MODULUS) (unat l) (unat r)"
proof -
  let ?s = "(0, l mod BN254_MODULUS, r mod BN254_MODULUS) :: u256x3"
  have "unat (fst s) = fst (unat3 s)" for s
    by (cases s) (simp add: unat3_def)
  moreover have "unat3 ?s = (0, unat l mod unat BN254_MODULUS, unat r mod unat BN254_MODULUS)"
    by (simp add: unat3_def unat_mod_distrib)
  ultimately show ?thesis
    by (simp add: poseidon_hash_def poseidon_spec_def permute_spec_def unat_constants
        unat_fold [of full_round _ unat3, OF unat_full_round]
        unat_fold [of partial_round _ unat, OF unat_partial_round])
qed

lemma zero_hash_zeros: "zero_hash level = zeros poseidon_hash 0 level"
  by (induction level) (auto simp: Let_def)

text \<open>
  C7: the pallet's hash, computed on 256-bit integers through 512-bit products, is the Poseidon
  permutation over the integers modulo the constant \<open>BN254_MODULUS\<close>: no step overflows or loses
  bits, and every digest is below the modulus.
\<close>

theorem pallet_poseidon_refines_spec:
  "unat (poseidon_hash l r) = poseidon_spec (unat BN254_MODULUS) (unat l) (unat r) \<and>
   unat (poseidon_hash l r) < unat BN254_MODULUS"
  using poseidon_spec_less [OF modulus_pos] by (simp add: unat_poseidon_hash)

text \<open>
  The constant \<open>BN254_MODULUS\<close> is not the BN254 scalar field modulus the comment states: its limbs
  are listed most significant first where the type takes the least significant first, and the
  resulting number is larger, so the scalar modulus itself is hashed as a non-zero input.
\<close>

lemma pallet_modulus_is_not_scalar_field:
  "unat BN254_MODULUS \<noteq> bn254_scalar \<and> bn254_scalar < unat BN254_MODULUS \<and>
   bn254_scalar mod unat BN254_MODULUS \<noteq> 0"
proof -
  have "unat BN254_MODULUS = 0x3c208c16d87cfd4797816a916871ca8db85045b68181585d30644e72e131a029"
    unfolding BN254_MODULUS_val by (rule unat_numeral_256) simp
  then show ?thesis by (simp add: bn254_scalar_def)
qed

end
