(* ===== verification/Pallet_Verifier.thy ===== *)
theory Pallet_Verifier
  imports Pool_Prelude
begin

text \<open>
  The proof verifier of the Substrate pallet (\<open>pallets/privacy-pool/src/verifier.rs\<close>) and the
  public inputs of \<open>types.rs\<close>. The digest \<open>blake2_256\<close> is the runtime's own and is an argument
  of the definitions. A proof is its list of bytes, a pair is an array of two.
\<close>

record TransferPublicInputs =
  merkle_root :: h256
  nullifiers :: "h256 \<times> h256"
  output_commitments :: "h256 \<times> h256"
  domain_chain_id :: nat
  domain_app_id :: nat

record WithdrawPublicInputs =
  w_merkle_root :: h256
  w_nullifiers :: "h256 \<times> h256"
  w_output_commitments :: "h256 \<times> h256"
  exit_value :: nat

definition MIN_PROOF_SIZE :: nat where "MIN_PROOF_SIZE = 192"

definition MAX_PROOF_SIZE :: nat where "MAX_PROOF_SIZE = 4096"

definition PROOF_ALIGNMENT :: nat where "PROOF_ALIGNMENT = 32"

definition TESTNET_ONLY :: bool where "TESTNET_ONLY = True"

definition is_mainnet_chain :: "nat \<Rightarrow> bool" where
  "is_mainnet_chain chain_id \<longleftrightarrow> chain_id \<in> {0, 1284, 592, 43114, 9001}"

definition encode_transfer_inputs :: "TransferPublicInputs \<Rightarrow> u8 list" where
  "encode_transfer_inputs inputs =
     h256_bytes (merkle_root inputs) @
     h256_bytes (fst (nullifiers inputs)) @ h256_bytes (snd (nullifiers inputs)) @
     h256_bytes (fst (output_commitments inputs)) @ h256_bytes (snd (output_commitments inputs)) @
     be_bytes 8 (domain_chain_id inputs) @ be_bytes 8 (domain_app_id inputs)"

definition encode_withdraw_inputs :: "WithdrawPublicInputs \<Rightarrow> u8 list" where
  "encode_withdraw_inputs inputs =
     h256_bytes (w_merkle_root inputs) @
     h256_bytes (fst (w_nullifiers inputs)) @ h256_bytes (snd (w_nullifiers inputs)) @
     be_bytes 16 (exit_value inputs)"

definition bind_tag :: "u8 list" where "bind_tag = as_bytes ''Halo2-IPA-bind''"

definition verify_halo2_ipa_proof :: "(u8 list \<Rightarrow> h256) \<Rightarrow> u8 list \<Rightarrow> u8 list \<Rightarrow> bool" where
  "verify_halo2_ipa_proof blake2_256 proof public_input_bytes =
     (if length proof < 192 then False
      else
        let binding = take 32 proof;
            body = drop 32 proof;
            ipa_rounds = drop 96 body
        in if length ipa_rounds mod 64 \<noteq> 0 then False
           else
             let num_rounds = length ipa_rounds div 64
             in if num_rounds = 0 \<or> num_rounds > 32 then False
                else
                  let transcript = bind_tag @ public_input_bytes @ body
                  in binding = h256_bytes (blake2_256 transcript))"

definition verify_transfer :: "(u8 list \<Rightarrow> h256) \<Rightarrow> u8 list \<Rightarrow> TransferPublicInputs \<Rightarrow> bool" where
  "verify_transfer blake2_256 proof public_inputs =
     (if TESTNET_ONLY \<and> is_mainnet_chain (domain_chain_id public_inputs) then False
      else if length proof < MIN_PROOF_SIZE \<or> length proof > MAX_PROOF_SIZE then False
      else if length proof mod PROOF_ALIGNMENT \<noteq> 0 then False
      else if list_all (\<lambda>b. b = 0) proof then False
      else if merkle_root public_inputs = 0 then False
      else if fst (nullifiers public_inputs) = snd (nullifiers public_inputs) then False
      else if fst (nullifiers public_inputs) = 0 \<or> snd (nullifiers public_inputs) = 0 then False
      else if fst (output_commitments public_inputs) = 0 \<or> snd (output_commitments public_inputs) = 0
        then False
      else if fst (output_commitments public_inputs) = snd (output_commitments public_inputs) then False
      else if domain_chain_id public_inputs = 0 \<or> domain_app_id public_inputs = 0 then False
      else verify_halo2_ipa_proof blake2_256 proof (encode_transfer_inputs public_inputs))"

definition verify_withdraw :: "(u8 list \<Rightarrow> h256) \<Rightarrow> u8 list \<Rightarrow> WithdrawPublicInputs \<Rightarrow> bool" where
  "verify_withdraw blake2_256 proof public_inputs =
     (if length proof < MIN_PROOF_SIZE \<or> length proof > MAX_PROOF_SIZE then False
      else if length proof mod PROOF_ALIGNMENT \<noteq> 0 then False
      else if list_all (\<lambda>b. b = 0) proof then False
      else if w_merkle_root public_inputs = 0 then False
      else if fst (w_nullifiers public_inputs) = snd (w_nullifiers public_inputs) then False
      else if fst (w_nullifiers public_inputs) = 0 \<or> snd (w_nullifiers public_inputs) = 0 then False
      else if exit_value public_inputs = 0 then False
      else verify_halo2_ipa_proof blake2_256 proof (encode_withdraw_inputs public_inputs))"

section \<open>What is accepted\<close>

lemmas size_defs = MIN_PROOF_SIZE_def MAX_PROOF_SIZE_def PROOF_ALIGNMENT_def

text \<open>The lengths the envelope check leaves: header, opening and one to 32 rounds of 64 bytes.\<close>

definition envelope_length :: "nat \<Rightarrow> bool" where
  "envelope_length n \<longleftrightarrow> (\<exists>r\<in>{1..32}. n = 128 + 64 * r)"

lemma envelope_length_iff:
  "envelope_length n \<longleftrightarrow>
     192 \<le> n \<and> (n - 128) mod 64 = 0 \<and> (n - 128) div 64 \<noteq> 0 \<and> (n - 128) div 64 \<le> 32"
proof
  assume r: "192 \<le> n \<and> (n - 128) mod 64 = 0 \<and> (n - 128) div 64 \<noteq> 0 \<and> (n - 128) div 64 \<le> 32"
  then have "n = 128 + 64 * ((n - 128) div 64)"
    using mult_div_mod_eq [of 64 "n - 128"] by linarith
  with r show "envelope_length n"
    unfolding envelope_length_def by (intro bexI [of _ "(n - 128) div 64"]) auto
qed (auto simp: envelope_length_def)

lemma envelope_length_bounds:
  assumes "envelope_length n"
  shows "192 \<le> n" "n \<le> 2176" "n mod 32 = 0"
  using assms by (auto simp: envelope_length_def)

lemma verify_halo2_iff:
  "verify_halo2_ipa_proof blake2_256 proof pub \<longleftrightarrow> envelope_length (length proof) \<and>
     take 32 proof = h256_bytes (blake2_256 (bind_tag @ pub @ drop 32 proof))"
  unfolding envelope_length_iff verify_halo2_ipa_proof_def Let_def by auto

lemma verify_halo2_binding:
  assumes "verify_halo2_ipa_proof blake2_256 proof a" and "verify_halo2_ipa_proof blake2_256 proof b"
  shows "blake2_256 (bind_tag @ a @ drop 32 proof) = blake2_256 (bind_tag @ b @ drop 32 proof)"
  using assms unfolding verify_halo2_iff by (metis h256_bytes_inj)

lemma length_encode [simp, bytes_simps]:
  "length (encode_transfer_inputs i) = 176" "length (encode_withdraw_inputs j) = 112"
  by (simp_all add: encode_transfer_inputs_def encode_withdraw_inputs_def)

lemma encode_transfer_inputs_inj:
  assumes "encode_transfer_inputs i = encode_transfer_inputs j"
    and "domain_chain_id i < 2 ^ 32" "domain_chain_id j < 2 ^ 32"
    and "domain_app_id i < 2 ^ 32" "domain_app_id j < 2 ^ 32"
  shows "i = j"
proof -
  have "domain_chain_id i = domain_chain_id j" "domain_app_id i = domain_app_id j"
    using assms be_bytes_eq_iff [of "domain_chain_id i" 8 "domain_chain_id j"]
      be_bytes_eq_iff [of "domain_app_id i" 8 "domain_app_id j"]
    by (simp_all add: encode_transfer_inputs_def)
  with assms(1) show ?thesis
    by (simp add: encode_transfer_inputs_def prod_eq_iff)
qed

text \<open>
  C8: the verifier accepts a transfer exactly when the envelope has one to 32 rounds (so at most 2176
  bytes, well below the declared maximum of 4096), is not all zero, the root, the nullifiers and
  the outputs are non-zero, the two nullifiers and the two outputs differ, the domain is set and
  not a mainnet identifier, and the first 32 bytes are the digest of the tag, the inputs and the
  rest. This is the code as it is compiled, with \<open>TESTNET_ONLY = true\<close>: a transfer for one of the mainnets is refused
  whatever its proof. The test \<open>test_mainnet_chain_id_accepted_when_testnet_only_disabled\<close> takes the constant to
  be false and asserts that 1284 is accepted.
\<close>

theorem verify_transfer_exactly:
  "verify_transfer blake2_256 proof i \<longleftrightarrow>
     envelope_length (length proof) \<and> (\<exists>b\<in>set proof. b \<noteq> 0) \<and>
     merkle_root i \<noteq> 0 \<and>
     distinct [0, fst (nullifiers i), snd (nullifiers i)] \<and>
     distinct [0, fst (output_commitments i), snd (output_commitments i)] \<and>
     domain_app_id i \<noteq> 0 \<and> domain_chain_id i \<notin> {0, 592, 1284, 9001, 43114} \<and>
     take 32 proof =
       h256_bytes (blake2_256 (as_bytes ''Halo2-IPA-bind'' @ encode_transfer_inputs i @ drop 32 proof))"
proof -
  have "envelope_length (length proof) \<Longrightarrow>
          192 \<le> length proof \<and> length proof \<le> 4096 \<and> length proof mod 32 = 0"
    using envelope_length_bounds [of "length proof"] by simp
  then show ?thesis
    unfolding verify_transfer_def verify_halo2_iff TESTNET_ONLY_def is_mainnet_chain_def size_defs
      bind_tag_def list_all_iff
    by (auto simp del: mod_eq_0_iff_dvd)
qed

text \<open>
  C9: replay is detected: if one transfer envelope is accepted for two different sets of public
  inputs (with 32-bit domain identifiers), then the two transcripts, which differ, have the same
  digest: the envelope is itself a collision of the digest.
\<close>

theorem transfer_proof_binds_inputs:
  assumes "verify_transfer blake2_256 proof i" and "verify_transfer blake2_256 proof j" and "i \<noteq> j"
    and "domain_chain_id i < 2 ^ 32" "domain_chain_id j < 2 ^ 32"
    and "domain_app_id i < 2 ^ 32" "domain_app_id j < 2 ^ 32"
  shows "let x = bind_tag @ encode_transfer_inputs i @ drop 32 proof;
             y = bind_tag @ encode_transfer_inputs j @ drop 32 proof
         in x \<noteq> y \<and> blake2_256 x = blake2_256 y"
proof -
  have "verify_halo2_ipa_proof blake2_256 proof (encode_transfer_inputs i)"
    "verify_halo2_ipa_proof blake2_256 proof (encode_transfer_inputs j)"
    using assms(1,2) by (auto simp: verify_transfer_def split: if_splits)
  from verify_halo2_binding [OF this] encode_transfer_inputs_inj [OF _ assms(4-7)] assms(3)
  show ?thesis by auto
qed

theorem transfer_proof_binds_inputs_witness:
  "let i = \<lparr>merkle_root = 1, nullifiers = (2, 3), output_commitments = (4, 5),
            domain_chain_id = 2000, domain_app_id = 1\<rparr>;
       j = i\<lparr>domain_app_id := 2\<rparr>;
       proof = replicate 32 0 @ replicate 160 1
   in verify_transfer (\<lambda>_. 0) proof i \<and> verify_transfer (\<lambda>_. 0) proof j \<and>
      bind_tag @ encode_transfer_inputs i @ drop 32 proof
        \<noteq> bind_tag @ encode_transfer_inputs j @ drop 32 proof"
proof -
  let ?i = "\<lparr>merkle_root = 1, nullifiers = (2, 3), output_commitments = (4, 5),
             domain_chain_id = 2000, domain_app_id = 1\<rparr>"
  let ?j = "?i\<lparr>domain_app_id := 2\<rparr>" and ?p = "replicate 32 0 @ replicate 160 1"
  have v: "verify_transfer (\<lambda>_. 0) ?p ?i" "verify_transfer (\<lambda>_. 0) ?p ?j"
    by (simp_all add: verify_transfer_def TESTNET_ONLY_def is_mainnet_chain_def size_defs
        verify_halo2_ipa_proof_def h256_bytes_0 list_all_iff)
  with transfer_proof_binds_inputs [OF v] show ?thesis by (simp add: Let_def)
qed

text \<open>
  A withdrawal proof does not commit to the change notes: the verifier gives the same answer for
  any two pairs of output commitments.
\<close>

lemma withdraw_proof_ignores_outputs:
  "verify_withdraw blake2_256 proof (i\<lparr>w_output_commitments := cs\<rparr>)
     = verify_withdraw blake2_256 proof i"
  by (simp add: verify_withdraw_def encode_withdraw_inputs_def)

end
