(* ===== verification/Nullifier_Ledger.thy ===== *)
theory Nullifier_Ledger
  imports Pool_Prelude
begin

text \<open>
  The interface of a nullifier set, shared by the four pools: a call names the nullifiers it
  spends, goes through only if they are all fresh, and then marks exactly them. The lemmas proved
  from it hold for every sequence of calls. A second interface adds the epochs: every spent
  nullifier is also appended to the list of the epoch that is open.
\<close>

section \<open>No double spend\<close>

locale nullifier_ledger =
  fixes step :: "'s \<Rightarrow> 'c \<Rightarrow> ('e, 's) result"
    and spent :: "'s \<Rightarrow> 'n \<Rightarrow> bool"
    and nulls :: "'c \<Rightarrow> 'n list"
  assumes step_fresh: "step s c = Ok s' \<Longrightarrow> n \<in> set (nulls c) \<Longrightarrow> \<not> spent s n"
    and step_distinct: "step s c = Ok s' \<Longrightarrow> distinct (nulls c)"
    and step_marks: "step s c = Ok s' \<Longrightarrow> spent s' n \<longleftrightarrow> spent s n \<or> n \<in> set (nulls c)"
begin

lemma spent_run:
  "spent (run step s cs) n \<longleftrightarrow> spent s n \<or> (\<exists>c\<in>set (committed step s cs). n \<in> set (nulls c))"
proof (induction cs arbitrary: s)
  case (Cons c cs)
  show ?case
    using Cons.IH step_marks by (cases rule: commit_cases [of step s c]) (auto simp: is_Ok_iff)
qed simp

lemma spent_stays: "spent s n \<Longrightarrow> spent (run step s cs) n"
  by (simp add: spent_run)

lemma no_double_spend:
  "distinct (concat (map nulls (committed step s cs))) \<and>
   (\<forall>n\<in>set (concat (map nulls (committed step s cs))). \<not> spent s n)"
proof (induction cs arbitrary: s)
  case (Cons c cs)
  show ?case
  proof (cases "step s c")
    case (Ok s')
    then have "committed step s (c # cs) = c # committed step s' cs"
      by (simp add: is_Ok_def commit_def)
    with Ok Cons.IH [of s'] step_fresh [OF Ok] step_distinct [OF Ok] step_marks [OF Ok]
    show ?thesis by auto
  qed (use Cons.IH in \<open>auto simp: is_Ok_def\<close>)
qed simp

lemma replay_rejected:
  assumes "c \<in> set (committed step s cs)" and "n \<in> set (nulls c)" and "n \<in> set (nulls c')"
  shows "\<not> is_Ok (step (run step s cs) c')"
  using assms step_fresh spent_run by (fastforce simp: is_Ok_iff)

end

section \<open>Epochs\<close>

locale epoch_ledger = nullifier_ledger +
  fixes cur :: "'a \<Rightarrow> nat"
    and epoch_nulls :: "'a \<Rightarrow> nat \<Rightarrow> 'd list"
  assumes step_appends: "step s c = Ok s' \<Longrightarrow> epoch_nulls s' (cur s) = epoch_nulls s (cur s) @ nulls c"
    and step_closed: "step s c = Ok s' \<Longrightarrow> e < cur s \<Longrightarrow> epoch_nulls s' e = epoch_nulls s e"
    and step_future: "step s c = Ok s' \<Longrightarrow> cur s < e \<Longrightarrow>
      epoch_nulls s' e = epoch_nulls s e \<or> epoch_nulls s' e = []"
    and step_cur: "step s c = Ok s' \<Longrightarrow> cur s' = cur s \<or> cur s' = Suc (cur s)"
begin

lemma run_cur_mono: "cur s \<le> cur (run step s cs)"
proof (induction cs arbitrary: s)
  case (Cons c cs)
  have "cur s \<le> cur (commit step s c)"
    using step_cur [of s c] by (cases rule: commit_cases [of step s c]) auto
  also have "\<dots> \<le> cur (run step (commit step s c) cs)" by (rule Cons.IH)
  finally show ?case by simp
qed simp

lemma closed_epoch_fixed: "e < cur s \<Longrightarrow> epoch_nulls (run step s cs) e = epoch_nulls s e"
proof (induction cs arbitrary: s)
  case (Cons c cs)
  have "e < cur (commit step s c)"
    using Cons.prems step_cur [of s c] by (cases rule: commit_cases [of step s c]) auto
  moreover have "epoch_nulls (commit step s c) e = epoch_nulls s e"
    using Cons.prems step_closed [of s c] by (cases rule: commit_cases [of step s c]) auto
  ultimately show ?case using Cons.IH by simp
qed simp

definition log_upto :: "'a \<Rightarrow> 'd list" where
  "log_upto s = concat (map (epoch_nulls s) [0..<Suc (cur s)])"

definition open_epochs_empty :: "'a \<Rightarrow> bool" where
  "open_epochs_empty s \<longleftrightarrow> (\<forall>e>cur s. epoch_nulls s e = [])"

lemma step_log:
  assumes "step s c = Ok s'" and "open_epochs_empty s"
  shows "open_epochs_empty s' \<and> log_upto s' = log_upto s @ nulls c"
proof -
  have eq: "map (epoch_nulls s') [0..<cur s] = map (epoch_nulls s) [0..<cur s]"
    by (rule map_cong [OF refl]) (simp add: step_closed [OF assms(1)])
  have fut: "epoch_nulls s' e = []" if "cur s < e" for e
    using step_future [OF assms(1) that] assms(2) that by (auto simp: open_epochs_empty_def)
  show ?thesis
    using step_cur [OF assms(1)] fut
    by (auto simp: log_upto_def open_epochs_empty_def eq step_appends [OF assms(1)] simp del: map_eq_conv)
qed

lemma run_log:
  assumes "open_epochs_empty s"
  shows "log_upto (run step s cs) = log_upto s @ concat (map nulls (committed step s cs))"
  using assms
proof (induction cs arbitrary: s)
  case (Cons c cs)
  show ?case
  proof (cases "step s c")
    case (Ok s')
    with Cons.IH [of s'] step_log [OF Ok Cons.prems] show ?thesis
      by (simp add: commit_def is_Ok_def)
  qed (use Cons in \<open>auto simp: commit_def is_Ok_def\<close>)
qed simp

lemma epochs_partition:
  assumes "\<And>e. epoch_nulls s e = []"
  shows "concat (map (epoch_nulls (run step s cs)) [0..<Suc (cur (run step s cs))])
           = concat (map nulls (committed step s cs))"
  using run_log [of s cs] assms by (simp add: log_upto_def open_epochs_empty_def)

end

end
