(* ===== verification/Pallet_Pool.thy ===== *)
theory Pallet_Pool
  imports Pallet_Poseidon Pallet_Verifier Nullifier_Ledger
begin

text \<open>
  The privacy pool pallet (\<open>pallets/privacy-pool/src/lib.rs\<close>): its storage as a record, its five
  dispatchables and the internal helpers, in the order of the code. The runtime around it is a
  parameter: the digest, the account of the pallet and \<open>Currency::transfer\<close>. A dispatchable takes
  the origin, its arguments and the storage and returns the new storage, an error, or a panic.
\<close>

named_theorems pallet_defs \<open>dispatchables of the pallet\<close>

section \<open>Storage, events and errors\<close>

record EpochInfo =
  start_block :: nat
  end_block :: "nat option"
  nullifier_root :: h256
  nullifier_count :: nat
  finalized :: bool

datatype 'a Event =
    Deposited h256 nat nat
  | Transferred h256 h256 h256 h256 h256
  | Withdrawn h256 h256 'a nat h256
  | EpochFinalized nat h256 nat
  | RemoteEpochRootReceived nat nat h256

datatype Error =
    BadOrigin | ZeroDeposit | CommitmentAlreadyExists | TreeFull | InvalidProof
  | NullifierAlreadySpent | UnknownMerkleRoot | InsufficientPoolBalance | ZeroWithdrawal
  | EpochNotReady | EpochAlreadyFinalized | EpochNullifierOverflow | TransferFailed
  | NotAuthorized | InvalidNullifierRoot

datatype 'a Origin = Root | Signed 'a | NoOrigin

record Config =
  TreeDepth :: nat
  EpochDuration :: nat
  MaxNullifiersPerEpoch :: nat
  RootHistorySize :: nat
  ParaId :: nat
  AppId :: nat

datatype ExistenceRequirement = KeepAlive | AllowDeath

record ('a, 'l) Runtime =
  blake2_256 :: "u8 list \<Rightarrow> h256"
  pool_account :: 'a
  currency_transfer :: "'a \<Rightarrow> 'a \<Rightarrow> nat \<Rightarrow> ExistenceRequirement \<Rightarrow> 'l \<Rightarrow> 'l option"

text \<open>The pallet's storage, with the balances and the block number of the surrounding runtime.\<close>

record ('a, 'l) Storage =
  NextLeafIndex :: nat
  FilledSubtrees :: "nat \<rightharpoonup> h256"
  Roots :: "nat \<rightharpoonup> h256"
  CurrentRootIndex :: nat
  NullifierSpent :: "h256 \<rightharpoonup> bool"
  CommitmentExists :: "h256 \<rightharpoonup> bool"
  PoolBalance :: nat
  CurrentEpochId :: nat
  Epochs :: "nat \<rightharpoonup> EpochInfo"
  EpochNullifiers :: "nat \<rightharpoonup> h256 list"
  RemoteEpochRoots :: "nat \<times> nat \<rightharpoonup> h256"
  ledger :: 'l
  block_number :: nat
  events :: "'a Event list"

definition deposit_event :: "'a Event \<Rightarrow> ('a, 'l) Storage \<Rightarrow> ('a, 'l) Storage" where
  "deposit_event e s = s\<lparr>events := events s @ [e]\<rparr>"

definition ensure_signed :: "'a Origin \<Rightarrow> (Error, 'a) result" where
  "ensure_signed o' = (case o' of Signed who \<Rightarrow> Ok who | _ \<Rightarrow> Err BadOrigin)"

definition ensure_root :: "'a Origin \<Rightarrow> (Error, unit) result" where
  "ensure_root o' = (case o' of Root \<Rightarrow> Ok () | _ \<Rightarrow> Err BadOrigin)"

section \<open>Genesis\<close>

fun genesis_subtrees :: "nat \<Rightarrow> nat \<Rightarrow> h256 \<Rightarrow> (nat \<rightharpoonup> h256) \<Rightarrow> (nat \<rightharpoonup> h256) \<times> h256" where
  "genesis_subtrees level 0 current_zero fs = (fs, current_zero)"
| "genesis_subtrees level (Suc k) current_zero fs =
     genesis_subtrees (Suc level) k (poseidon_hash current_zero current_zero) (fs(level \<mapsto> current_zero))"

definition genesis :: "Config \<Rightarrow> 'l \<Rightarrow> ('a, 'l) Storage" where
  "genesis cfg l =
     (let (fs, root) = genesis_subtrees 0 (TreeDepth cfg) 0 Map.empty
      in \<lparr>NextLeafIndex = 0, FilledSubtrees = fs, Roots = [0 \<mapsto> root], CurrentRootIndex = 0,
          NullifierSpent = Map.empty, CommitmentExists = Map.empty, PoolBalance = 0,
          CurrentEpochId = 0,
          Epochs = [0 \<mapsto> \<lparr>start_block = 0, end_block = None, nullifier_root = 0,
                          nullifier_count = 0, finalized = False\<rparr>],
          EpochNullifiers = Map.empty, RemoteEpochRoots = Map.empty, ledger = l,
          block_number = 0, events = []\<rparr>)"

section \<open>Internal helpers\<close>

fun insert_levels :: "nat \<Rightarrow> nat \<Rightarrow> nat \<Rightarrow> h256 \<Rightarrow> (nat \<rightharpoonup> h256) \<Rightarrow> (nat \<rightharpoonup> h256) \<times> h256" where
  "insert_levels level 0 current_index current_hash fs = (fs, current_hash)"
| "insert_levels level (Suc k) current_index current_hash fs =
     (let (left, right, fs) =
        (if current_index mod 2 = 0
         then (current_hash, zero_hash level, fs(level \<mapsto> current_hash))
         else (get 0 fs level, current_hash, fs))
      in insert_levels (Suc level) k (current_index div 2) (poseidon_hash left right) fs)"

definition insert_leaf ::
  "Config \<Rightarrow> h256 \<Rightarrow> ('a, 'l) Storage \<Rightarrow> (Error, nat \<times> ('a, 'l) Storage) result" where
  "insert_leaf cfg leaf s =
     (let next_index = NextLeafIndex s in
      bind_result (upow 64 2 (TreeDepth cfg)) (\<lambda>max_leaves.
      bind_result (ensure (next_index < max_leaves) TreeFull) (\<lambda>_.
      let (fs, current_hash) = insert_levels 0 (TreeDepth cfg) next_index leaf (FilledSubtrees s) in
      bind_result (uadd 32 (CurrentRootIndex s) 1) (\<lambda>c.
      bind_result (urem c (RootHistorySize cfg)) (\<lambda>new_root_index.
      bind_result (uadd 64 next_index 1) (\<lambda>n.
      Ok (next_index,
          s\<lparr>FilledSubtrees := fs, Roots := (Roots s)(new_root_index \<mapsto> current_hash),
            CurrentRootIndex := new_root_index, NextLeafIndex := n\<rparr>)))))))"

fun scan_roots :: "(nat \<rightharpoonup> h256) \<Rightarrow> nat \<Rightarrow> h256 \<Rightarrow> nat \<Rightarrow> nat \<Rightarrow> bool" where
  "scan_roots roots history_size root idx 0 = False"
| "scan_roots roots history_size root idx (Suc k) =
     (if get 0 roots idx = root then True
      else scan_roots roots history_size root (if idx = 0 then history_size - 1 else idx - 1) k)"

definition is_known_root :: "Config \<Rightarrow> h256 \<Rightarrow> ('a, 'l) Storage \<Rightarrow> bool" where
  "is_known_root cfg root s =
     (if root = 0 then False
      else scan_roots (Roots s) (RootHistorySize cfg) root (CurrentRootIndex s) (RootHistorySize cfg))"

definition get_latest_root :: "('a, 'l) Storage \<Rightarrow> h256" where
  "get_latest_root s = get 0 (Roots s) (CurrentRootIndex s)"

text \<open>One iteration of the loop over the nullifiers; \<open>try_push\<close> fails on a full list.\<close>

definition spend_nullifier ::
  "Config \<Rightarrow> h256 \<Rightarrow> ('a, 'l) Storage \<Rightarrow> (Error, ('a, 'l) Storage) result" where
  "spend_nullifier cfg nullifier s =
     bind_result (ensure (\<not> get False (NullifierSpent s) nullifier) NullifierAlreadySpent) (\<lambda>_.
     let s = s\<lparr>NullifierSpent := (NullifierSpent s)(nullifier \<mapsto> True)\<rparr>;
         epoch_id = CurrentEpochId s;
         nuls = get [] (EpochNullifiers s) epoch_id in
     bind_result (ensure (length nuls < MaxNullifiersPerEpoch cfg) EpochNullifierOverflow) (\<lambda>_.
     Ok (s\<lparr>EpochNullifiers := (EpochNullifiers s)(epoch_id \<mapsto> nuls @ [nullifier])\<rparr>)))"

definition check_and_spend_nullifiers ::
  "Config \<Rightarrow> h256 \<times> h256 \<Rightarrow> ('a, 'l) Storage \<Rightarrow> (Error, ('a, 'l) Storage) result" where
  "check_and_spend_nullifiers cfg nuls s =
     bind_result (spend_nullifier cfg (fst nuls) s) (spend_nullifier cfg (snd nuls))"

definition compute_nullifier_root :: "h256 list \<Rightarrow> h256" where
  "compute_nullifier_root nuls =
     (case nuls of [] \<Rightarrow> 0 | n # ns \<Rightarrow> foldl (\<lambda>current nul. poseidon_hash current nul) n ns)"

section \<open>Dispatchables\<close>

definition deposit ::
  "Config \<Rightarrow> ('a, 'l) Runtime \<Rightarrow> 'a Origin \<Rightarrow> h256 \<Rightarrow> nat \<Rightarrow> ('a, 'l) Storage
     \<Rightarrow> (Error, ('a, 'l) Storage) result" where
  "deposit cfg rt origin commitment amount s =
     bind_result (ensure_signed origin) (\<lambda>who.
     bind_result (ensure (amount > 0) ZeroDeposit) (\<lambda>_.
     bind_result (ensure (\<not> get False (CommitmentExists s) commitment) CommitmentAlreadyExists) (\<lambda>_.
     bind_result (of_option TransferFailed
       (currency_transfer rt who (pool_account rt) amount KeepAlive (ledger s))) (\<lambda>l.
     let s = s\<lparr>ledger := l, CommitmentExists := (CommitmentExists s)(commitment \<mapsto> True)\<rparr> in
     bind_result (insert_leaf cfg commitment s) (\<lambda>(leaf_index, s).
     let s = s\<lparr>PoolBalance := saturating_add 128 (PoolBalance s) amount\<rparr> in
     Ok (deposit_event (Deposited commitment leaf_index amount) s))))))"

definition transfer ::
  "Config \<Rightarrow> ('a, 'l) Runtime \<Rightarrow> 'a Origin \<Rightarrow> u8 list \<Rightarrow> h256 \<Rightarrow> h256 \<times> h256 \<Rightarrow> h256 \<times> h256
     \<Rightarrow> ('a, 'l) Storage \<Rightarrow> (Error, ('a, 'l) Storage) result" where
  "transfer cfg rt origin proof root nuls outs s =
     bind_result (ensure_signed origin) (\<lambda>_.
     bind_result (ensure (is_known_root cfg root s) UnknownMerkleRoot) (\<lambda>_.
     bind_result (check_and_spend_nullifiers cfg nuls s) (\<lambda>s.
     let public_inputs = \<lparr>merkle_root = root, nullifiers = nuls, output_commitments = outs,
                          domain_chain_id = ParaId cfg, domain_app_id = AppId cfg\<rparr> in
     bind_result (ensure (verify_transfer (blake2_256 rt) proof public_inputs) InvalidProof) (\<lambda>_.
     bind_result (insert_leaf cfg (fst outs) s) (\<lambda>(_, s).
     bind_result (insert_leaf cfg (snd outs) s) (\<lambda>(_, s).
     let new_root = get_latest_root s in
     Ok (deposit_event (Transferred (fst nuls) (snd nuls) (fst outs) (snd outs) new_root) s)))))))"

definition withdraw ::
  "Config \<Rightarrow> ('a, 'l) Runtime \<Rightarrow> 'a Origin \<Rightarrow> u8 list \<Rightarrow> h256 \<Rightarrow> h256 \<times> h256 \<Rightarrow> h256 \<times> h256
     \<Rightarrow> 'a \<Rightarrow> nat \<Rightarrow> ('a, 'l) Storage \<Rightarrow> (Error, ('a, 'l) Storage) result" where
  "withdraw cfg rt origin proof root nuls outs recipient value s =
     bind_result (ensure_signed origin) (\<lambda>_.
     bind_result (ensure (value > 0) ZeroWithdrawal) (\<lambda>_.
     bind_result (ensure (value \<le> PoolBalance s) InsufficientPoolBalance) (\<lambda>_.
     bind_result (ensure (is_known_root cfg root s) UnknownMerkleRoot) (\<lambda>_.
     bind_result (check_and_spend_nullifiers cfg nuls s) (\<lambda>s.
     let public_inputs = \<lparr>w_merkle_root = root, w_nullifiers = nuls,
                          w_output_commitments = outs, exit_value = value\<rparr> in
     bind_result (ensure (verify_withdraw (blake2_256 rt) proof public_inputs) InvalidProof) (\<lambda>_.
     bind_result (insert_leaf cfg (fst outs) s) (\<lambda>(_, s).
     bind_result (insert_leaf cfg (snd outs) s) (\<lambda>(_, s).
     let new_root = get_latest_root s;
         s = s\<lparr>PoolBalance := saturating_sub (PoolBalance s) value\<rparr> in
     bind_result (of_option TransferFailed
       (currency_transfer rt (pool_account rt) recipient value AllowDeath (ledger s))) (\<lambda>l.
     Ok (deposit_event (Withdrawn (fst nuls) (snd nuls) recipient value new_root)
           (s\<lparr>ledger := l\<rparr>)))))))))))"

definition finalize_epoch ::
  "'a Origin \<Rightarrow> ('a, 'l) Storage \<Rightarrow> (Error, ('a, 'l) Storage) result" where
  "finalize_epoch origin s =
     bind_result (ensure_root origin) (\<lambda>_.
     let epoch_id = CurrentEpochId s in
     bind_result (of_option EpochNotReady (Epochs s epoch_id)) (\<lambda>epoch.
     bind_result (ensure (\<not> finalized epoch) EpochAlreadyFinalized) (\<lambda>_.
     let nuls = get [] (EpochNullifiers s) epoch_id;
         root = compute_nullifier_root nuls;
         count = length nuls mod 2 ^ 32;
         epoch = epoch\<lparr>nullifier_root := root, nullifier_count := count,
                       end_block := Some (block_number s), finalized := True\<rparr>;
         s = s\<lparr>Epochs := (Epochs s)(epoch_id \<mapsto> epoch)\<rparr> in
     bind_result (uadd 64 epoch_id 1) (\<lambda>new_epoch_id.
     let new_epoch = \<lparr>start_block = block_number s, end_block = None, nullifier_root = 0,
                      nullifier_count = 0, finalized = False\<rparr>;
         s = s\<lparr>CurrentEpochId := new_epoch_id, Epochs := (Epochs s)(new_epoch_id \<mapsto> new_epoch)\<rparr> in
     Ok (deposit_event (EpochFinalized epoch_id root count) s)))))"

definition sync_epoch_root ::
  "'a Origin \<Rightarrow> nat \<Rightarrow> nat \<Rightarrow> h256 \<Rightarrow> ('a, 'l) Storage \<Rightarrow> (Error, ('a, 'l) Storage) result" where
  "sync_epoch_root origin source_para_id epoch_id root s =
     bind_result (ensure_root origin) (\<lambda>_.
     bind_result (ensure (root \<noteq> 0) InvalidNullifierRoot) (\<lambda>_.
     Ok (deposit_event (RemoteEpochRootReceived source_para_id epoch_id root)
           (s\<lparr>RemoteEpochRoots := (RemoteEpochRoots s)((source_para_id, epoch_id) \<mapsto> root)\<rparr>))))"

text \<open>The calls of the pallet, and the values the repository's runtime configures.\<close>

datatype 'a Call =
    Deposit h256 nat
  | Transfer "u8 list" h256 "h256 \<times> h256" "h256 \<times> h256"
  | Withdraw "u8 list" h256 "h256 \<times> h256" "h256 \<times> h256" 'a nat
  | FinalizeEpoch
  | SyncEpochRoot nat nat h256

fun dispatch ::
  "Config \<Rightarrow> ('a, 'l) Runtime \<Rightarrow> ('a, 'l) Storage \<Rightarrow> 'a Origin \<times> 'a Call
     \<Rightarrow> (Error, ('a, 'l) Storage) result" where
  "dispatch cfg rt s (o', Deposit commitment amount) = deposit cfg rt o' commitment amount s"
| "dispatch cfg rt s (o', Transfer proof root nuls outs) = transfer cfg rt o' proof root nuls outs s"
| "dispatch cfg rt s (o', Withdraw proof root nuls outs recipient value) =
     withdraw cfg rt o' proof root nuls outs recipient value s"
| "dispatch cfg rt s (o', FinalizeEpoch) = finalize_epoch o' s"
| "dispatch cfg rt s (o', SyncEpochRoot para epoch root) = sync_epoch_root o' para epoch root s"

definition runtime_config :: Config where
  "runtime_config = \<lparr>TreeDepth = 32, EpochDuration = 300, MaxNullifiersPerEpoch = 65536,
                     RootHistorySize = 100, ParaId = 2100, AppId = 1\<rparr>"

lemmas dispatchable_defs [pallet_defs] =
  deposit_def transfer_def withdraw_def finalize_epoch_def sync_epoch_root_def

section \<open>The tree of the pallet\<close>

lemma zero_hash_is_zeros: "zero_hash = zeros poseidon_hash 0"
  by (simp add: fun_eq_iff zero_hash_zeros)

lemma insert_levels_climb:
  "insert_levels level k i h fs = climb_map poseidon_hash zero_hash 0 level k i h fs"
  by (induction k arbitrary: level i h fs) (auto simp: even_iff_mod_2_eq_zero)

lemma scan_roots_ring:
  "root \<noteq> 0 \<Longrightarrow>
     scan_roots roots n root idx k \<longleftrightarrow> ring_scan (\<lambda>j. roots j = Some root) n idx k"
  by (induction k arbitrary: idx) (auto simp: get_def split: option.splits)

text \<open>The storage holds the tree over \<open>xs\<close>, with parameters that fit the machine types.\<close>

definition tree_of :: "Config \<Rightarrow> ('a, 'l) Storage \<Rightarrow> h256 list \<Rightarrow> bool" where
  "tree_of cfg s xs \<longleftrightarrow> TreeDepth cfg < 64 \<and> RootHistorySize cfg < 2 ^ 32 \<and>
     tree_rep poseidon_hash 0 (TreeDepth cfg) (RootHistorySize cfg) xs
       (NextLeafIndex s) (get 0 (FilledSubtrees s)) (Roots s) (CurrentRootIndex s)"

definition append_leaf ::
  "Config \<Rightarrow> ('a, 'l) Storage \<Rightarrow> h256 \<Rightarrow> (Error, ('a, 'l) Storage) result" where
  "append_leaf cfg s leaf = bind_result (insert_leaf cfg leaf s) (\<lambda>(_, s'). Ok s')"

lemma insert_leaf_Ok:
  assumes "insert_leaf cfg leaf s = Ok (i, s')"
  shows "i = NextLeafIndex s" and "NextLeafIndex s < 2 ^ TreeDepth cfg"
    and "s' = s\<lparr>FilledSubtrees := fst (insert_levels 0 (TreeDepth cfg) (NextLeafIndex s) leaf (FilledSubtrees s)),
                Roots := (Roots s)((CurrentRootIndex s + 1) mod RootHistorySize cfg \<mapsto>
                  snd (insert_levels 0 (TreeDepth cfg) (NextLeafIndex s) leaf (FilledSubtrees s))),
                CurrentRootIndex := (CurrentRootIndex s + 1) mod RootHistorySize cfg,
                NextLeafIndex := NextLeafIndex s + 1\<rparr>"
  using assms by (auto simp: insert_leaf_def Let_def result_simps split: prod.splits)

text \<open>The part of it that decides whether an insertion goes through.\<close>

definition wf_index :: "Config \<Rightarrow> ('a, 'l) Storage \<Rightarrow> bool" where
  "wf_index cfg s \<longleftrightarrow> TreeDepth cfg < 64 \<and> RootHistorySize cfg < 2 ^ 32 \<and>
     CurrentRootIndex s < RootHistorySize cfg \<and> NextLeafIndex s \<le> 2 ^ TreeDepth cfg"

lemma tree_of_wf:
  assumes "tree_of cfg s xs"
  shows "wf_index cfg s" and "NextLeafIndex s = length xs"
  using assms by (auto simp: tree_of_def wf_index_def tree_rep_def ring_holds_def)

lemma insert_leaf_room:
  assumes "wf_index cfg s"
  shows "(\<exists>i s'. insert_leaf cfg leaf s = Ok (i, s')) \<longleftrightarrow> NextLeafIndex s < 2 ^ TreeDepth cfg"
    and "insert_leaf cfg leaf s \<noteq> Panic"
proof -
  let ?d = "TreeDepth cfg" and ?cap = "RootHistorySize cfg"
  have cfg: "?d < 64" "?cap < 2 ^ 32" "CurrentRootIndex s < ?cap"
    using assms by (auto simp: wf_index_def)
  have pow: "(2 :: nat) ^ ?d < 2 ^ 64" using cfg(1) by (intro power_strict_increasing) auto
  have "NextLeafIndex s < 2 ^ ?d \<Longrightarrow> NextLeafIndex s + 1 < 2 ^ 64"
    using pow by linarith
  then show "(\<exists>i s'. insert_leaf cfg leaf s = Ok (i, s')) \<longleftrightarrow> NextLeafIndex s < 2 ^ ?d"
    and "insert_leaf cfg leaf s \<noteq> Panic"
    using pow cfg by (auto simp: insert_leaf_def Let_def result_simps split: prod.splits)
qed

lemma insert_leaf_wf:
  assumes "wf_index cfg s" and "insert_leaf cfg leaf s = Ok (i, s')"
  shows "wf_index cfg s'" and "NextLeafIndex s' = Suc (NextLeafIndex s)"
  using assms(1) insert_leaf_Ok [OF assms(2)] by (auto simp: wf_index_def)

lemma insert_leaf_tree:
  assumes rep: "tree_of cfg s xs" and ok: "insert_leaf cfg leaf s = Ok (i, s')"
  shows "tree_of cfg s' (xs @ [leaf])"
proof -
  note eq = insert_leaf_Ok [OF ok]
  show ?thesis
    using rep tree_rep_push_map [OF _ eq(2) refl refl, of poseidon_hash 0]
    unfolding eq(3) tree_of_def insert_levels_climb zero_hash_is_zeros by simp
qed

lemma genesis_subtrees_root:
  "snd (genesis_subtrees level k zv fs) = zeros poseidon_hash zv k"
  by (induction k arbitrary: level zv fs) (simp_all add: zeros_shift)

lemma genesis_tree:
  assumes "TreeDepth cfg < 64" "0 < RootHistorySize cfg" "RootHistorySize cfg < 2 ^ 32"
  shows "tree_of cfg (genesis cfg l) []"
  using assms tree_rep_Nil [OF assms(2), of poseidon_hash 0 "TreeDepth cfg"]
    genesis_subtrees_root [of 0 "TreeDepth cfg" 0 Map.empty]
  by (auto simp: tree_of_def genesis_def tree_root_Nil split: prod.splits)

interpretation pallet_tree: commitment_tree "append_leaf cfg" "\<lambda>s r. is_known_root cfg r s"
  get_latest_root "tree_of cfg" "\<lambda>_. True" poseidon_hash 0 "TreeDepth cfg" "RootHistorySize cfg"
  for cfg
proof
  fix s :: "('a, 'b) Storage" and xs x s' r
  assume rep: "tree_of cfg s xs"
  show "length xs \<le> 2 ^ TreeDepth cfg"
    using rep by (auto simp: tree_of_def tree_rep_def)
  show "is_Ok (append_leaf cfg s x) \<longleftrightarrow> length xs < 2 ^ TreeDepth cfg \<and> True"
    using insert_leaf_room [OF tree_of_wf(1) [OF rep], of x] tree_of_wf(2) [OF rep]
    by (auto simp: append_leaf_def is_Ok_iff result_simps)
  show "append_leaf cfg s x = Ok s' \<Longrightarrow> tree_of cfg s' (xs @ [x])"
    using insert_leaf_tree [OF rep, of x] by (auto simp: append_leaf_def result_simps)
  show "get_latest_root s = tree_root poseidon_hash 0 (TreeDepth cfg) xs"
    using rep tree_rep_latest unfolding tree_of_def get_latest_root_def get_def by fastforce
  show "is_known_root cfg r s \<longleftrightarrow> r \<noteq> 0 \<and> (\<exists>k\<le>length xs. length xs < k + RootHistorySize cfg \<and>
          r = tree_root poseidon_hash 0 (TreeDepth cfg) (take k xs))"
    using rep tree_rep_scan [of poseidon_hash 0 "TreeDepth cfg" "RootHistorySize cfg" xs]
    by (auto simp: is_known_root_def scan_roots_ring tree_of_def)
qed

section \<open>Successful calls\<close>

lemma origin_iffs [result_simps]:
  "ensure_signed o' = Ok who \<longleftrightarrow> o' = Signed who"
  "ensure_signed o' = Err e \<longleftrightarrow> (\<forall>who. o' \<noteq> Signed who) \<and> e = BadOrigin"
  "ensure_signed o' \<noteq> Panic"
  "ensure_root o' = Ok u \<longleftrightarrow> o' = Root"
  "ensure_root o' = Err e \<longleftrightarrow> o' \<noteq> Root \<and> e = BadOrigin"
  "ensure_root o' \<noteq> Panic"
  by (auto simp: ensure_signed_def ensure_root_def split: Origin.splits)

lemma spend_nullifier_Ok [result_simps]:
  "spend_nullifier cfg n s = Ok s' \<longleftrightarrow>
     \<not> get False (NullifierSpent s) n \<and>
     length (get [] (EpochNullifiers s) (CurrentEpochId s)) < MaxNullifiersPerEpoch cfg \<and>
     s' = s\<lparr>NullifierSpent := (NullifierSpent s)(n \<mapsto> True),
            EpochNullifiers := (EpochNullifiers s)(CurrentEpochId s \<mapsto>
              get [] (EpochNullifiers s) (CurrentEpochId s) @ [n])\<rparr>"
  by (auto simp: spend_nullifier_def Let_def result_simps)

lemma check_and_spend_Ok:
  "check_and_spend_nullifiers cfg nuls s = Ok s' \<longleftrightarrow>
     fst nuls \<noteq> snd nuls \<and> \<not> get False (NullifierSpent s) (fst nuls) \<and>
     \<not> get False (NullifierSpent s) (snd nuls) \<and>
     Suc (length (get [] (EpochNullifiers s) (CurrentEpochId s))) < MaxNullifiersPerEpoch cfg \<and>
     s' = s\<lparr>NullifierSpent := (NullifierSpent s)(fst nuls \<mapsto> True, snd nuls \<mapsto> True),
            EpochNullifiers := (EpochNullifiers s)(CurrentEpochId s \<mapsto>
              get [] (EpochNullifiers s) (CurrentEpochId s) @ [fst nuls, snd nuls])\<rparr>"
  by (auto simp: check_and_spend_nullifiers_def result_simps)

lemma deposit_OkE:
  assumes "deposit cfg rt origin c amount s = Ok s'"
  obtains who l i s1 where "origin = Signed who" "0 < amount" "\<not> get False (CommitmentExists s) c"
    "currency_transfer rt who (pool_account rt) amount KeepAlive (ledger s) = Some l"
    "insert_leaf cfg c (s\<lparr>ledger := l, CommitmentExists := (CommitmentExists s)(c \<mapsto> True)\<rparr>) = Ok (i, s1)"
    "s' = deposit_event (Deposited c i amount)
            (s1\<lparr>PoolBalance := saturating_add 128 (PoolBalance s1) amount\<rparr>)"
  using assms by (auto simp: deposit_def Let_def result_simps split: prod.splits)

lemma transfer_OkE:
  assumes "transfer cfg rt origin proof root nuls outs s = Ok s'"
  obtains who s1 i s2 j s3 where "origin = Signed who" "is_known_root cfg root s"
    "check_and_spend_nullifiers cfg nuls s = Ok s1"
    "verify_transfer (blake2_256 rt) proof
       \<lparr>merkle_root = root, nullifiers = nuls, output_commitments = outs,
        domain_chain_id = ParaId cfg, domain_app_id = AppId cfg\<rparr>"
    "insert_leaf cfg (fst outs) s1 = Ok (i, s2)" "insert_leaf cfg (snd outs) s2 = Ok (j, s3)"
    "s' = deposit_event
            (Transferred (fst nuls) (snd nuls) (fst outs) (snd outs) (get_latest_root s3)) s3"
  using assms by (auto simp: transfer_def Let_def result_simps split: prod.splits)

lemma withdraw_OkE:
  assumes "withdraw cfg rt origin proof root nuls outs recipient value s = Ok s'"
  obtains who s1 i s2 j s3 l where "origin = Signed who" "0 < value" "value \<le> PoolBalance s"
    "is_known_root cfg root s" "check_and_spend_nullifiers cfg nuls s = Ok s1"
    "verify_withdraw (blake2_256 rt) proof
       \<lparr>w_merkle_root = root, w_nullifiers = nuls, w_output_commitments = outs, exit_value = value\<rparr>"
    "insert_leaf cfg (fst outs) s1 = Ok (i, s2)" "insert_leaf cfg (snd outs) s2 = Ok (j, s3)"
    "currency_transfer rt (pool_account rt) recipient value AllowDeath (ledger s3) = Some l"
    "s' = deposit_event (Withdrawn (fst nuls) (snd nuls) recipient value (get_latest_root s3))
            (s3\<lparr>PoolBalance := saturating_sub (PoolBalance s3) value, ledger := l\<rparr>)"
  using assms by (auto simp: withdraw_def Let_def result_simps split: prod.splits)

lemma finalize_epoch_OkE:
  assumes "finalize_epoch origin s = Ok s'"
  obtains epoch where "origin = Root" "Epochs s (CurrentEpochId s) = Some epoch" "\<not> finalized epoch"
    "CurrentEpochId s + 1 < 2 ^ 64"
    "s' = deposit_event
       (EpochFinalized (CurrentEpochId s)
         (compute_nullifier_root (get [] (EpochNullifiers s) (CurrentEpochId s)))
         (length (get [] (EpochNullifiers s) (CurrentEpochId s)) mod 2 ^ 32))
       (s\<lparr>CurrentEpochId := CurrentEpochId s + 1,
          Epochs := (Epochs s)
            (CurrentEpochId s \<mapsto> epoch\<lparr>
               nullifier_root := compute_nullifier_root (get [] (EpochNullifiers s) (CurrentEpochId s)),
               nullifier_count := length (get [] (EpochNullifiers s) (CurrentEpochId s)) mod 2 ^ 32,
               end_block := Some (block_number s), finalized := True\<rparr>,
             CurrentEpochId s + 1 \<mapsto> \<lparr>start_block = block_number s, end_block = None,
               nullifier_root = 0, nullifier_count = 0, finalized = False\<rparr>)\<rparr>)"
  using assms by (auto simp: finalize_epoch_def Let_def result_simps)

lemma sync_epoch_root_OkE:
  assumes "sync_epoch_root origin para epoch root s = Ok s'"
  obtains "origin = Root" "root \<noteq> 0"
    "s' = deposit_event (RemoteEpochRootReceived para epoch root)
            (s\<lparr>RemoteEpochRoots := (RemoteEpochRoots s)((para, epoch) \<mapsto> root)\<rparr>)"
  using assms by (auto simp: sync_epoch_root_def result_simps)

text \<open>What each part of a call leaves alone.\<close>

definition tree_fields_eq :: "('a, 'l) Storage \<Rightarrow> ('a, 'l) Storage \<Rightarrow> bool" where
  "tree_fields_eq s s' \<longleftrightarrow> NextLeafIndex s' = NextLeafIndex s \<and> FilledSubtrees s' = FilledSubtrees s \<and>
     Roots s' = Roots s \<and> CurrentRootIndex s' = CurrentRootIndex s"

lemma tree_of_cong: "tree_fields_eq s s' \<Longrightarrow> tree_of cfg s' xs \<longleftrightarrow> tree_of cfg s xs"
  by (simp add: tree_fields_eq_def tree_of_def)

lemma insert_leaf_frame:
  assumes "insert_leaf cfg leaf s = Ok (i, s')"
  shows "NullifierSpent s' = NullifierSpent s" "CommitmentExists s' = CommitmentExists s"
    "PoolBalance s' = PoolBalance s" "CurrentEpochId s' = CurrentEpochId s" "Epochs s' = Epochs s"
    "EpochNullifiers s' = EpochNullifiers s" "RemoteEpochRoots s' = RemoteEpochRoots s"
    "ledger s' = ledger s" "block_number s' = block_number s" "events s' = events s"
  using insert_leaf_Ok(3) [OF assms] by simp_all

lemma deposit_event_frame [simp]:
  "NextLeafIndex (deposit_event e s) = NextLeafIndex s"
  "FilledSubtrees (deposit_event e s) = FilledSubtrees s"
  "Roots (deposit_event e s) = Roots s" "CurrentRootIndex (deposit_event e s) = CurrentRootIndex s"
  "NullifierSpent (deposit_event e s) = NullifierSpent s"
  "CommitmentExists (deposit_event e s) = CommitmentExists s"
  "PoolBalance (deposit_event e s) = PoolBalance s"
  "CurrentEpochId (deposit_event e s) = CurrentEpochId s" "Epochs (deposit_event e s) = Epochs s"
  "EpochNullifiers (deposit_event e s) = EpochNullifiers s"
  "RemoteEpochRoots (deposit_event e s) = RemoteEpochRoots s"
  "ledger (deposit_event e s) = ledger s" "block_number (deposit_event e s) = block_number s"
  "events (deposit_event e s) = events s @ [e]"
  by (simp_all add: deposit_event_def)

section \<open>Sequences of calls\<close>

text \<open>The leaves a call appends and the nullifiers it spends.\<close>

fun leaves_of :: "'a Origin \<times> 'a Call \<Rightarrow> h256 list" where
  "leaves_of (_, Deposit c _) = [c]"
| "leaves_of (_, Transfer _ _ _ outs) = [fst outs, snd outs]"
| "leaves_of (_, Withdraw _ _ _ outs _ _) = [fst outs, snd outs]"
| "leaves_of _ = []"

fun nulls_of :: "'a Origin \<times> 'a Call \<Rightarrow> h256 list" where
  "nulls_of (_, Transfer _ _ nuls _) = [fst nuls, snd nuls]"
| "nulls_of (_, Withdraw _ _ nuls _ _ _) = [fst nuls, snd nuls]"
| "nulls_of _ = []"

lemma insert_two_tree:
  assumes "tree_of cfg s xs" and "check_and_spend_nullifiers cfg nuls s = Ok s1"
    and "insert_leaf cfg a s1 = Ok (i, s2)" and "insert_leaf cfg b s2 = Ok (j, s3)"
  shows "tree_of cfg s3 (xs @ [a, b])"
proof -
  have "tree_of cfg s1 xs"
    using assms(1,2) by (auto simp: check_and_spend_Ok tree_of_def)
  from insert_leaf_tree [OF insert_leaf_tree [OF this assms(3)] assms(4)] show ?thesis by simp
qed

lemma dispatch_tree:
  assumes rep: "tree_of cfg s xs" and ok: "dispatch cfg rt s c = Ok s'"
  shows "tree_of cfg s' (xs @ leaves_of c)"
proof (cases c rule: leaves_of.cases)
  case (1 o' c amount)
  with ok obtain l i s1 where
    "insert_leaf cfg c (s\<lparr>ledger := l, CommitmentExists := (CommitmentExists s)(c \<mapsto> True)\<rparr>) = Ok (i, s1)"
    and "tree_fields_eq s1 s'"
    by (auto elim!: deposit_OkE simp: tree_fields_eq_def)
  with 1 rep insert_leaf_tree [of cfg "s\<lparr>ledger := l, CommitmentExists := (CommitmentExists s)(c \<mapsto> True)\<rparr>" xs]
  show ?thesis by (simp add: tree_of_cong tree_fields_eq_def tree_of_def)
next
  case (2 o' pr root nuls outs)
  with ok obtain s1 i s2 j s3 where "check_and_spend_nullifiers cfg nuls s = Ok s1"
    "insert_leaf cfg (fst outs) s1 = Ok (i, s2)" "insert_leaf cfg (snd outs) s2 = Ok (j, s3)"
    "tree_fields_eq s3 s'"
    by (auto elim!: transfer_OkE simp: tree_fields_eq_def)
  with 2 insert_two_tree [OF rep] show ?thesis by (simp add: tree_of_cong)
next
  case (3 o' pr root nuls outs recipient amt)
  with ok obtain s1 i s2 j s3 where "check_and_spend_nullifiers cfg nuls s = Ok s1"
    "insert_leaf cfg (fst outs) s1 = Ok (i, s2)" "insert_leaf cfg (snd outs) s2 = Ok (j, s3)"
    "tree_fields_eq s3 s'"
    by (auto elim!: withdraw_OkE simp: tree_fields_eq_def)
  with 3 insert_two_tree [OF rep] show ?thesis by (simp add: tree_of_cong)
qed (use ok rep in \<open>auto elim!: finalize_epoch_OkE sync_epoch_root_OkE simp: tree_of_def\<close>)

lemma run_tree:
  "tree_of cfg s xs \<Longrightarrow>
     tree_of cfg (run (dispatch cfg rt) s cs) (xs @ concat (map leaves_of (committed (dispatch cfg rt) s cs)))"
  by (rule run_accumulates [where R = "tree_of cfg"]) (assumption, rule dispatch_tree)

lemma dispatch_ledger:
  assumes ok: "dispatch cfg rt s c = Ok s'"
  shows "distinct (nulls_of c)" and "\<forall>n\<in>set (nulls_of c). \<not> get False (NullifierSpent s) n"
    and "NullifierSpent s' = NullifierSpent s ++ map_of (map (\<lambda>n. (n, True)) (nulls_of c))"
    and "get [] (EpochNullifiers s') = (get [] (EpochNullifiers s))
           (CurrentEpochId s := get [] (EpochNullifiers s) (CurrentEpochId s) @ nulls_of c)"
    and "CurrentEpochId s' = CurrentEpochId s + (if snd c = FinalizeEpoch then 1 else 0)"
proof -
  let ?P = "distinct (nulls_of c) \<and> (\<forall>n\<in>set (nulls_of c). \<not> get False (NullifierSpent s) n) \<and>
    NullifierSpent s' = NullifierSpent s ++ map_of (map (\<lambda>n. (n, True)) (nulls_of c)) \<and>
    get [] (EpochNullifiers s') = (get [] (EpochNullifiers s))
      (CurrentEpochId s := get [] (EpochNullifiers s) (CurrentEpochId s) @ nulls_of c) \<and>
    CurrentEpochId s' = CurrentEpochId s + (if snd c = FinalizeEpoch then 1 else 0)"
  have ?P
  proof (cases c rule: leaves_of.cases)
    case (1 o' cm amount)
    with ok show ?thesis by (auto elim!: deposit_OkE simp: insert_leaf_frame)
  next
    case (2 o' pr root nuls outs)
    with ok show ?thesis
      by (auto elim!: transfer_OkE simp: check_and_spend_Ok insert_leaf_frame get_fun_upd fun_upd_twist)
  next
    case (3 o' pr root nuls outs recipient amt)
    with ok show ?thesis
      by (auto elim!: withdraw_OkE simp: check_and_spend_Ok insert_leaf_frame get_fun_upd fun_upd_twist)
  qed (use ok in \<open>auto elim!: finalize_epoch_OkE sync_epoch_root_OkE\<close>)
  then show "distinct (nulls_of c)" and "\<forall>n\<in>set (nulls_of c). \<not> get False (NullifierSpent s) n"
    and "NullifierSpent s' = NullifierSpent s ++ map_of (map (\<lambda>n. (n, True)) (nulls_of c))"
    and "get [] (EpochNullifiers s') = (get [] (EpochNullifiers s))
           (CurrentEpochId s := get [] (EpochNullifiers s) (CurrentEpochId s) @ nulls_of c)"
    and "CurrentEpochId s' = CurrentEpochId s + (if snd c = FinalizeEpoch then 1 else 0)"
    by blast+
qed

interpretation pallet_ledger: epoch_ledger "dispatch cfg rt" "\<lambda>s. get False (NullifierSpent s)"
  nulls_of CurrentEpochId "\<lambda>s. get [] (EpochNullifiers s)" for cfg rt
proof
  fix s :: "('a, 'b) Storage" and c s' n
  assume ok: "dispatch cfg rt s c = Ok s'"
  note facts = dispatch_ledger [OF ok]
  show "n \<in> set (nulls_of c) \<Longrightarrow> \<not> get False (NullifierSpent s) n"
    using facts(2) by blast
  show "distinct (nulls_of c)" by (rule facts(1))
  show "get False (NullifierSpent s') n \<longleftrightarrow> get False (NullifierSpent s) n \<or> n \<in> set (nulls_of c)"
    unfolding facts(3) by (rule get_marked)
  show "get [] (EpochNullifiers s') (CurrentEpochId s)
          = get [] (EpochNullifiers s) (CurrentEpochId s) @ nulls_of c"
    unfolding facts(4) by simp
  show "e < CurrentEpochId s \<Longrightarrow> get [] (EpochNullifiers s') e = get [] (EpochNullifiers s) e" for e
    unfolding facts(4) by simp
  show "CurrentEpochId s < e \<Longrightarrow> get [] (EpochNullifiers s') e = get [] (EpochNullifiers s) e \<or>
          get [] (EpochNullifiers s') e = []" for e
    unfolding facts(4) by simp
  show "CurrentEpochId s' = CurrentEpochId s \<or> CurrentEpochId s' = Suc (CurrentEpochId s)"
    using facts(5) by auto
qed

section \<open>Deposited commitments\<close>

fun deposits_of :: "'a Origin \<times> 'a Call \<Rightarrow> h256 list" where
  "deposits_of (_, Deposit c _) = [c]"
| "deposits_of _ = []"

lemma dispatch_commitments:
  assumes ok: "dispatch cfg rt s c = Ok s'"
  shows "\<forall>n\<in>set (deposits_of c). \<not> get False (CommitmentExists s) n"
    and "CommitmentExists s' = CommitmentExists s ++ map_of (map (\<lambda>n. (n, True)) (deposits_of c))"
  using ok
  by (cases c rule: leaves_of.cases;
      auto elim!: deposit_OkE transfer_OkE withdraw_OkE finalize_epoch_OkE sync_epoch_root_OkE
        simp: check_and_spend_Ok insert_leaf_frame)+

interpretation pallet_commitments: nullifier_ledger "dispatch cfg rt"
  "\<lambda>s. get False (CommitmentExists s)" deposits_of for cfg rt
proof
  fix s :: "('a, 'b) Storage" and c s' n
  assume ok: "dispatch cfg rt s c = Ok s'"
  show "n \<in> set (deposits_of c) \<Longrightarrow> \<not> get False (CommitmentExists s) n"
    using dispatch_commitments(1) [OF ok] by blast
  show "distinct (deposits_of c)" by (cases c rule: deposits_of.cases) auto
  show "get False (CommitmentExists s') n \<longleftrightarrow> get False (CommitmentExists s) n \<or> n \<in> set (deposits_of c)"
    unfolding dispatch_commitments(2) [OF ok] by (rule get_marked)
qed

section \<open>When a call goes through\<close>

lemma genesis_fields [simp]:
  "NullifierSpent (genesis cfg l) = Map.empty" "CommitmentExists (genesis cfg l) = Map.empty"
  "PoolBalance (genesis cfg l) = 0" "CurrentEpochId (genesis cfg l) = 0"
  "EpochNullifiers (genesis cfg l) = Map.empty" "ledger (genesis cfg l) = l"
  "Epochs (genesis cfg l) = [0 \<mapsto> \<lparr>start_block = 0, end_block = None, nullifier_root = 0,
     nullifier_count = 0, finalized = False\<rparr>]"
  "block_number (genesis cfg l) = 0" "events (genesis cfg l) = []"
  by (simp_all add: genesis_def split: prod.splits)

lemma wf_index_update [simp]:
  "wf_index cfg (s\<lparr>ledger := l\<rparr>) = wf_index cfg s"
  "wf_index cfg (s\<lparr>CommitmentExists := ce\<rparr>) = wf_index cfg s"
  "wf_index cfg (s\<lparr>NullifierSpent := ns\<rparr>) = wf_index cfg s"
  "wf_index cfg (s\<lparr>EpochNullifiers := en\<rparr>) = wf_index cfg s"
  by (simp_all add: wf_index_def)

lemma deposit_ok_iff:
  assumes "wf_index cfg s"
  shows "is_Ok (deposit cfg rt origin c amount s) \<longleftrightarrow>
    0 < amount \<and> \<not> get False (CommitmentExists s) c \<and> NextLeafIndex s < 2 ^ TreeDepth cfg \<and>
    (\<exists>who. origin = Signed who \<and>
       currency_transfer rt who (pool_account rt) amount KeepAlive (ledger s) \<noteq> None)"
proof -
  have "(\<exists>i s'. insert_leaf cfg c (s\<lparr>ledger := l, CommitmentExists := ce\<rparr>) = Ok (i, s'))
          \<longleftrightarrow> NextLeafIndex s < 2 ^ TreeDepth cfg" for l ce
    using insert_leaf_room(1) [of cfg "s\<lparr>ledger := l, CommitmentExists := ce\<rparr>" c] assms by simp
  then show ?thesis
    by (auto simp: deposit_def Let_def is_Ok_iff result_simps split: prod.splits)
qed

text \<open>Two insertions after the nullifiers are spent, shared by the two spending calls.\<close>

lemma insert_two_iff:
  assumes "wf_index cfg s" and "check_and_spend_nullifiers cfg nuls s = Ok s1"
  shows "(\<exists>i s2 j s3. insert_leaf cfg a s1 = Ok (i, s2) \<and> insert_leaf cfg b s2 = Ok (j, s3))
           \<longleftrightarrow> NextLeafIndex s + 2 \<le> 2 ^ TreeDepth cfg"
proof -
  have wf: "wf_index cfg s1" and n: "NextLeafIndex s1 = NextLeafIndex s"
    using assms by (auto simp: check_and_spend_Ok)
  have "(\<exists>j s3. insert_leaf cfg b s2 = Ok (j, s3)) \<longleftrightarrow> Suc (NextLeafIndex s) < 2 ^ TreeDepth cfg"
    if "insert_leaf cfg a s1 = Ok (i, s2)" for i s2
    using insert_leaf_room(1) [OF insert_leaf_wf(1) [OF wf that]] insert_leaf_wf(2) [OF wf that] n
    by simp
  with insert_leaf_room(1) [OF wf, of a] n show ?thesis
    by (metis Suc_lessD add_2_eq_Suc' Suc_le_eq)
qed

text \<open>The nullifiers of a call can be recorded.\<close>

definition spendable :: "Config \<Rightarrow> h256 \<times> h256 \<Rightarrow> ('a, 'l) Storage \<Rightarrow> bool" where
  "spendable cfg nuls s \<longleftrightarrow> fst nuls \<noteq> snd nuls \<and> \<not> get False (NullifierSpent s) (fst nuls) \<and>
     \<not> get False (NullifierSpent s) (snd nuls) \<and>
     length (get [] (EpochNullifiers s) (CurrentEpochId s)) + 2 \<le> MaxNullifiersPerEpoch cfg"

lemma spendable_iff: "spendable cfg nuls s \<longleftrightarrow> (\<exists>s1. check_and_spend_nullifiers cfg nuls s = Ok s1)"
  by (auto simp: spendable_def check_and_spend_Ok)

lemma spend_and_insert_iff:
  assumes "wf_index cfg s"
  shows "(\<exists>s1 i s2 j s3. check_and_spend_nullifiers cfg nuls s = Ok s1 \<and>
            insert_leaf cfg a s1 = Ok (i, s2) \<and> insert_leaf cfg b s2 = Ok (j, s3))
          \<longleftrightarrow> spendable cfg nuls s \<and> NextLeafIndex s + 2 \<le> 2 ^ TreeDepth cfg"
  using insert_two_iff [OF assms] unfolding spendable_iff by blast

lemma transfer_ok_iff:
  assumes "wf_index cfg s"
  shows "is_Ok (transfer cfg rt origin pr root nuls outs s) \<longleftrightarrow>
    (\<exists>who. origin = Signed who) \<and> is_known_root cfg root s \<and> spendable cfg nuls s \<and>
    verify_transfer (blake2_256 rt) pr
      \<lparr>merkle_root = root, nullifiers = nuls, output_commitments = outs,
       domain_chain_id = ParaId cfg, domain_app_id = AppId cfg\<rparr> \<and>
    NextLeafIndex s + 2 \<le> 2 ^ TreeDepth cfg"
  using spend_and_insert_iff [OF assms, of nuls "fst outs" "snd outs"]
  by (auto simp: transfer_def Let_def is_Ok_iff result_simps split: prod.splits)

lemma withdraw_ok_iff:
  assumes "wf_index cfg s"
  shows "is_Ok (withdraw cfg rt origin pr root nuls outs recipient amt s) \<longleftrightarrow>
    (\<exists>who. origin = Signed who) \<and> 0 < amt \<and> amt \<le> PoolBalance s \<and>
    is_known_root cfg root s \<and> spendable cfg nuls s \<and>
    verify_withdraw (blake2_256 rt) pr
      \<lparr>w_merkle_root = root, w_nullifiers = nuls, w_output_commitments = outs, exit_value = amt\<rparr> \<and>
    NextLeafIndex s + 2 \<le> 2 ^ TreeDepth cfg \<and>
    currency_transfer rt (pool_account rt) recipient amt AllowDeath (ledger s) \<noteq> None"
proof -
  have led: "ledger s3 = ledger s"
    if "check_and_spend_nullifiers cfg nuls s = Ok s1" "insert_leaf cfg (fst outs) s1 = Ok (i, s2)"
      "insert_leaf cfg (snd outs) s2 = Ok (j, s3)" for s1 i s2 j s3
    using that by (auto simp: check_and_spend_Ok insert_leaf_frame)
  note ins = spend_and_insert_iff [OF assms, of nuls "fst outs" "snd outs"]
  show ?thesis (is "?ok \<longleftrightarrow> ?cond")
  proof
    assume ?ok
    then obtain s' where "withdraw cfg rt origin pr root nuls outs recipient amt s = Ok s'"
      by (auto simp: is_Ok_iff)
    then show ?cond
    proof (rule withdraw_OkE)
      fix who s1 i s2 j s3 l
      assume c: "check_and_spend_nullifiers cfg nuls s = Ok s1"
        "insert_leaf cfg (fst outs) s1 = Ok (i, s2)" "insert_leaf cfg (snd outs) s2 = Ok (j, s3)"
        and l: "currency_transfer rt (pool_account rt) recipient amt AllowDeath (ledger s3) = Some l"
      have "spendable cfg nuls s \<and> NextLeafIndex s + 2 \<le> 2 ^ TreeDepth cfg"
        using c ins by blast
      moreover assume "origin = Signed who" "0 < amt" "amt \<le> PoolBalance s" "is_known_root cfg root s"
        "verify_withdraw (blake2_256 rt) pr
           \<lparr>w_merkle_root = root, w_nullifiers = nuls, w_output_commitments = outs, exit_value = amt\<rparr>"
      ultimately show ?cond using l led [OF c] by simp
    qed
  next
    assume c: ?cond
    then obtain s1 i s2 j s3 where steps: "check_and_spend_nullifiers cfg nuls s = Ok s1"
      "insert_leaf cfg (fst outs) s1 = Ok (i, s2)" "insert_leaf cfg (snd outs) s2 = Ok (j, s3)"
      using ins by blast
    with c led [OF steps] show ?ok
      by (auto simp: withdraw_def ensure_signed_def ensure_def of_option_def is_Ok_def)
  qed
qed

end
