(* ===== verification/Pallet_Properties.thy ===== *)
theory Pallet_Properties
  imports Pallet_Pool
begin

text \<open>
  The properties of the Substrate pallet over arbitrary sequences of calls: double spends, the
  commitment tree, deposits, the treasury and the epochs.
\<close>

section \<open>Properties of the pallet\<close>

text \<open>
  C1: no double spend. Over any sequence of calls from any storage, the nullifiers of the transfers and
  withdrawals that went through are pairwise different, and none was already marked as spent.
\<close>

theorem pallet_no_double_spend:
  "let spends = concat (map nulls_of (committed (dispatch cfg rt) s cs))
   in distinct spends \<and> set spends \<inter> {n. get False (NullifierSpent s) n} = {}"
  using pallet_ledger.no_double_spend [of cfg rt s cs] by (auto simp: Let_def)

text \<open>
  C2: the incremental tree is the reference tree. After any sequence of calls from genesis, the latest
  root is the root of the perfect binary tree over exactly the commitments of the calls that went
  through, in order, and a root is accepted exactly when it is non-zero and one of the last
  \<open>RootHistorySize\<close> roots.
\<close>

theorem pallet_tree_refines_reference:
  assumes "TreeDepth cfg < 64" and "0 < RootHistorySize cfg" and "RootHistorySize cfg < 2 ^ 32"
  shows "let s = run (dispatch cfg rt) (genesis cfg l) cs;
             xs = concat (map leaves_of (committed (dispatch cfg rt) (genesis cfg l) cs));
             root = tree_root poseidon_hash 0 (TreeDepth cfg)
         in get_latest_root s = root xs \<and> NextLeafIndex s = length xs \<and>
            (is_known_root cfg r s =
              (r \<noteq> 0 \<and> (\<exists>k\<le>length xs. length xs < k + RootHistorySize cfg \<and> r = root (take k xs))))"
proof -
  let ?s = "run (dispatch cfg rt) (genesis cfg l) cs"
  let ?xs = "concat (map leaves_of (committed (dispatch cfg rt) (genesis cfg l) cs))"
  have rep: "tree_of cfg ?s ?xs"
    using run_tree [OF genesis_tree [OF assms], of rt l cs] by simp
  then have "NextLeafIndex ?s = length ?xs"
    by (simp add: tree_of_def tree_rep_def)
  with pallet_tree.latest_rep [OF rep] pallet_tree.known_rep [OF rep, of r]
  show ?thesis by (simp add: Let_def)
qed

text \<open>A runtime for concrete runs: balances are a function, a transfer needs the funds.\<close>

definition sample_transfer ::
  "nat \<Rightarrow> nat \<Rightarrow> nat \<Rightarrow> ExistenceRequirement \<Rightarrow> (nat \<Rightarrow> nat) \<Rightarrow> (nat \<Rightarrow> nat) option" where
  "sample_transfer a b n k bal =
     (if n \<le> bal a then Some (if a = b then bal else bal(a := bal a - n, b := bal b + n)) else None)"

definition sample_runtime :: "(nat, nat \<Rightarrow> nat) Runtime" where
  "sample_runtime = \<lparr>blake2_256 = (\<lambda>_. 0), pool_account = 0, currency_transfer = sample_transfer\<rparr>"

definition sample_balances :: "nat \<Rightarrow> nat" where
  "sample_balances = (\<lambda>_. 0)(1 := 100)"

lemma sample_deposit:
  "is_Ok (dispatch runtime_config sample_runtime (genesis runtime_config sample_balances)
            (Signed 1, Deposit 7 60))"
proof -
  have rep: "tree_of runtime_config (genesis runtime_config sample_balances :: (nat, nat \<Rightarrow> nat) Storage) []"
    by (rule genesis_tree) (simp_all add: runtime_config_def)
  show ?thesis
    unfolding dispatch.simps deposit_ok_iff [OF tree_of_wf(1) [OF rep]] tree_of_wf(2) [OF rep]
    by (simp add: sample_runtime_def sample_transfer_def sample_balances_def)
qed

theorem pallet_tree_refines_reference_witness:
  "get_latest_root (run (dispatch runtime_config sample_runtime)
       (genesis runtime_config sample_balances) [(Signed 1, Deposit 7 60)])
     = tree_root poseidon_hash 0 32 [7]"
  using pallet_tree_refines_reference [of runtime_config sample_runtime sample_balances
      "[(Signed 1, Deposit 7 60)]"] sample_deposit
  by (simp add: Let_def runtime_config_def)

text \<open>
  A user who proves against the latest root is not raced: the root stays accepted while fewer than
  \<open>RootHistorySize\<close> further leaves are inserted, and every leaf below an accepted root has an
  authentication path that hashes to it.
\<close>

lemma pallet_recent_root_usable:
  assumes "tree_of cfg s xs" and "length xs + length ys \<le> 2 ^ TreeDepth cfg"
    and "length ys < RootHistorySize cfg" and "get_latest_root s \<noteq> 0"
  shows "is_known_root cfg (get_latest_root s) (run (append_leaf cfg) s ys) \<and>
    (i < length xs \<longrightarrow>
      path_root poseidon_hash (xs ! i) (auth_path poseidon_hash (padded 0 xs) 0 (TreeDepth cfg) i)
        = get_latest_root s)"
proof -
  have "list_all (\<lambda>_. True) ys" by (simp add: list_all_iff)
  then have "is_known_root cfg (get_latest_root s) (run (append_leaf cfg) s ys)"
    using pallet_tree.recent_root_known [OF assms(1,2) _ assms(3,4)] by blast
  moreover have "i < length xs \<longrightarrow>
      path_root poseidon_hash (xs ! i) (auth_path poseidon_hash (padded 0 xs) 0 (TreeDepth cfg) i)
        = get_latest_root s"
    using path_root_complete [of i xs "TreeDepth cfg" poseidon_hash 0]
      pallet_tree.rep_bounded [OF assms(1)] pallet_tree.latest_rep [OF assms(1)] by simp
  ultimately show ?thesis by blast
qed

text \<open>A storage of depth zero, whose only leaf is its root.\<close>

definition tiny_config :: Config where
  "tiny_config = \<lparr>TreeDepth = 0, EpochDuration = 5, MaxNullifiersPerEpoch = 4, RootHistorySize = 3,
                  ParaId = 7, AppId = 1\<rparr>"

definition tiny_storage :: "(nat, nat \<Rightarrow> nat) Storage" where
  "tiny_storage = (genesis tiny_config sample_balances)\<lparr>NextLeafIndex := 1, Roots := [0 \<mapsto> 0, 1 \<mapsto> 9],
     CurrentRootIndex := 1\<rparr>"

text \<open>
  C6: a commitment is deposited at most once: over any sequence of calls the commitments of the deposits
  that went through are pairwise different and new. (Transfers and withdrawals do not consult or
  extend this record.)
\<close>

theorem pallet_deposit_once:
  "let ds = concat (map deposits_of (committed (dispatch cfg rt) s cs))
   in distinct ds \<and> set ds \<inter> {c. get False (CommitmentExists s) c} = {} \<and>
      {c. get False (CommitmentExists (run (dispatch cfg rt) s cs)) c} =
        {c. get False (CommitmentExists s) c} \<union> set ds"
  using pallet_commitments.no_double_spend [of cfg rt s cs] pallet_commitments.spent_run [of cfg rt s cs]
  by (auto simp: Let_def)

section \<open>The treasury\<close>

text \<open>
  What the pallet relies on of \<open>Currency::transfer\<close>: the sender has the funds and loses them, the
  receiver gets them, nobody else is touched, a transfer to oneself changes nothing; with
  \<open>AllowDeath\<close> a remainder below the existential deposit may be removed with the account.
\<close>

definition currency_laws :: "('a, 'l) Runtime \<Rightarrow> ('l \<Rightarrow> 'a \<Rightarrow> nat) \<Rightarrow> nat \<Rightarrow> bool" where
  "currency_laws rt free ed \<longleftrightarrow>
     (\<forall>a b n k l l'. currency_transfer rt a b n k l = Some l' \<longrightarrow>
        (if a = b then free l' = free l
         else n \<le> free l a \<and> free l' b = free l b + n \<and>
              (free l' a = free l a - n \<or>
               k = AllowDeath \<and> free l' a = 0 \<and> free l a - n < ed) \<and>
              (\<forall>c. c \<noteq> a \<and> c \<noteq> b \<longrightarrow> free l' c = free l c)))"

lemma currency_lawsD:
  assumes "currency_laws rt free ed" and "currency_transfer rt a b n k l = Some l'"
  shows "a = b \<Longrightarrow> free l' = free l"
    and "a \<noteq> b \<Longrightarrow> n \<le> free l a" and "a \<noteq> b \<Longrightarrow> free l' b = free l b + n"
    and "a \<noteq> b \<Longrightarrow> free l' a = free l a - n \<or> k = AllowDeath \<and> free l' a = 0 \<and> free l a - n < ed"
  using assms(1) [unfolded currency_laws_def, rule_format, OF assms(2)] by auto

lemma dispatch_balance:
  assumes ok: "dispatch cfg rt s c = Ok s'"
  shows "case snd c of
      Deposit _ n \<Rightarrow> PoolBalance s' = saturating_add 128 (PoolBalance s) n \<and>
        (\<exists>who. currency_transfer rt who (pool_account rt) n KeepAlive (ledger s) = Some (ledger s'))
    | Withdraw _ _ _ _ r n \<Rightarrow> n \<le> PoolBalance s \<and> PoolBalance s' = PoolBalance s - n \<and>
        currency_transfer rt (pool_account rt) r n AllowDeath (ledger s) = Some (ledger s')
    | _ \<Rightarrow> PoolBalance s' = PoolBalance s \<and> ledger s' = ledger s"
  using ok
  by (cases c rule: leaves_of.cases)
    (auto elim!: deposit_OkE transfer_OkE withdraw_OkE finalize_epoch_OkE sync_epoch_root_OkE
      simp: check_and_spend_Ok insert_leaf_frame saturating_sub_def)

definition solvent :: "('a, 'l) Runtime \<Rightarrow> ('l \<Rightarrow> 'a \<Rightarrow> nat) \<Rightarrow> ('a, 'l) Storage \<Rightarrow> bool" where
  "solvent rt free s \<longleftrightarrow> PoolBalance s \<le> free (ledger s) (pool_account rt)"

text \<open>A deposit by the pool's own account would count tokens that do not move.\<close>

definition not_self_deposit :: "('a, 'l) Runtime \<Rightarrow> 'a Origin \<times> 'a Call \<Rightarrow> bool" where
  "not_self_deposit rt c \<longleftrightarrow> fst c \<noteq> Signed (pool_account rt)"

lemma deposit_ledger:
  assumes "dispatch cfg rt s (o', Deposit cm n) = Ok s'"
  obtains who where "o' = Signed who"
    "currency_transfer rt who (pool_account rt) n KeepAlive (ledger s) = Some (ledger s')"
    "PoolBalance s' = saturating_add 128 (PoolBalance s) n"
  using assms by (auto elim!: deposit_OkE simp: insert_leaf_frame)

lemma dispatch_solvent:
  assumes laws: "currency_laws rt free ed" and ed: "ed \<le> 1" and self: "not_self_deposit rt c"
    and sol: "solvent rt free s" and ok: "dispatch cfg rt s c = Ok s'"
  shows "solvent rt free s'"
proof (cases c rule: leaves_of.cases)
  case (1 o' cm n)
  then obtain who where w: "o' = Signed who" "PoolBalance s' = saturating_add 128 (PoolBalance s) n"
    and t: "currency_transfer rt who (pool_account rt) n KeepAlive (ledger s) = Some (ledger s')"
    using ok deposit_ledger by metis
  have "PoolBalance s' \<le> PoolBalance s + n"
    unfolding w by (rule saturating_add_bounds)
  moreover have "free (ledger s') (pool_account rt) = free (ledger s) (pool_account rt) + n"
    using currency_lawsD(3) [OF laws t] self 1 w by (auto simp: not_self_deposit_def)
  ultimately show ?thesis using sol by (simp add: solvent_def)
next
  case (3 o' pr root nuls outs r n)
  then have w: "n \<le> PoolBalance s" "PoolBalance s' = PoolBalance s - n"
    and t: "currency_transfer rt (pool_account rt) r n AllowDeath (ledger s) = Some (ledger s')"
    using dispatch_balance [OF ok] by auto
  show ?thesis
  proof (cases "r = pool_account rt")
    case True
    then show ?thesis using currency_lawsD(1) [OF laws t] w sol by (simp add: solvent_def)
  next
    case False
    then show ?thesis using currency_lawsD(4) [OF laws t] w sol ed by (auto simp: solvent_def)
  qed
qed (use dispatch_balance [OF ok] sol in \<open>auto simp: solvent_def\<close>)

text \<open>
  C5: the treasury covers the pool. If transfers obey the currency's laws with an existential deposit of
  at most one unit and the pool's own account signs nothing, then after any sequence of calls from
  genesis the recorded \<open>PoolBalance\<close> is at most what the pool's account holds.
\<close>

theorem pallet_treasury_solvent:
  assumes "currency_laws rt free ed" and "ed \<le> 1" and "list_all (not_self_deposit rt) cs"
  shows "let s = run (dispatch cfg rt) (genesis cfg l) cs
         in PoolBalance s \<le> free (ledger s) (pool_account rt)"
proof -
  have "solvent rt free (run (dispatch cfg rt) (genesis cfg l) cs)"
    by (rule run_invariant_on [OF _ assms(3)])
      (simp add: solvent_def, rule dispatch_solvent [OF assms(1,2)])
  then show ?thesis by (simp add: solvent_def Let_def)
qed

lemma sample_laws: "currency_laws sample_runtime (\<lambda>l. l) 1"
  by (auto simp: currency_laws_def sample_runtime_def sample_transfer_def split: if_splits)

theorem pallet_treasury_solvent_witness:
  "currency_laws sample_runtime (\<lambda>l. l) 1 \<and>
   (let s = run (dispatch runtime_config sample_runtime) (genesis runtime_config sample_balances)
              [(Signed 1, Deposit 7 60)]
    in PoolBalance s \<le> ledger s 0)"
  using pallet_treasury_solvent [OF sample_laws, of "[(Signed 1, Deposit 7 60)]" runtime_config
      sample_balances] sample_laws
  by (simp add: not_self_deposit_def sample_runtime_def Let_def)

text \<open>The currency of the repository's runtime, \<open>pallet_balances\<close>, does remove such a remainder.\<close>

definition reaps_dust :: "('a, 'l) Runtime \<Rightarrow> ('l \<Rightarrow> 'a \<Rightarrow> nat) \<Rightarrow> nat \<Rightarrow> bool" where
  "reaps_dust rt free ed \<longleftrightarrow>
     (\<forall>a b n l l'. a \<noteq> b \<longrightarrow> currency_transfer rt a b n AllowDeath l = Some l' \<longrightarrow>
        free l a - n < ed \<longrightarrow> free l' a = 0)"

text \<open>
  A currency that obeys the same laws with the existential deposit of the repository's runtime and
  removes a remainder below it, and a pool that holds one unit more than that.
\<close>

definition runtime_existential_deposit :: nat where
  "runtime_existential_deposit = 1000000000"

definition reaping_transfer ::
  "nat \<Rightarrow> nat \<Rightarrow> nat \<Rightarrow> ExistenceRequirement \<Rightarrow> (nat \<Rightarrow> nat) \<Rightarrow> (nat \<Rightarrow> nat) option" where
  "reaping_transfer a b n k bal =
     (if n \<le> bal a
      then Some (if a = b then bal
                 else let rest = bal a - n;
                          rest = (if k = AllowDeath \<and> rest < runtime_existential_deposit then 0 else rest)
                      in bal(a := rest, b := bal b + n))
      else None)"

definition reaping_runtime :: "(nat, nat \<Rightarrow> nat) Runtime" where
  "reaping_runtime = \<lparr>blake2_256 = (\<lambda>_. 0), pool_account = 0, currency_transfer = reaping_transfer\<rparr>"

definition dusty_storage :: "(nat, nat \<Rightarrow> nat) Storage" where
  "dusty_storage = (genesis runtime_config ((\<lambda>_. 0)(0 := 1000000001)))
     \<lparr>Roots := [0 \<mapsto> 1], PoolBalance := 1000000001\<rparr>"

lemma reaping_laws: "currency_laws reaping_runtime (\<lambda>l. l) runtime_existential_deposit"
  by (auto simp: currency_laws_def reaping_runtime_def reaping_transfer_def Let_def split: if_splits)

lemma reaping_reaps: "reaps_dust reaping_runtime (\<lambda>l. l) runtime_existential_deposit"
  by (auto simp: reaps_dust_def reaping_runtime_def reaping_transfer_def Let_def split: if_splits)

lemma current_root_known:
  "root \<noteq> 0 \<Longrightarrow> 0 < RootHistorySize cfg \<Longrightarrow> get_latest_root s = root \<Longrightarrow> is_known_root cfg root s"
  by (cases "RootHistorySize cfg") (auto simp: is_known_root_def get_latest_root_def)

lemma dusty_wf: "wf_index runtime_config dusty_storage" and dusty_next: "NextLeafIndex dusty_storage = 0"
  by (simp_all add: wf_index_def runtime_config_def dusty_storage_def genesis_def split: prod.splits)

lemma dusty_withdraw_ok:
  "is_Ok (withdraw runtime_config reaping_runtime (Signed 5) (replicate 32 0 @ replicate 160 1) 1 (2, 3)
            (4, 5) 6 1000000000 dusty_storage)"
proof -
  have "get_latest_root dusty_storage = 1"
    by (simp add: get_latest_root_def dusty_storage_def genesis_def split: prod.splits)
  then have "is_known_root runtime_config 1 dusty_storage"
    by (intro current_root_known) (simp_all add: runtime_config_def)
  moreover have "spendable runtime_config (2, 3) dusty_storage"
    by (simp add: spendable_def dusty_storage_def runtime_config_def)
  moreover have "verify_withdraw (blake2_256 reaping_runtime) (replicate 32 0 @ replicate 160 1)
    \<lparr>w_merkle_root = 1, w_nullifiers = (2, 3), w_output_commitments = (4, 5), exit_value = 1000000000\<rparr>"
    by (simp add: reaping_runtime_def verify_withdraw_def size_defs verify_halo2_ipa_proof_def
        h256_bytes_0 list_all_iff)
  ultimately show ?thesis
    unfolding withdraw_ok_iff [OF dusty_wf] dusty_next
    by (simp add: dusty_storage_def reaping_runtime_def reaping_transfer_def runtime_config_def)
qed

text \<open>The calls that are no deposits leave an empty treasury empty.\<close>

definition is_deposit :: "'a Call \<Rightarrow> bool" where
  "is_deposit c = (case c of Deposit _ _ \<Rightarrow> True | _ \<Rightarrow> False)"

lemma empty_treasury_pays_nobody:
  assumes laws: "currency_laws rt free ed" and "free (ledger s) (pool_account rt) = 0" and "r \<noteq> pool_account rt"
  shows "\<not> is_Ok (withdraw cfg rt origin pr root nuls outs r amt s)"
proof
  assume "is_Ok (withdraw cfg rt origin pr root nuls outs r amt s)"
  then obtain s' where w: "withdraw cfg rt origin pr root nuls outs r amt s = Ok s'" by (auto simp: is_Ok_iff)
  then have "0 < amt" by (auto elim: withdraw_OkE)
  moreover have "currency_transfer rt (pool_account rt) r amt AllowDeath (ledger s) = Some (ledger s')"
    using dispatch_balance [of cfg rt s "(origin, Withdraw pr root nuls outs r amt)" s'] w by simp
  ultimately show False using currency_lawsD(2) [OF laws] assms(2,3) by force
qed

lemma dispatch_keeps_empty:
  assumes laws: "currency_laws rt free ed" and empty: "free (ledger s) (pool_account rt) = 0"
    and "\<not> is_deposit (snd c)" and ok: "dispatch cfg rt s c = Ok s'"
  shows "free (ledger s') (pool_account rt) = 0"
proof (cases c rule: leaves_of.cases)
  case (3 o' pr root nuls outs r n)
  with ok empty_treasury_pays_nobody [OF laws empty, of r cfg o' pr root nuls outs n] have "r = pool_account rt"
    by (auto simp: is_Ok_def)
  then show ?thesis using currency_lawsD(1) [OF laws] dispatch_balance [OF ok] 3 empty by fastforce
qed (use assms dispatch_balance [OF ok] in \<open>auto simp: is_deposit_def\<close>)

text \<open>
  C10: a withdrawal that leaves less than the existential deposit strands what the pool still owes. Whatever the storage, if the
  currency removes such a remainder with the account, an accepted withdrawal to somebody else that empties the treasury
  below the existential deposit but not \<open>PoolBalance\<close> leaves a positive \<open>PoolBalance\<close> and no funds: the
  recorded balance is no longer covered, and until somebody deposits, no sequence of calls brings funds back and no
  withdrawal to another account goes through.
\<close>

theorem pallet_dust_breaks_solvency:
  assumes "currency_laws rt free ed" and "reaps_dust rt free ed"
    and "withdraw cfg rt origin pr root nuls outs r amt s = Ok s'" and "r \<noteq> pool_account rt"
    and "free (ledger s) (pool_account rt) < amt + ed" and "amt < PoolBalance s"
    and "list_all (\<lambda>c. \<not> is_deposit (snd c)) cs"
  shows "PoolBalance s' = PoolBalance s - amt \<and> 0 < PoolBalance s' \<and> free (ledger s') (pool_account rt) = 0 \<and>
    (let t = run (dispatch cfg rt) s' cs
     in free (ledger t) (pool_account rt) = 0 \<and>
        (r' \<noteq> pool_account rt \<longrightarrow> \<not> is_Ok (withdraw cfg rt origin' pr' root' nuls' outs' r' amt' t)))"
proof -
  have w: "PoolBalance s' = PoolBalance s - amt"
    and t: "currency_transfer rt (pool_account rt) r amt AllowDeath (ledger s) = Some (ledger s')"
    using dispatch_balance [of cfg rt s "(origin, Withdraw pr root nuls outs r amt)" s'] assms(3) by simp_all
  have "free (ledger s) (pool_account rt) - amt < ed"
    using currency_lawsD(2) [OF assms(1) t] assms(4,5) by fastforce
  then have e: "free (ledger s') (pool_account rt) = 0" using assms(2,4) t unfolding reaps_dust_def by metis
  have "free (ledger (run (dispatch cfg rt) s' cs)) (pool_account rt) = 0"
    by (rule run_invariant_on [where I = "\<lambda>s. free (ledger s) (pool_account rt) = 0", OF e assms(7)])
      (rule dispatch_keeps_empty [OF assms(1)])
  then show ?thesis using w e assms(6) empty_treasury_pays_nobody [OF assms(1)] by (simp add: Let_def)
qed

theorem pallet_dust_breaks_solvency_witness:
  "\<exists>s'. withdraw runtime_config reaping_runtime (Signed 5) (replicate 32 0 @ replicate 160 1) 1 (2, 3)
          (4, 5) 6 1000000000 dusty_storage = Ok s' \<and>
     PoolBalance dusty_storage = ledger dusty_storage 0 \<and> PoolBalance s' = 1 \<and> ledger s' 0 = 0 \<and>
     \<not> is_Ok (withdraw runtime_config reaping_runtime (Signed 5) [] 1 (7, 8) (4, 5) 6 1
                (run (dispatch runtime_config reaping_runtime) s' [(Root, FinalizeEpoch)]))"
proof -
  obtain s' where ok: "withdraw runtime_config reaping_runtime (Signed 5)
      (replicate 32 0 @ replicate 160 1) 1 (2, 3) (4, 5) 6 1000000000 dusty_storage = Ok s'"
    using dusty_withdraw_ok by (auto simp: is_Ok_iff)
  have d: "PoolBalance dusty_storage = 1000000001" "ledger dusty_storage 0 = 1000000001" "pool_account reaping_runtime = 0"
    by (simp_all add: dusty_storage_def reaping_runtime_def)
  show ?thesis
    using pallet_dust_breaks_solvency [OF reaping_laws reaping_reaps ok, of "[(Root, FinalizeEpoch)]" 6
        "Signed 5" "[]" 1 "(7, 8)" "(4, 5)" 1] ok d
    by (simp add: runtime_existential_deposit_def is_deposit_def Let_def)
qed

section \<open>Epochs\<close>

text \<open>The record of a closed epoch commits to the nullifiers listed for it.\<close>

definition epoch_closed :: "('a, 'l) Storage \<Rightarrow> nat \<Rightarrow> bool" where
  "epoch_closed s e = (case Epochs s e of None \<Rightarrow> False | Some ep \<Rightarrow>
     finalized ep \<and> end_block ep \<noteq> None \<and>
     nullifier_root ep = compute_nullifier_root (get [] (EpochNullifiers s) e) \<and>
     nullifier_count ep = length (get [] (EpochNullifiers s) e) mod 2 ^ 32)"

definition epoch_open :: "('a, 'l) Storage \<Rightarrow> nat \<Rightarrow> bool" where
  "epoch_open s e = (case Epochs s e of None \<Rightarrow> False | Some ep \<Rightarrow> \<not> finalized ep)"

definition epochs_wf :: "('a, 'l) Storage \<Rightarrow> bool" where
  "epochs_wf s \<longleftrightarrow> list_all (epoch_closed s) [0..<CurrentEpochId s] \<and> epoch_open s (CurrentEpochId s)"

lemma dispatch_epoch_records:
  assumes ok: "dispatch cfg rt s c = Ok s'" and "snd c \<noteq> FinalizeEpoch"
  shows "Epochs s' = Epochs s"
  using assms
  by (cases c rule: leaves_of.cases)
    (auto elim!: deposit_OkE transfer_OkE withdraw_OkE sync_epoch_root_OkE
      simp: check_and_spend_Ok insert_leaf_frame)

lemma dispatch_epochs_wf:
  assumes wf: "epochs_wf s" and ok: "dispatch cfg rt s c = Ok s'"
  shows "epochs_wf s'"
proof (cases "snd c = FinalizeEpoch")
  case True
  then have "finalize_epoch (fst c) s = Ok s'" using ok by (cases c) auto
  then show ?thesis
  proof (rule finalize_epoch_OkE)
    fix epoch
    assume s': "s' = deposit_event
       (EpochFinalized (CurrentEpochId s)
         (compute_nullifier_root (get [] (EpochNullifiers s) (CurrentEpochId s)))
         (length (get [] (EpochNullifiers s) (CurrentEpochId s)) mod 2 ^ 32))
       (s\<lparr>CurrentEpochId := CurrentEpochId s + 1,
          Epochs := (Epochs s)
            (CurrentEpochId s \<mapsto> epoch\<lparr>
               nullifier_root := compute_nullifier_root (get [] (EpochNullifiers s) (CurrentEpochId s)),
               nullifier_count := length (get [] (EpochNullifiers s) (CurrentEpochId s)) mod 2 ^ 32,
               end_block := Some (block_number s), finalized := True\<rparr>,
             CurrentEpochId s + 1 \<mapsto> \<lparr>start_block = block_number s, end_block = None,
               nullifier_root = 0, nullifier_count = 0, finalized = False\<rparr>)\<rparr>)"
    then have en: "EpochNullifiers s' = EpochNullifiers s" "CurrentEpochId s' = CurrentEpochId s + 1"
      and old: "\<And>e. e < CurrentEpochId s \<Longrightarrow> Epochs s' e = Epochs s e"
      by simp_all
    have "epoch_closed s' e" if "epoch_closed s e" "e < CurrentEpochId s" for e
      using that by (simp add: epoch_closed_def en old split: option.splits)
    moreover have "epoch_closed s' (CurrentEpochId s)" "epoch_open s' (CurrentEpochId s + 1)"
      by (simp_all add: s' epoch_closed_def epoch_open_def)
    ultimately show ?thesis
      using wf by (auto simp: en epochs_wf_def list_all_iff less_Suc_eq)
  qed
next
  case False
  note led = dispatch_ledger(4,5) [OF ok] and rec = dispatch_epoch_records [OF ok False]
  have "epoch_closed s' e \<longleftrightarrow> epoch_closed s e" if "e < CurrentEpochId s" for e
    using that by (simp add: epoch_closed_def rec led(1) split: option.splits)
  with wf led(2) False rec show ?thesis
    by (simp add: epochs_wf_def epoch_open_def list_all_iff)
qed

lemma genesis_epochs_wf: "epochs_wf (genesis cfg l)"
  by (simp add: epochs_wf_def epoch_open_def)

text \<open>
  C4: the epochs form a ledger of the spent nullifiers. After any sequence of calls from genesis, the
  lists of the epochs so far, one after the other, are exactly the nullifiers of the calls that
  went through in the order they went through; every epoch before the current one is finalized with
  the root and the count of its own list; the current one is open.
\<close>

theorem pallet_epoch_ledger:
  "let s = run (dispatch cfg rt) (genesis cfg l) cs
   in concat (map (get [] (EpochNullifiers s)) [0..<Suc (CurrentEpochId s)])
        = concat (map nulls_of (committed (dispatch cfg rt) (genesis cfg l) cs)) \<and>
      list_all (epoch_closed s) [0..<CurrentEpochId s] \<and> epoch_open s (CurrentEpochId s)"
proof -
  let ?s = "run (dispatch cfg rt) (genesis cfg l) cs"
  have "epochs_wf ?s"
    by (rule run_invariant [where I = epochs_wf]) (rule genesis_epochs_wf, rule dispatch_epochs_wf)
  moreover have "concat (map (get [] (EpochNullifiers ?s)) [0..<Suc (CurrentEpochId ?s)])
        = concat (map nulls_of (committed (dispatch cfg rt) (genesis cfg l) cs))"
    by (rule pallet_ledger.epochs_partition) simp
  ultimately show ?thesis by (simp add: epochs_wf_def Let_def)
qed

text \<open>
  A closed epoch is immutable: no later sequence of calls changes the list of nullifiers of an epoch
  before the current one, and only the root origin moves the current epoch, by one at a time.
\<close>

lemma pallet_closed_epoch_immutable:
  assumes "e < CurrentEpochId s"
  shows "get [] (EpochNullifiers (run (dispatch cfg rt) s cs)) e = get [] (EpochNullifiers s) e \<and>
    CurrentEpochId s \<le> CurrentEpochId (run (dispatch cfg rt) s cs) \<and>
    (origin \<noteq> Root \<longrightarrow> finalize_epoch origin s = Err BadOrigin)"
proof -
  have "finalize_epoch origin s = Err BadOrigin" if "origin \<noteq> Root"
    using that by (cases origin) (auto simp: finalize_epoch_def ensure_root_def)
  with pallet_ledger.closed_epoch_fixed [OF assms] pallet_ledger.run_cur_mono show ?thesis by blast
qed

theorem pallet_closed_epoch_immutable_witness:
  "get [] (EpochNullifiers (run (dispatch runtime_config sample_runtime)
       (tiny_storage\<lparr>CurrentEpochId := 1, EpochNullifiers := [0 \<mapsto> [2, 3]]\<rparr>) [(Root, FinalizeEpoch)])) 0 = [2, 3]"
  using pallet_closed_epoch_immutable [of 0 "tiny_storage\<lparr>CurrentEpochId := 1, EpochNullifiers := [0 \<mapsto> [2, 3]]\<rparr>"
      runtime_config sample_runtime "[(Root, FinalizeEpoch)]" Root]
  by simp

section \<open>Withdrawals\<close>

text \<open>
  C3: a withdrawal goes through exactly when the caller is signed, the amount is positive and covered by
  the pool, the root is recent, the two nullifiers are different, unspent and fit in the epoch, the
  proof verifies, two leaves fit in the tree and the currency pays; then the recipient is paid by the
  currency, \<open>PoolBalance\<close> falls by the amount and both nullifiers are spent.
\<close>

theorem pallet_withdraw_exact:
  assumes "wf_index cfg s"
  shows "is_Ok (withdraw cfg rt origin pr root nuls outs recipient amt s) =
      ((\<exists>who. origin = Signed who) \<and> 0 < amt \<and> amt \<le> PoolBalance s \<and>
       is_known_root cfg root s \<and> spendable cfg nuls s \<and>
       verify_withdraw (blake2_256 rt) pr
         \<lparr>w_merkle_root = root, w_nullifiers = nuls, w_output_commitments = outs, exit_value = amt\<rparr> \<and>
       NextLeafIndex s + 2 \<le> 2 ^ TreeDepth cfg \<and>
       currency_transfer rt (pool_account rt) recipient amt AllowDeath (ledger s) \<noteq> None) \<and>
    (withdraw cfg rt origin pr root nuls outs recipient amt s = Ok s' \<longrightarrow>
      currency_transfer rt (pool_account rt) recipient amt AllowDeath (ledger s) = Some (ledger s') \<and>
      PoolBalance s' + amt = PoolBalance s \<and>
      get False (NullifierSpent s') (fst nuls) \<and> get False (NullifierSpent s') (snd nuls))"
proof -
  let ?c = "(origin, Withdraw pr root nuls outs recipient amt)"
  have "currency_transfer rt (pool_account rt) recipient amt AllowDeath (ledger s) = Some (ledger s') \<and>
      PoolBalance s' + amt = PoolBalance s \<and>
      get False (NullifierSpent s') (fst nuls) \<and> get False (NullifierSpent s') (snd nuls)"
    if "dispatch cfg rt s ?c = Ok s'"
    using dispatch_balance [OF that] dispatch_ledger(3) [OF that] by simp
  then show ?thesis
    unfolding withdraw_ok_iff [OF assms] by simp
qed

theorem pallet_withdraw_exact_witness:
  "\<exists>s'. withdraw runtime_config reaping_runtime (Signed 5) (replicate 32 0 @ replicate 160 1) 1 (2, 3)
          (4, 5) 6 1000000000 dusty_storage = Ok s' \<and>
     PoolBalance s' = 1 \<and> get False (NullifierSpent s') 2 \<and> get False (NullifierSpent s') 3"
proof -
  obtain s' where ok: "withdraw runtime_config reaping_runtime (Signed 5)
      (replicate 32 0 @ replicate 160 1) 1 (2, 3) (4, 5) 6 1000000000 dusty_storage = Ok s'"
    using dusty_withdraw_ok by (auto simp: is_Ok_iff)
  moreover have "PoolBalance dusty_storage = 1000000001" by (simp add: dusty_storage_def)
  ultimately show ?thesis
    using pallet_withdraw_exact [OF dusty_wf, of reaping_runtime "Signed 5"
        "replicate 32 0 @ replicate 160 1" 1 "(2, 3)" "(4, 5)" 6 1000000000 s'] by auto
qed

end
