(* ===== verification/Pallet_Xcm.thy ===== *)
theory Pallet_Xcm
  imports Pallet_Properties
begin

text \<open>
  The XCM messages of the pallet (\<open>pallets/privacy-pool/src/xcm_handler.rs\<close>). The derived SCALE codec is
  a parameter; what the code relies on is that decoding inverts encoding of fields within their widths, also when bytes
  follow. Together with the dispatchables of the pallet they carry the root of a closed epoch to another parachain.
\<close>

datatype PrivacyXcmMessage =
    SyncEpochRoot nat nat h256 nat
  | VerifyNullifier nat h256 nat
  | NullifierStatus nat h256 bool nat
  | RegisterChain nat nat h256

record ScaleCodec =
  encode :: "PrivacyXcmMessage \<Rightarrow> u8 list"
  decode :: "u8 list \<Rightarrow> PrivacyXcmMessage option"

definition encode_for_xcm :: "ScaleCodec \<Rightarrow> PrivacyXcmMessage \<Rightarrow> u8 list" where
  "encode_for_xcm c msg = 0x50 # encode c msg"

definition decode_from_xcm :: "ScaleCodec \<Rightarrow> u8 list \<Rightarrow> PrivacyXcmMessage option" where
  "decode_from_xcm c data =
     (case data of [] \<Rightarrow> None | b # rest \<Rightarrow> if b \<noteq> 0x50 then None else decode c rest)"

definition build_sync_epoch_root_xcm :: "ScaleCodec \<Rightarrow> nat \<Rightarrow> nat \<Rightarrow> nat \<Rightarrow> h256 \<Rightarrow> nat \<Rightarrow> u8 list" where
  "build_sync_epoch_root_xcm c target_para_id source_para_id epoch_id root count =
     encode_for_xcm c (SyncEpochRoot source_para_id epoch_id root count)"

definition build_verify_nullifier_xcm :: "ScaleCodec \<Rightarrow> nat \<Rightarrow> h256 \<Rightarrow> nat \<Rightarrow> u8 list" where
  "build_verify_nullifier_xcm c requester_para_id nullifier nonce =
     encode_for_xcm c (VerifyNullifier requester_para_id nullifier nonce)"

datatype PrivacyXcmAction =
    StoreRemoteEpochRoot nat nat h256 nat
  | CheckNullifierAndRespond nat h256 nat
  | ProcessNullifierResponse nat h256 bool nat
  | RegisterRemoteChain nat nat h256

definition process_incoming :: "ScaleCodec \<Rightarrow> u8 list \<Rightarrow> PrivacyXcmAction option" where
  "process_incoming c data =
     (case decode_from_xcm c data of
        None \<Rightarrow> None
      | Some msg \<Rightarrow>
          (case msg of
             SyncEpochRoot para epoch root count \<Rightarrow> Some (StoreRemoteEpochRoot para epoch root count)
           | VerifyNullifier para nullifier nonce \<Rightarrow> Some (CheckNullifierAndRespond para nullifier nonce)
           | NullifierStatus para nullifier spent nonce \<Rightarrow> Some (ProcessNullifierResponse para nullifier spent nonce)
           | RegisterChain para app config_hash \<Rightarrow> Some (RegisterRemoteChain para app config_hash)))"

record BroadcastConfig =
  target_parachains :: "nat list"
  include_relay_chain :: bool

definition default_broadcast :: BroadcastConfig where
  "default_broadcast = \<lparr>target_parachains = [], include_relay_chain = False\<rparr>"

text \<open>The fields fit the widths the message declares for them.\<close>

fun well_sized :: "PrivacyXcmMessage \<Rightarrow> bool" where
  "well_sized (SyncEpochRoot para epoch root count) \<longleftrightarrow> para < 2 ^ 32 \<and> epoch < 2 ^ 64 \<and> count < 2 ^ 32"
| "well_sized (VerifyNullifier para nul nonce) \<longleftrightarrow> para < 2 ^ 32 \<and> nonce < 2 ^ 64"
| "well_sized (NullifierStatus para nul spent nonce) \<longleftrightarrow> para < 2 ^ 32 \<and> nonce < 2 ^ 64"
| "well_sized (RegisterChain para app config_hash) \<longleftrightarrow> para < 2 ^ 32 \<and> app < 2 ^ 32"

definition codec_inverts :: "ScaleCodec \<Rightarrow> bool" where
  "codec_inverts c \<longleftrightarrow> (\<forall>m rest. well_sized m \<longrightarrow> decode c (encode c m @ rest) = Some m)"

lemma xcm_roundtrip: "codec_inverts c \<Longrightarrow> well_sized m \<Longrightarrow> decode_from_xcm c (encode_for_xcm c m @ rest) = Some m"
  by (simp add: decode_from_xcm_def encode_for_xcm_def codec_inverts_def)

text \<open>A message that is sent arrives as the matching action; a payload of another kind is ignored; payloads
  determine the message.\<close>

lemma xcm_delivery:
  assumes "codec_inverts c"
  shows "para < 2 ^ 32 \<Longrightarrow> epoch < 2 ^ 64 \<Longrightarrow> count < 2 ^ 32 \<Longrightarrow>
      process_incoming c (build_sync_epoch_root_xcm c target para epoch root count) = Some (StoreRemoteEpochRoot para epoch root count)"
    and "para < 2 ^ 32 \<Longrightarrow> nonce < 2 ^ 64 \<Longrightarrow>
      process_incoming c (build_verify_nullifier_xcm c para nul nonce) = Some (CheckNullifierAndRespond para nul nonce)"
    and "well_sized m \<Longrightarrow> well_sized m' \<Longrightarrow> encode_for_xcm c m = encode_for_xcm c m' \<longleftrightarrow> m = m'"
    and "b \<noteq> 0x50 \<Longrightarrow> process_incoming c (b # data) = None"
  using xcm_roundtrip [OF assms, of _ "[]"]
  by (auto simp: process_incoming_def build_sync_epoch_root_xcm_def build_verify_nullifier_xcm_def decode_from_xcm_def)
    (metis option.inject)

lemma finalize_epoch_effect:
  assumes "finalize_epoch Root a = Ok a'"
  defines "e \<equiv> CurrentEpochId a" and "nuls \<equiv> get [] (EpochNullifiers a) (CurrentEpochId a)"
  shows "e < 2 ^ 64" "last (events a') = EpochFinalized e (compute_nullifier_root nuls) (length nuls mod 2 ^ 32)"
    "\<exists>epoch. Epochs a' e = Some epoch \<and> finalized epoch \<and> nullifier_root epoch = compute_nullifier_root nuls"
  using assms by (auto simp: finalize_epoch_def ensure_root_def deposit_event_def uadd_def result_simps Let_def split: if_splits)

text \<open>
  C31: an epoch root travels between two parachains unchanged. When the pool of the source chain closes an epoch, the message
  built from the event decodes at the other end to the action to store exactly that root, which is the root recorded for the
  epoch and the hash chain over its nullifiers. Carrying the action out through \<open>sync_epoch_root\<close> with the root origin makes
  the root readable under the source chain and the epoch and leaves every other remote root alone; only a zero root, which an
  epoch without nullifiers has, is refused.
\<close>

theorem xcm_epoch_sync:
  assumes "codec_inverts c" and "finalize_epoch Root a = Ok a'" and "ParaId cfg < 2 ^ 32"
  shows "\<exists>e root count. last (events a') = EpochFinalized e root count \<and>
    root = compute_nullifier_root (get [] (EpochNullifiers a) e) \<and> map_option nullifier_root (Epochs a' e) = Some root \<and>
    process_incoming c (build_sync_epoch_root_xcm c target (ParaId cfg) e root count)
      = Some (StoreRemoteEpochRoot (ParaId cfg) e root count) \<and>
    (get [] (EpochNullifiers a) e = [] \<longrightarrow> root = 0) \<and>
    (if root = 0 then sync_epoch_root Root (ParaId cfg) e root b = Err InvalidNullifierRoot
     else \<exists>b'. sync_epoch_root Root (ParaId cfg) e root b = Ok b' \<and>
       RemoteEpochRoots b' = (RemoteEpochRoots b)((ParaId cfg, e) \<mapsto> root) \<and> NullifierSpent b' = NullifierSpent b)"
proof -
  let ?e = "CurrentEpochId a"
  let ?nuls = "get [] (EpochNullifiers a) ?e"
  let ?root = "compute_nullifier_root ?nuls" and ?count = "length ?nuls mod 2 ^ 32"
  have "?count < 2 ^ 32" by (rule mod_less_divisor) simp
  with finalize_epoch_effect(1) [OF assms(2)] have
    "process_incoming c (build_sync_epoch_root_xcm c target (ParaId cfg) ?e ?root ?count) = Some (StoreRemoteEpochRoot (ParaId cfg) ?e ?root ?count)"
    using xcm_delivery(1) [OF assms(1,3)] by blast
  moreover have "?nuls = [] \<longrightarrow> ?root = 0" by (simp add: compute_nullifier_root_def)
  moreover have "if ?root = 0 then sync_epoch_root Root (ParaId cfg) ?e ?root b = Err InvalidNullifierRoot
     else \<exists>b'. sync_epoch_root Root (ParaId cfg) ?e ?root b = Ok b' \<and>
       RemoteEpochRoots b' = (RemoteEpochRoots b)((ParaId cfg, ?e) \<mapsto> ?root) \<and> NullifierSpent b' = NullifierSpent b"
    by (simp add: sync_epoch_root_def ensure_root_def ensure_def deposit_event_def)
  ultimately show ?thesis using finalize_epoch_effect(2,3) [OF assms(2)] by (metis option.map(2))
qed

text \<open>A codec in the format of the library: the index of the variant, then the fields, integers with the low byte first.\<close>

definition le :: "nat \<Rightarrow> nat \<Rightarrow> u8 list" where
  "le k n = rev (be_bytes k n)"

definition unle :: "u8 list \<Rightarrow> nat" where
  "unle bs = from_be_bytes (rev bs)"

definition unh256 :: "u8 list \<Rightarrow> h256" where
  "unh256 bs = of_nat (from_be_bytes bs)"

fun scale_encode :: "PrivacyXcmMessage \<Rightarrow> u8 list" where
  "scale_encode (SyncEpochRoot para epoch root count) = 0 # le 4 para @ le 8 epoch @ h256_bytes root @ le 4 count"
| "scale_encode (VerifyNullifier para nul nonce) = 1 # le 4 para @ h256_bytes nul @ le 8 nonce"
| "scale_encode (NullifierStatus para nul spent nonce) =
     2 # le 4 para @ h256_bytes nul @ [if spent then 1 else 0] @ le 8 nonce"
| "scale_encode (RegisterChain para app config_hash) = 3 # le 4 para @ le 4 app @ h256_bytes config_hash"

definition field :: "nat \<Rightarrow> nat \<Rightarrow> u8 list \<Rightarrow> u8 list" where
  "field i n bs = take n (drop i bs)"

fun scale_decode :: "u8 list \<Rightarrow> PrivacyXcmMessage option" where
  "scale_decode [] = None"
| "scale_decode (v # bs) =
     (if v = 0 \<and> length bs \<ge> 48
      then Some (SyncEpochRoot (unle (field 0 4 bs)) (unle (field 4 8 bs)) (unh256 (field 12 32 bs)) (unle (field 44 4 bs)))
      else if v = 1 \<and> length bs \<ge> 44
      then Some (VerifyNullifier (unle (field 0 4 bs)) (unh256 (field 4 32 bs)) (unle (field 36 8 bs)))
      else if v = 2 \<and> length bs \<ge> 45 \<and> bs ! 36 \<le> 1
      then Some (NullifierStatus (unle (field 0 4 bs)) (unh256 (field 4 32 bs)) (bs ! 36 = 1) (unle (field 37 8 bs)))
      else if v = 3 \<and> length bs \<ge> 40
      then Some (RegisterChain (unle (field 0 4 bs)) (unle (field 4 4 bs)) (unh256 (field 8 32 bs)))
      else None)"

lemma le_facts [simp]: "length (le k n) = k" "n < 256 ^ k \<Longrightarrow> unle (le k n) = n" "unh256 (h256_bytes h) = h"
  by (simp_all add: le_def unle_def unh256_def from_be_be_bytes)

lemma field_append [simp]:
  "length xs = i \<Longrightarrow> length ys = n \<Longrightarrow> field i n (xs @ ys @ zs) = ys"
  "length ys = n \<Longrightarrow> field 0 n (ys @ zs) = ys"
  by (simp_all add: field_def)

lemma scale_codec_inverts: "codec_inverts \<lparr>encode = scale_encode, decode = scale_decode\<rparr>"
  unfolding codec_inverts_def
proof (intro allI impI)
  fix m rest
  assume "well_sized m"
  then show "decode \<lparr>encode = scale_encode, decode = scale_decode\<rparr> (encode \<lparr>encode = scale_encode, decode = scale_decode\<rparr> m @ rest) = Some m"
    by (cases m) (simp_all add: field_def nth_append)
qed

definition closing_storage :: "(nat, nat \<Rightarrow> nat) Storage" where
  "closing_storage = (genesis tiny_config sample_balances)\<lparr>EpochNullifiers := [0 \<mapsto> [5]]\<rparr>"

theorem xcm_epoch_sync_witness:
  "\<exists>b'. sync_epoch_root Root 7 0 5 closing_storage = Ok b' \<and> RemoteEpochRoots b' (7, 0) = Some 5"
proof -
  let ?c = "\<lparr>encode = scale_encode, decode = scale_decode\<rparr>"
  obtain a' where a: "finalize_epoch Root closing_storage = Ok a'" and ev: "last (events a') = EpochFinalized 0 5 1"
    by (simp add: finalize_epoch_def closing_storage_def genesis_def tiny_config_def ensure_root_def of_option_def
        ensure_def uadd_def compute_nullifier_root_def deposit_event_def)
  have "ParaId tiny_config = 7" by (simp add: tiny_config_def)
  with xcm_epoch_sync [OF scale_codec_inverts a, of tiny_config 0 closing_storage] ev show ?thesis by auto
qed

end
