(* ===== verification/Pallet_Benchmarks.thy ===== *)
theory Pallet_Benchmarks
  imports Pallet_Properties
begin

text \<open>
  The benchmarks of the pallet (\<open>pallets/privacy-pool/src/benchmarking.rs\<close>) run on the model of the pallet. The
  framework makes accounts and sets balances; both are parameters. A failed extrinsic ends a benchmark with its error,
  \<open>expect\<close> and \<open>assert!\<close> panic.
\<close>

section \<open>Set-up\<close>

record ('a, 'l) Benchmarking =
  account :: "string \<Rightarrow> nat \<Rightarrow> nat \<Rightarrow> 'a"
  make_free_balance_be :: "'a \<Rightarrow> nat \<Rightarrow> 'l \<Rightarrow> 'l"

definition funded_account ::
  "('a, 'l) Benchmarking \<Rightarrow> string \<Rightarrow> nat \<Rightarrow> ('a, 'l) Storage \<Rightarrow> 'a \<times> ('a, 'l) Storage" where
  "funded_account b name index s =
     (let caller = account b name index 0
      in (caller, s\<lparr>ledger := make_free_balance_be b caller 1000000000000 (ledger s)\<rparr>))"

definition mock_commitment :: "u8 \<Rightarrow> h256" where
  "mock_commitment seed = of_nat (from_be_bytes (seed # replicate 30 0 @ [seed + 1]))"

definition mock_proof :: "u8 list" where
  "mock_proof = replicate 128 1"

definition expect :: "('e, 'a) result \<Rightarrow> ('e, 'a) result" where
  "expect r = (case r of Ok x \<Rightarrow> Ok x | _ \<Rightarrow> Panic)"

section \<open>The five benchmarks\<close>

definition benchmark_deposit ::
  "Config \<Rightarrow> ('a, 'l) Runtime \<Rightarrow> ('a, 'l) Benchmarking \<Rightarrow> ('a, 'l) Storage \<Rightarrow> (Error, ('a, 'l) Storage) result" where
  "benchmark_deposit cfg rt b s =
     (let (caller, s) = funded_account b ''depositor'' 0 s;
          commitment = mock_commitment 1;
          amount = 1000000 in
      bind_result (deposit cfg rt (Signed caller) commitment amount s) (\<lambda>s.
      bind_result (assert_or_panic (get False (CommitmentExists s) commitment)) (\<lambda>_. Ok s)))"

definition benchmark_transfer ::
  "Config \<Rightarrow> ('a, 'l) Runtime \<Rightarrow> ('a, 'l) Benchmarking \<Rightarrow> ('a, 'l) Storage \<Rightarrow> (Error, ('a, 'l) Storage) result" where
  "benchmark_transfer cfg rt b s =
     (let (caller, s) = funded_account b ''transferor'' 0 s;
          cm0 = mock_commitment 10;
          cm1 = mock_commitment 11 in
      bind_result (expect (deposit cfg rt (Signed caller) cm0 1000000 s)) (\<lambda>s.
      bind_result (expect (deposit cfg rt (Signed caller) cm1 1000000 s)) (\<lambda>s.
      let root = get_latest_root s;
          nuls = (mock_commitment 20, mock_commitment 21);
          outs = (mock_commitment 30, mock_commitment 31) in
      bind_result (transfer cfg rt (Signed caller) mock_proof root nuls outs s) (\<lambda>s.
      bind_result (assert_or_panic (get False (NullifierSpent s) (fst nuls))) (\<lambda>_.
      bind_result (assert_or_panic (get False (NullifierSpent s) (snd nuls))) (\<lambda>_. Ok s))))))"

definition benchmark_withdraw ::
  "Config \<Rightarrow> ('a, 'l) Runtime \<Rightarrow> ('a, 'l) Benchmarking \<Rightarrow> ('a, 'l) Storage \<Rightarrow> (Error, ('a, 'l) Storage) result" where
  "benchmark_withdraw cfg rt b s =
     (let (caller, s) = funded_account b ''withdrawer'' 0 s;
          (recipient, s) = funded_account b ''recipient'' 1 s;
          cm = mock_commitment 40 in
      bind_result (expect (deposit cfg rt (Signed caller) cm 10000000 s)) (\<lambda>s.
      let root = get_latest_root s;
          nuls = (mock_commitment 50, mock_commitment 51);
          outs = (mock_commitment 60, mock_commitment 61) in
      bind_result (withdraw cfg rt (Signed caller) mock_proof root nuls outs recipient 5000000 s) (\<lambda>s.
      bind_result (assert_or_panic (get False (NullifierSpent s) (fst nuls))) (\<lambda>_. Ok s))))"

definition benchmark_finalize_epoch ::
  "('a, 'l) Benchmarking \<Rightarrow> ('a, 'l) Storage \<Rightarrow> (Error, ('a, 'l) Storage) result" where
  "benchmark_finalize_epoch b s =
     (let (caller, s) = funded_account b ''finalizer'' 0 s in
      bind_result (finalize_epoch (Signed caller) s) (\<lambda>s.
      bind_result (assert_or_panic (CurrentEpochId s \<ge> 1)) (\<lambda>_. Ok s)))"

definition benchmark_sync_epoch_root ::
  "('a, 'l) Benchmarking \<Rightarrow> ('a, 'l) Storage \<Rightarrow> (Error, ('a, 'l) Storage) result" where
  "benchmark_sync_epoch_root b s =
     (let (caller, s) = funded_account b ''syncer'' 0 s in
      bind_result (sync_epoch_root (Signed caller) 2100 0 (mock_commitment 70) s) (\<lambda>s.
      bind_result (assert_or_panic (RemoteEpochRoots s (2100, 0) \<noteq> None)) (\<lambda>_. Ok s)))"

section \<open>What they measure\<close>

text \<open>The placeholder proof is shorter than any envelope the verifier accepts.\<close>

lemma mock_proof_refused:
  "\<not> verify_transfer digest mock_proof i" "\<not> verify_withdraw digest mock_proof j"
  by (simp_all add: mock_proof_def verify_transfer_def verify_withdraw_def size_defs)

lemma mock_spends_refused:
  "\<not> is_Ok (transfer cfg rt o' mock_proof root nuls outs s)"
  "\<not> is_Ok (withdraw cfg rt o' mock_proof root nuls outs recipient value s)"
  by (auto simp: is_Ok_iff transfer_def withdraw_def result_simps mock_proof_refused)

lemma not_Ok_bind: "(\<And>x. m = Ok x \<Longrightarrow> \<not> is_Ok (f x)) \<Longrightarrow> \<not> is_Ok (bind_result m f)"
  by (cases m) (auto simp: is_Ok_def)

lemma deposit_marks: "deposit cfg rt o' c n s = Ok s' \<Longrightarrow> get False (CommitmentExists s') c"
  by (auto simp: deposit_def insert_leaf_def deposit_event_def result_simps Let_def case_prod_unfold)

text \<open>
  Only the benchmark of \<open>deposit\<close> can succeed, exactly when its deposit does. From every storage and for every runtime, those
  of \<open>transfer\<close> and \<open>withdraw\<close> fail because the proof is refused, and those of \<open>finalize_epoch\<close> and
  \<open>sync_epoch_root\<close> because they sign as an ordinary account: no weight of those four calls can have been measured.
\<close>

lemma benchmarks_fail:
  "\<not> is_Ok (benchmark_transfer cfg rt b s)" "\<not> is_Ok (benchmark_withdraw cfg rt b s)"
  "benchmark_finalize_epoch b s = Err BadOrigin" "benchmark_sync_epoch_root b s = Err BadOrigin"
  "is_Ok (benchmark_deposit cfg rt b s) \<longleftrightarrow>
     is_Ok (deposit cfg rt (Signed (account b ''depositor'' 0 0)) (mock_commitment 1) 1000000 (snd (funded_account b ''depositor'' 0 s)))"
proof -
  have spend: "\<not> is_Ok (bind_result m f)" if "\<not> is_Ok m" for m :: "('e, 'x) result" and f :: "'x \<Rightarrow> ('e, 'y) result"
    using that by (cases m) (auto simp: is_Ok_def)
  show "\<not> is_Ok (benchmark_transfer cfg rt b s)" "\<not> is_Ok (benchmark_withdraw cfg rt b s)"
    unfolding benchmark_transfer_def benchmark_withdraw_def Let_def case_prod_unfold
    by (intro not_Ok_bind spend mock_spends_refused)+
  show "benchmark_finalize_epoch b s = Err BadOrigin" "benchmark_sync_epoch_root b s = Err BadOrigin"
    by (simp_all add: benchmark_finalize_epoch_def benchmark_sync_epoch_root_def funded_account_def finalize_epoch_def
        sync_epoch_root_def ensure_root_def Let_def)
  show "is_Ok (benchmark_deposit cfg rt b s) \<longleftrightarrow>
     is_Ok (deposit cfg rt (Signed (account b ''depositor'' 0 0)) (mock_commitment 1) 1000000 (snd (funded_account b ''depositor'' 0 s)))"
    using deposit_marks by (auto simp: is_Ok_iff benchmark_deposit_def funded_account_def Let_def result_simps)
qed

end
