(* ===== verification/Pallet_Weights.thy ===== *)
theory Pallet_Weights
  imports Pallet_Pool
begin

text \<open>
  The weights of the pallet's calls (\<open>pallets/privacy-pool/src/weights.rs\<close>) and those of the example runtime
  (\<open>runtime/src/lib.rs\<close>), and the comparison of the former with the cost model their own comments give.
\<close>

record Weight =
  ref_time :: nat
  proof_size :: nat

definition from_parts :: "nat \<Rightarrow> nat \<Rightarrow> Weight" where
  "from_parts t s = \<lparr>ref_time = t, proof_size = s\<rparr>"

fun SubstrateWeightInfo :: "'a Call \<Rightarrow> Weight" where
  "SubstrateWeightInfo (Deposit _ _) = from_parts 50000000 10000"
| "SubstrateWeightInfo (Transfer _ _ _ _) = from_parts 500000000 20000"
| "SubstrateWeightInfo (Withdraw _ _ _ _ _ _) = from_parts 600000000 25000"
| "SubstrateWeightInfo FinalizeEpoch = from_parts 200000000 15000"
| "SubstrateWeightInfo (SyncEpochRoot _ _ _) = from_parts 10000000 5000"

fun PrivacyPoolWeights :: "'a Call \<Rightarrow> Weight" where
  "PrivacyPoolWeights (Deposit _ _) = from_parts 150000000 0"
| "PrivacyPoolWeights (Transfer _ _ _ _) = from_parts 500000000 0"
| "PrivacyPoolWeights (Withdraw _ _ _ _ _ _) = from_parts 500000000 0"
| "PrivacyPoolWeights FinalizeEpoch = from_parts 1000000000 0"
| "PrivacyPoolWeights (SyncEpochRoot _ _ _) = from_parts 100000000 0"

section \<open>The cost model of the comments\<close>

text \<open>Picoseconds of a storage read, a storage write, a hash and a proof verification.\<close>

definition read_time :: nat where "read_time = 25 * 10 ^ 6"

definition write_time :: nat where "write_time = 100 * 10 ^ 6"

definition hash_time :: nat where "hash_time = 5 * 10 ^ 6"

definition verify_time :: nat where "verify_time = 50 * 10 ^ 9"

fun documented_time :: "'a Call \<Rightarrow> nat" where
  "documented_time (Deposit _ _) = 33 * read_time + 35 * write_time + 32 * hash_time"
| "documented_time (Transfer _ _ _ _) = verify_time + 67 * read_time + 68 * write_time + 64 * hash_time"
| "documented_time (Withdraw _ _ _ _ _ _) = verify_time + 68 * read_time + 69 * write_time + 64 * hash_time"
| "documented_time FinalizeEpoch = read_time + 3 * write_time"
| "documented_time (SyncEpochRoot _ _ _) = read_time + write_time"

text \<open>Every weight of the pallet is below the time its own comment accounts for, for transfers and withdrawals by a factor above ninety.\<close>

lemma weights_below_documented_time: "ref_time (SubstrateWeightInfo c) < documented_time c"
  by (cases c) (simp_all add: from_parts_def read_time_def write_time_def hash_time_def verify_time_def)

lemma proof_weights_factor:
  "90 * ref_time (SubstrateWeightInfo (Transfer a b d e)) < documented_time (Transfer a b d e)"
  "90 * ref_time (SubstrateWeightInfo (Withdraw a b d e x y)) < documented_time (Withdraw a b d e x y)"
  by (simp_all add: from_parts_def read_time_def write_time_def hash_time_def verify_time_def)

end
