(* ===== verification/Codec.thy ===== *)
theory Codec
  imports Pool_Prelude
begin

text \<open>
  Text codecs of the contracts: the decimal numbers that \<open>format!\<close> prints, the hexadecimal parser
  \<open>hex_to_32\<close> of the CosmWasm contract with the panics of slicing and unwrapping, and lower-case
  hexadecimal text as \<open>hex::encode\<close> documents it.
\<close>

section \<open>Decimal numbers\<close>

definition dec_digit :: "nat \<Rightarrow> char" where
  "dec_digit d = char_of (48 + d)"

fun dec :: "nat \<Rightarrow> string" where
  "dec n = (if n < 10 then [dec_digit n] else dec (n div 10) @ [dec_digit (n mod 10)])"

declare dec.simps [simp del]

definition undec :: "string \<Rightarrow> nat" where
  "undec s = foldl (\<lambda>a c. 10 * a + (of_char c - 48)) 0 s"

lemma of_char_dec_digit: "d < 10 \<Longrightarrow> of_char (dec_digit d) = 48 + d"
  by (simp add: dec_digit_def of_char_mod_256)

lemma undec_dec: "undec (dec n) = n"
proof (induction n rule: dec.induct)
  case (1 n)
  then show ?case
    by (subst dec.simps) (simp add: undec_def of_char_dec_digit)
qed

lemma dec_inj: "dec m = dec n \<longleftrightarrow> m = n"
  by (metis undec_dec)

lemma dec_digits: "c \<in> set (dec n) \<Longrightarrow> \<exists>d<10. c = dec_digit d"
proof (induction n rule: dec.induct)
  case (1 n)
  then show ?case
    by (subst (asm) dec.simps) (auto split: if_splits intro: exI [of _ "n mod 10"])
qed

lemma dec_not_Nil: "dec n \<noteq> []"
  by (subst dec.simps) simp

lemma dec_digit_neq: "d < 10 \<Longrightarrow> of_char c < (48 :: nat) \<or> 57 < (of_char c :: nat) \<Longrightarrow> dec_digit d \<noteq> c"
  using of_char_dec_digit by force

lemma dec_no_separator: "of_char c < (48 :: nat) \<or> 57 < (of_char c :: nat) \<Longrightarrow> c \<notin> set (dec n)"
  using dec_digits dec_digit_neq by blast

text \<open>Two numbers joined by a character that is not a digit determine the numbers.\<close>

lemma append_sep_eq:
  "c \<notin> set xs \<Longrightarrow> c \<notin> set us \<Longrightarrow> xs @ c # ys = us @ c # vs \<longleftrightarrow> xs = us \<and> ys = vs"
proof (induction xs arbitrary: us)
  case Nil
  then show ?case by (cases us) auto
next
  case (Cons x xs)
  then show ?case by (cases us) auto
qed

lemma dec_pair_eq:
  assumes "of_char c < (48 :: nat) \<or> 57 < (of_char c :: nat)"
  shows "dec a @ c # dec b = dec a' @ c # dec b' \<longleftrightarrow> a = a' \<and> b = b'"
  using append_sep_eq [OF dec_no_separator [OF assms] dec_no_separator [OF assms]]
  by (simp add: dec_inj)

section \<open>Hexadecimal numbers\<close>

definition hex_digit :: "char \<Rightarrow> nat option" where
  "hex_digit c =
     (let n = of_char c :: nat in
      if 48 \<le> n \<and> n \<le> 57 then Some (n - 48)
      else if 97 \<le> n \<and> n \<le> 102 then Some (n - 87)
      else if 65 \<le> n \<and> n \<le> 70 then Some (n - 55)
      else None)"

text \<open>\<open>u8::from_str_radix(_, 16)\<close>: an optional plus sign, then at least one digit, no overflow.\<close>

fun radix16_accum :: "nat \<Rightarrow> string \<Rightarrow> u8 option" where
  "radix16_accum acc [] = Some (of_nat acc)"
| "radix16_accum acc (c # cs) = (case hex_digit c of None \<Rightarrow> None
     | Some d \<Rightarrow> if acc * 16 + d < 256 then radix16_accum (acc * 16 + d) cs else None)"

definition u8_from_str_radix16 :: "string \<Rightarrow> u8 option" where
  "u8_from_str_radix16 s =
     (let s' = (case s of c # cs \<Rightarrow> if c = CHR ''+'' then cs else s | [] \<Rightarrow> [])
      in if s' = [] then None else radix16_accum 0 s')"

text \<open>\<open>&s[a..b]\<close> panics out of range and inside a character of more than one byte.\<close>

definition char_boundary :: "string \<Rightarrow> nat \<Rightarrow> bool" where
  "char_boundary s i \<longleftrightarrow> i = length s \<or> i < length s \<and> \<not> (128 \<le> (of_char (s ! i) :: nat) \<and> of_char (s ! i) < (192 :: nat))"

definition str_slice :: "string \<Rightarrow> nat \<Rightarrow> nat \<Rightarrow> ('e, string) result" where
  "str_slice s a b =
     (if a \<le> b \<and> char_boundary s a \<and> char_boundary s b then Ok (take (b - a) (drop a s)) else Panic)"

fun hex_loop :: "string \<Rightarrow> nat \<Rightarrow> nat \<Rightarrow> ('e, u8 list) result" where
  "hex_loop s i 0 = Ok []"
| "hex_loop s i (Suc k) =
     bind_result (str_slice s (i * 2) (i * 2 + 2)) (\<lambda>p.
     bind_result (unwrap (u8_from_str_radix16 p)) (\<lambda>b.
     bind_result (hex_loop s (Suc i) k) (\<lambda>bs. Ok (b # bs))))"

definition hex_to_32 :: "string \<Rightarrow> ('e, u8 list) result" where
  "hex_to_32 s = hex_loop s 0 32"

definition nibble :: "nat \<Rightarrow> char" where
  "nibble n = char_of (if n < 10 then 48 + n else 87 + n)"

lemma hex_loop_short:
  assumes "length s < i * 2 + 2" shows "hex_loop s i (Suc k) = Panic"
  using assms by (simp add: str_slice_def char_boundary_def)

definition lower_hex :: "u8 list \<Rightarrow> string" where
  "lower_hex bs = concat (map (\<lambda>b. [nibble (unat b div 16), nibble (unat b mod 16)]) bs)"

lemma of_char_nibble: "n < 16 \<Longrightarrow> of_char (nibble n) = (if n < 10 then 48 + n else 87 + n :: nat)"
  by (simp add: nibble_def of_char_mod_256)

lemma hex_digit_nibble: "n < 16 \<Longrightarrow> hex_digit (nibble n) = Some n"
  by (simp add: hex_digit_def of_char_nibble Let_def)

lemma nibble_not_plus: "n < 16 \<Longrightarrow> nibble n \<noteq> CHR ''+''"
  using of_char_nibble [of n] by (auto split: if_splits)

lemma from_str_radix16_pair:
  "u8_from_str_radix16 [nibble (unat b div 16), nibble (unat b mod 16)] = Some b"
proof -
  have hi: "unat b div 16 < 16" and lo: "unat b mod 16 < 16"
    using unat_u8_less [of b] by (auto simp: less_mult_imp_div_less)
  have sum: "unat b div 16 * 16 + unat b mod 16 = unat b" by simp
  have small: "unat b div 16 < 256" using hi by simp
  show ?thesis
    unfolding u8_from_str_radix16_def
    by (simp add: Let_def nibble_not_plus [OF hi] hex_digit_nibble [OF hi] hex_digit_nibble [OF lo]
        small sum del: unat_div unat_mod)
qed

lemma length_hex_loop: "hex_loop s i k = Ok bs \<Longrightarrow> length bs = k"
  by (induction k arbitrary: i bs) (auto simp: result_simps)

lemma length_hex_to_32: "hex_to_32 s = Ok bs \<Longrightarrow> length bs = 32"
  by (simp add: hex_to_32_def length_hex_loop)

lemma hex_loop_no_Err: "hex_loop s i k \<noteq> Err e"
  by (induction k arbitrary: i) (auto simp: result_simps str_slice_def)

lemma length_lower_hex [simp, bytes_simps]: "length (lower_hex bs) = 2 * length bs"
  by (induction bs) (auto simp: lower_hex_def)

lemma lower_hex_Cons: "lower_hex (b # bs) = nibble (unat b div 16) # nibble (unat b mod 16) # lower_hex bs"
  by (simp add: lower_hex_def)

lemma nibble_0: "nibble 0 = CHR ''0''"
  unfolding nibble_def by code_simp

lemma lower_hex_zeros: "lower_hex (replicate n 0) = replicate (2 * n) CHR ''0''"
  by (induction n) (simp_all add: lower_hex_def nibble_0)

lemma lower_hex_append: "lower_hex (as @ bs) = lower_hex as @ lower_hex bs"
  by (simp add: lower_hex_def)

lemma nibble_ascii: "n < 16 \<Longrightarrow> of_char (nibble n) < (128 :: nat)"
  by (simp add: of_char_nibble)

lemma lower_hex_ascii: "c \<in> set (lower_hex bs) \<Longrightarrow> of_char c < (128 :: nat)"
proof (induction bs)
  case (Cons b bs)
  have "unat b div 16 < 16" using unat_u8_less [of b] by (auto simp: less_mult_imp_div_less)
  with Cons nibble_ascii show ?case by (auto simp: lower_hex_Cons)
qed (simp add: lower_hex_def)

lemma ascii_boundary: "i \<le> length s \<Longrightarrow> (\<And>c. c \<in> set s \<Longrightarrow> of_char c < (128 :: nat)) \<Longrightarrow> char_boundary s i"
  unfolding char_boundary_def using nth_mem [of i s] by (metis le_neq_implies_less not_le)

lemma str_slice_lower_hex:
  "str_slice (lower_hex (as @ b # bs)) (length as * 2) (length as * 2 + 2)
     = Ok [nibble (unat b div 16), nibble (unat b mod 16)]"
proof -
  let ?s = "lower_hex (as @ b # bs)"
  have bd: "char_boundary ?s (length as * 2)" "char_boundary ?s (length as * 2 + 2)"
    by (rule ascii_boundary; use lower_hex_ascii in auto)+
  have "drop (length as * 2) ?s = lower_hex (b # bs)"
    by (simp add: lower_hex_append)
  then show ?thesis using bd by (simp add: str_slice_def lower_hex_Cons)
qed

lemma hex_loop_lower_hex:
  "hex_loop (lower_hex (as @ bs)) (length as) (length bs) = Ok bs"
proof (induction bs arbitrary: as)
  case (Cons b bs)
  then show ?case
    using Cons.IH [of "as @ [b]"]
    by (simp add: str_slice_lower_hex [simplified] from_str_radix16_pair unwrap_def)
qed simp

lemma hex_to_32_lower_hex: "length bs = 32 \<Longrightarrow> hex_to_32 (lower_hex bs) = Ok bs"
  using hex_loop_lower_hex [of "[]" bs] by (simp add: hex_to_32_def)

text \<open>A text of hexadecimal digits is read as the number the digits denote.\<close>

definition hex_val :: "char \<Rightarrow> nat" where
  "hex_val c = (case hex_digit c of Some d \<Rightarrow> d | None \<Rightarrow> 0)"

lemma hex_digit_less: "hex_digit c = Some d \<Longrightarrow> d < 16 \<and> of_char c < (128 :: nat)"
  by (auto simp: hex_digit_def Let_def split: if_splits)

lemma radix16_two_digits:
  assumes "hex_digit a = Some x" and "hex_digit b = Some y"
  shows "u8_from_str_radix16 [a, b] = Some (of_nat (16 * x + y))"
proof -
  have "a \<noteq> CHR ''+''" using assms(1) by (auto simp: hex_digit_def)
  moreover have "x * 16 + y < 256" "x < 256"
    using hex_digit_less [OF assms(1)] hex_digit_less [OF assms(2)] by auto
  ultimately show ?thesis
    using assms by (simp add: u8_from_str_radix16_def ac_simps)
qed

lemma str_slice_ascii:
  assumes "\<And>c. c \<in> set s \<Longrightarrow> of_char c < (128 :: nat)" and "a \<le> b" and "b \<le> length s"
  shows "str_slice s a b = Ok (take (b - a) (drop a s))"
  using assms by (auto simp: str_slice_def intro: ascii_boundary)

lemma hex_loop_digits:
  assumes "\<And>c. c \<in> set s \<Longrightarrow> hex_digit c \<noteq> None" and "2 * i + 2 * k \<le> length s"
  shows "\<exists>bs. (hex_loop s i k :: ('e, u8 list) result) = Ok bs \<and>
    (\<forall>a. foldl (\<lambda>a b. 256 * a + unat b) a bs =
         foldl (\<lambda>a c. 16 * a + hex_val c) a (take (2 * k) (drop (2 * i) s)))"
  using assms(2)
proof (induction k arbitrary: i)
  case (Suc k)
  have len: "2 * i + 2 \<le> length s" using Suc.prems by simp
  let ?c = "s ! (2 * i)" and ?d = "s ! (2 * i + 1)"
  have drop: "drop (2 * i) s = ?c # ?d # drop (2 * Suc i) s"
    using len by (simp add: Cons_nth_drop_Suc)
  have "?c \<in> set s" "?d \<in> set s" using len by simp_all
  with assms(1) obtain x y where xy: "hex_digit ?c = Some x" "hex_digit ?d = Some y"
    by (metis not_None_eq)
  have asc: "of_char c < (128 :: nat)" if "c \<in> set s" for c
    using assms(1) [OF that] hex_digit_less by blast
  have pair: "take 2 (drop (i * 2) s) = [?c, ?d]"
    using drop by (simp add: mult.commute)
  have ids: "i * 2 \<le> i * 2 + 2" "i * 2 + 2 \<le> length s" using len by auto
  note sl = str_slice_ascii [OF asc ids, simplified diff_add_inverse pair]
  obtain bs where tail: "(hex_loop s (Suc i) k :: ('e, u8 list) result) = Ok bs" and
    val: "\<And>a. foldl (\<lambda>a b. 256 * a + unat b) a bs =
         foldl (\<lambda>a c. 16 * a + hex_val c) a (take (2 * k) (drop (2 * Suc i) s))"
    using Suc.IH [of "Suc i"] Suc.prems by auto
  have byte: "unat (of_nat (16 * x + y) :: u8) = 16 * x + y"
    using hex_digit_less [OF xy(1)] hex_digit_less [OF xy(2)] by (simp add: unat_of_nat_u8 del: of_nat_add of_nat_mult)
  have "(hex_loop s i (Suc k) :: ('e, u8 list) result) = Ok (of_nat (16 * x + y) # bs)"
    by (simp only: hex_loop.simps sl radix16_two_digits [OF xy] unwrap_def option.case tail
        bind_result.simps)
  moreover have "foldl (\<lambda>a b. 256 * a + unat b) a (of_nat (16 * x + y) # bs) =
      foldl (\<lambda>a c. 16 * a + hex_val c) a (take (2 * Suc k) (drop (2 * i) s))" for a
  proof -
    have "hex_val ?c = x" "hex_val ?d = y" using xy by (simp_all add: hex_val_def)
    moreover have "16 * (16 * a + x) + y = 256 * a + (16 * x + y)" by simp
    ultimately show ?thesis
      using val [of "256 * a + (16 * x + y)"] byte by (simp add: drop add.assoc del: of_nat_add of_nat_mult)
  qed
  ultimately show ?case by blast
qed simp

lemma hex_to_32_digits:
  assumes "list_all (\<lambda>c. hex_digit c \<noteq> None) s" and "length s = 64"
  shows "\<exists>bs. hex_to_32 s = Ok bs \<and> from_be_bytes bs = foldl (\<lambda>a c. 16 * a + hex_val c) 0 s"
  using hex_loop_digits [of s 0 32] assms by (auto simp: hex_to_32_def from_be_bytes_def list_all_iff)

lemma hex_digit_lit:
  "hex_digit CHR ''0'' = Some 0"
  "hex_digit CHR ''1'' = Some 1"
  "hex_digit CHR ''2'' = Some 2"
  "hex_digit CHR ''3'' = Some 3"
  "hex_digit CHR ''4'' = Some 4"
  "hex_digit CHR ''5'' = Some 5"
  "hex_digit CHR ''6'' = Some 6"
  "hex_digit CHR ''7'' = Some 7"
  "hex_digit CHR ''8'' = Some 8"
  "hex_digit CHR ''9'' = Some 9"
  "hex_digit CHR ''a'' = Some 10"
  "hex_digit CHR ''b'' = Some 11"
  "hex_digit CHR ''c'' = Some 12"
  "hex_digit CHR ''d'' = Some 13"
  "hex_digit CHR ''e'' = Some 14"
  "hex_digit CHR ''f'' = Some 15"
  by (simp_all add: hex_digit_def)

lemma hex_val_lit:
  "hex_val CHR ''0'' = 0"
  "hex_val CHR ''1'' = 1"
  "hex_val CHR ''2'' = 2"
  "hex_val CHR ''3'' = 3"
  "hex_val CHR ''4'' = 4"
  "hex_val CHR ''5'' = 5"
  "hex_val CHR ''6'' = 6"
  "hex_val CHR ''7'' = 7"
  "hex_val CHR ''8'' = 8"
  "hex_val CHR ''9'' = 9"
  "hex_val CHR ''a'' = 10"
  "hex_val CHR ''b'' = 11"
  "hex_val CHR ''c'' = 12"
  "hex_val CHR ''d'' = 13"
  "hex_val CHR ''e'' = 14"
  "hex_val CHR ''f'' = 15"
  by (simp_all add: hex_val_def hex_digit_lit)

end
