(* ===== verification/Near_Pool.thy ===== *)
theory Near_Pool
  imports Merkle_Tree Nullifier_Ledger Codec
begin

text \<open>
  The NEAR contract (\<open>near/contracts/privacy-pool/src\<close>: \<open>lib.rs\<close>, \<open>hash.rs\<close>,
  \<open>types.rs\<close>, \<open>verifier.rs\<close>). Every failed assertion panics and reverts the call. The host
  function \<open>keccak256\<close> and \<open>hex::encode\<close> are arguments; the caller, the attached deposit and
  the block height come from the context of the call. The released contract is built with overflow
  checks. Events and promised payments are kept as lists.
\<close>

record Host =
  keccak256 :: "u8 list \<Rightarrow> u8 list"
  hex_encode :: "u8 list \<Rightarrow> string"

record Context =
  predecessor_account_id :: string
  attached_deposit :: nat
  block_height :: nat

section \<open>Hash, types\<close>

definition ZERO_HASH :: string where
  "ZERO_HASH = ''0000000000000000000000000000000000000000000000000000000000000000''"

definition poseidon_hash_hex :: "Host \<Rightarrow> string \<Rightarrow> string \<Rightarrow> string" where
  "poseidon_hash_hex h left right =
     (let data = as_bytes ''Poseidon'' @ as_bytes left @ as_bytes right;
          hash = keccak256 h data
      in hex_encode h hash)"

primrec zero_hash :: "Host \<Rightarrow> nat \<Rightarrow> string" where
  "zero_hash h 0 = ZERO_HASH"
| "zero_hash h (Suc level) = (let z = zero_hash h level in poseidon_hash_hex h z z)"

definition compute_nullifier_root :: "Host \<Rightarrow> string list \<Rightarrow> string" where
  "compute_nullifier_root h nullifiers =
     (case nullifiers of [] \<Rightarrow> ZERO_HASH | n # ns \<Rightarrow> foldl (poseidon_hash_hex h) n ns)"

record EpochInfo =
  start_block :: nat
  end_block :: "nat option"
  nullifier_root :: string
  nullifier_count :: nat
  finalized :: bool

record PoolStatus =
  total_deposits :: nat
  status_pool_balance :: nat
  current_epoch :: nat
  latest_root :: string
  status_domain_chain_id :: nat
  status_domain_app_id :: nat

datatype Log =
    LogDeposit string nat nat
  | LogTransfer string string string string
  | LogWithdraw string nat
  | LogEpochFinalized nat string nat
  | LogRemoteEpochRoot nat nat string

definition TREE_DEPTH :: nat where "TREE_DEPTH = 32"

definition ROOT_HISTORY_SIZE :: nat where "ROOT_HISTORY_SIZE = 100"

definition MAX_NULLIFIERS_PER_EPOCH :: nat where "MAX_NULLIFIERS_PER_EPOCH = 10000"

record PrivacyPool =
  next_leaf_index :: nat
  filled_subtrees :: "nat \<rightharpoonup> string"
  roots :: "nat \<rightharpoonup> string"
  current_root_index :: nat
  nullifier_spent :: "string \<rightharpoonup> bool"
  commitment_exists :: "string \<rightharpoonup> bool"
  pool_balance :: nat
  current_epoch_id :: nat
  epochs :: "nat \<rightharpoonup> EpochInfo"
  epoch_nullifiers :: "nat \<rightharpoonup> string list"
  remote_epoch_roots :: "string \<rightharpoonup> string"
  governance :: string
  authorized_relayer :: "string option"
  domain_chain_id :: nat
  domain_app_id :: nat
  logs :: "Log list"
  promises :: "(string \<times> nat) list"

section \<open>Proof binding\<close>

definition is_ascii_hexdigit :: "char \<Rightarrow> bool" where
  "is_ascii_hexdigit c \<longleftrightarrow> hex_digit c \<noteq> None"

definition all_zero_chars :: "string \<Rightarrow> bool" where
  "all_zero_chars s = list_all (\<lambda>c. c = CHR ''0'') s"

definition verify_proof_binding :: "Host \<Rightarrow> string \<Rightarrow> string \<Rightarrow> string list \<Rightarrow> string list \<Rightarrow> bool" where
  "verify_proof_binding h proof merkle_root nullifiers output_commitments =
     (if length proof < 384 then False
      else if length proof > 8192 then False
      else if \<not> list_all is_ascii_hexdigit proof then False
      else if length proof mod 2 \<noteq> 0 then False
      else if all_zero_chars proof then False
      else if length nullifiers \<ge> 2 \<and> nullifiers ! 0 = nullifiers ! 1 then False
      else if list_ex (\<lambda>nul. nul = [] \<or> all_zero_chars nul) nullifiers then False
      else if merkle_root = [] \<or> all_zero_chars merkle_root then False
      else if list_ex (\<lambda>cm. cm = [] \<or> all_zero_chars cm) output_commitments then False
      else if length output_commitments \<ge> 2 \<and> output_commitments ! 0 = output_commitments ! 1 then False
      else if length proof < 64 then False
      else
        let binding_hex = take 64 proof;
            body_hex = drop 64 proof;
            inputs_data = as_bytes merkle_root @ concat (map as_bytes nullifiers)
                            @ concat (map as_bytes output_commitments);
            inputs_hash = keccak256 h inputs_data;
            transcript = as_bytes ''Halo2-IPA-bind'' @ inputs_hash @ as_bytes body_hex;
            expected_hex = hex_encode h (keccak256 h transcript)
        in binding_hex = expected_hex)"

section \<open>Internal methods\<close>

fun insert_levels :: "Host \<Rightarrow> nat \<Rightarrow> nat \<Rightarrow> nat \<Rightarrow> string \<Rightarrow> (nat \<rightharpoonup> string) \<Rightarrow> (nat \<rightharpoonup> string) \<times> string" where
  "insert_levels h level 0 current_index current_hash fs = (fs, current_hash)"
| "insert_levels h level (Suc k) current_index current_hash fs =
     (if current_index mod 2 = 0
      then let fs = fs(level \<mapsto> current_hash);
               zero = zero_hash h level
           in insert_levels h (Suc level) k (current_index div 2) (poseidon_hash_hex h current_hash zero) fs
      else let sibling = get ZERO_HASH fs level
           in insert_levels h (Suc level) k (current_index div 2) (poseidon_hash_hex h sibling current_hash) fs)"

definition insert_leaf :: "Host \<Rightarrow> string \<Rightarrow> PrivacyPool \<Rightarrow> (unit, nat \<times> PrivacyPool) result" where
  "insert_leaf h leaf_hex s =
     bind_result (upow 64 2 TREE_DEPTH) (\<lambda>max_leaves.
     bind_result (assert_or_panic (next_leaf_index s < max_leaves)) (\<lambda>_.
     let idx = next_leaf_index s;
         (fs, current_hash) = insert_levels h 0 TREE_DEPTH idx leaf_hex (filled_subtrees s) in
     bind_result (uadd 32 (current_root_index s) 1) (\<lambda>c.
     bind_result (urem c ROOT_HISTORY_SIZE) (\<lambda>new_root_idx.
     bind_result (uadd 64 idx 1) (\<lambda>n.
     Ok (idx, s\<lparr>filled_subtrees := fs, roots := (roots s)(new_root_idx \<mapsto> current_hash),
                 current_root_index := new_root_idx, next_leaf_index := n\<rparr>))))))"

fun scan_roots :: "(nat \<rightharpoonup> string) \<Rightarrow> string \<Rightarrow> nat \<Rightarrow> nat \<Rightarrow> bool" where
  "scan_roots rs root idx 0 = False"
| "scan_roots rs root idx (Suc k) =
     (if (case rs idx of Some stored \<Rightarrow> stored = root | None \<Rightarrow> False) then True
      else scan_roots rs root (if idx = 0 then ROOT_HISTORY_SIZE - 1 else idx - 1) k)"

definition is_known_root :: "string \<Rightarrow> PrivacyPool \<Rightarrow> bool" where
  "is_known_root root s =
     (if root = ZERO_HASH then False
      else scan_roots (roots s) root (current_root_index s) ROOT_HISTORY_SIZE)"

fun spend_loop :: "string list \<Rightarrow> string list \<Rightarrow> (string \<rightharpoonup> bool) \<Rightarrow> (unit, string list \<times> (string \<rightharpoonup> bool)) result" where
  "spend_loop [] epoch_nuls spent = Ok (epoch_nuls, spent)"
| "spend_loop (nullifier # ns) epoch_nuls spent =
     bind_result (assert_or_panic (nullifier \<notin> dom spent)) (\<lambda>_.
     let spent = spent(nullifier \<mapsto> True) in
     bind_result (assert_or_panic (length epoch_nuls < MAX_NULLIFIERS_PER_EPOCH)) (\<lambda>_.
     spend_loop ns (epoch_nuls @ [nullifier]) spent))"

definition check_and_spend_nullifiers :: "string list \<Rightarrow> PrivacyPool \<Rightarrow> (unit, PrivacyPool) result" where
  "check_and_spend_nullifiers nullifiers s =
     (let epoch_id = current_epoch_id s;
          epoch_nuls = get [] (epoch_nullifiers s) epoch_id in
      bind_result (spend_loop nullifiers epoch_nuls (nullifier_spent s)) (\<lambda>(epoch_nuls, spent).
      Ok (s\<lparr>nullifier_spent := spent, epoch_nullifiers := (epoch_nullifiers s)(epoch_id \<mapsto> epoch_nuls)\<rparr>)))"

section \<open>Methods\<close>

fun init_subtrees :: "Host \<Rightarrow> nat \<Rightarrow> nat \<Rightarrow> string \<Rightarrow> (nat \<rightharpoonup> string) \<Rightarrow> (nat \<rightharpoonup> string) \<times> string" where
  "init_subtrees h level 0 current_zero fs = (fs, current_zero)"
| "init_subtrees h level (Suc k) current_zero fs =
     init_subtrees h (Suc level) k (poseidon_hash_hex h current_zero current_zero) (fs(level \<mapsto> current_zero))"

definition new_epoch :: "Context \<Rightarrow> EpochInfo" where
  "new_epoch ctx = \<lparr>start_block = block_height ctx, end_block = None, nullifier_root = ZERO_HASH,
                    nullifier_count = 0, finalized = False\<rparr>"

definition new :: "Host \<Rightarrow> Context \<Rightarrow> bool \<Rightarrow> string \<Rightarrow> nat \<Rightarrow> nat \<Rightarrow> (unit, PrivacyPool) result" where
  "new h ctx state_exists gov chain_id app_id =
     bind_result (assert_or_panic (\<not> state_exists)) (\<lambda>_.
     let (fs, root) = init_subtrees h 0 TREE_DEPTH ZERO_HASH Map.empty in
     Ok \<lparr>next_leaf_index = 0, filled_subtrees = fs, roots = [0 \<mapsto> root], current_root_index = 0,
         nullifier_spent = Map.empty, commitment_exists = Map.empty, pool_balance = 0,
         current_epoch_id = 0, epochs = [0 \<mapsto> new_epoch ctx], epoch_nullifiers = [0 \<mapsto> []],
         remote_epoch_roots = Map.empty, governance = gov, authorized_relayer = None,
         domain_chain_id = chain_id, domain_app_id = app_id, logs = [], promises = []\<rparr>)"

definition deposit :: "Host \<Rightarrow> Context \<Rightarrow> string \<Rightarrow> PrivacyPool \<Rightarrow> (unit, PrivacyPool) result" where
  "deposit h ctx commitment s =
     (let amount = attached_deposit ctx in
      bind_result (assert_or_panic (amount > 0)) (\<lambda>_.
      bind_result (assert_or_panic (commitment \<notin> dom (commitment_exists s))) (\<lambda>_.
      let s = s\<lparr>commitment_exists := (commitment_exists s)(commitment \<mapsto> True)\<rparr> in
      bind_result (insert_leaf h commitment s) (\<lambda>(leaf_index, s).
      bind_result (uadd 128 (pool_balance s) amount) (\<lambda>b.
      Ok (s\<lparr>pool_balance := b, logs := logs s @ [LogDeposit commitment leaf_index amount]\<rparr>))))))"

definition transfer ::
  "Host \<Rightarrow> string \<Rightarrow> string \<Rightarrow> string list \<Rightarrow> string list \<Rightarrow> PrivacyPool \<Rightarrow> (unit, PrivacyPool) result" where
  "transfer h proof merkle_root nullifiers output_commitments s =
     bind_result (assert_or_panic (length nullifiers = 2)) (\<lambda>_.
     bind_result (assert_or_panic (length output_commitments = 2)) (\<lambda>_.
     bind_result (assert_or_panic (is_known_root merkle_root s)) (\<lambda>_.
     bind_result (check_and_spend_nullifiers nullifiers s) (\<lambda>s.
     bind_result (assert_or_panic (verify_proof_binding h proof merkle_root nullifiers output_commitments)) (\<lambda>_.
     bind_result (insert_leaf h (output_commitments ! 0) s) (\<lambda>(_, s).
     bind_result (insert_leaf h (output_commitments ! 1) s) (\<lambda>(_, s).
     Ok (s\<lparr>logs := logs s @ [LogTransfer (nullifiers ! 0) (nullifiers ! 1)
                                (output_commitments ! 0) (output_commitments ! 1)]\<rparr>))))))))"

definition withdraw ::
  "Host \<Rightarrow> string \<Rightarrow> string \<Rightarrow> string list \<Rightarrow> string list \<Rightarrow> string \<Rightarrow> nat \<Rightarrow> PrivacyPool
     \<Rightarrow> (unit, PrivacyPool) result" where
  "withdraw h proof merkle_root nullifiers output_commitments recipient exit_amount s =
     bind_result (assert_or_panic (length nullifiers = 2)) (\<lambda>_.
     bind_result (assert_or_panic (length output_commitments = 2)) (\<lambda>_.
     bind_result (assert_or_panic (exit_amount > 0)) (\<lambda>_.
     bind_result (assert_or_panic (exit_amount \<le> pool_balance s)) (\<lambda>_.
     bind_result (assert_or_panic (is_known_root merkle_root s)) (\<lambda>_.
     bind_result (check_and_spend_nullifiers nullifiers s) (\<lambda>s.
     bind_result (assert_or_panic (verify_proof_binding h proof merkle_root nullifiers output_commitments)) (\<lambda>_.
     bind_result (insert_leaf h (output_commitments ! 0) s) (\<lambda>(_, s).
     bind_result (insert_leaf h (output_commitments ! 1) s) (\<lambda>(_, s).
     bind_result (usub (pool_balance s) exit_amount) (\<lambda>b.
     Ok (s\<lparr>pool_balance := b, logs := logs s @ [LogWithdraw recipient exit_amount],
           promises := promises s @ [(recipient, exit_amount)]\<rparr>)))))))))))"

definition set_authorized_relayer ::
  "Context \<Rightarrow> string option \<Rightarrow> PrivacyPool \<Rightarrow> (unit, PrivacyPool) result" where
  "set_authorized_relayer ctx relayer s =
     bind_result (assert_or_panic (predecessor_account_id ctx = governance s)) (\<lambda>_.
     Ok (s\<lparr>authorized_relayer := relayer\<rparr>))"

definition finalize_epoch :: "Host \<Rightarrow> Context \<Rightarrow> PrivacyPool \<Rightarrow> (unit, PrivacyPool) result" where
  "finalize_epoch h ctx s =
     bind_result (assert_or_panic (predecessor_account_id ctx = governance s)) (\<lambda>_.
     let epoch_id = current_epoch_id s in
     bind_result (unwrap (epochs s epoch_id)) (\<lambda>epoch.
     bind_result (assert_or_panic (\<not> finalized epoch)) (\<lambda>_.
     let nuls = get [] (epoch_nullifiers s) epoch_id;
         root = compute_nullifier_root h nuls;
         count = length nuls mod 2 ^ 32;
         epoch = epoch\<lparr>nullifier_root := root, nullifier_count := count,
                       end_block := Some (block_height ctx), finalized := True\<rparr> in
     bind_result (uadd 64 epoch_id 1) (\<lambda>new_epoch_id.
     Ok (s\<lparr>current_epoch_id := new_epoch_id,
           epochs := (epochs s)(epoch_id \<mapsto> epoch, new_epoch_id \<mapsto> new_epoch ctx),
           epoch_nullifiers := (epoch_nullifiers s)(new_epoch_id \<mapsto> []),
           logs := logs s @ [LogEpochFinalized epoch_id root count]\<rparr>)))))"

definition remote_key :: "nat \<Rightarrow> nat \<Rightarrow> string" where
  "remote_key source_chain_id epoch_id = dec source_chain_id @ '':'' @ dec epoch_id"

definition sync_epoch_root ::
  "Context \<Rightarrow> nat \<Rightarrow> nat \<Rightarrow> string \<Rightarrow> PrivacyPool \<Rightarrow> (unit, PrivacyPool) result" where
  "sync_epoch_root ctx source_chain_id epoch_id root s =
     (let caller = predecessor_account_id ctx;
          is_authorized = (caller = governance s \<or>
            (case authorized_relayer s of None \<Rightarrow> False | Some r \<Rightarrow> caller = r)) in
      bind_result (assert_or_panic is_authorized) (\<lambda>_.
      bind_result (assert_or_panic (root \<noteq> [])) (\<lambda>_.
      Ok (s\<lparr>remote_epoch_roots := (remote_epoch_roots s)(remote_key source_chain_id epoch_id \<mapsto> root),
            logs := logs s @ [LogRemoteEpochRoot source_chain_id epoch_id root]\<rparr>))))"

section \<open>Views\<close>

definition get_latest_root :: "PrivacyPool \<Rightarrow> string" where
  "get_latest_root s = get ZERO_HASH (roots s) (current_root_index s)"

definition get_pool_status :: "PrivacyPool \<Rightarrow> PoolStatus" where
  "get_pool_status s =
     \<lparr>total_deposits = next_leaf_index s, status_pool_balance = pool_balance s,
      current_epoch = current_epoch_id s, latest_root = get ZERO_HASH (roots s) (current_root_index s),
      status_domain_chain_id = domain_chain_id s, status_domain_app_id = domain_app_id s\<rparr>"

definition is_nullifier_spent :: "string \<Rightarrow> PrivacyPool \<Rightarrow> bool" where
  "is_nullifier_spent nullifier s \<longleftrightarrow> nullifier \<in> dom (nullifier_spent s)"

definition get_epoch_info :: "nat \<Rightarrow> PrivacyPool \<Rightarrow> EpochInfo option" where
  "get_epoch_info epoch_id s = epochs s epoch_id"

definition get_remote_epoch_root :: "nat \<Rightarrow> nat \<Rightarrow> PrivacyPool \<Rightarrow> string option" where
  "get_remote_epoch_root source_chain_id epoch_id s = remote_epoch_roots s (remote_key source_chain_id epoch_id)"

text \<open>The calls of the contract.\<close>

datatype Call =
    Deposit string
  | Transfer string string "string list" "string list"
  | Withdraw string string "string list" "string list" string nat
  | SetAuthorizedRelayer "string option"
  | FinalizeEpoch
  | SyncEpochRoot nat nat string

fun dispatch :: "Host \<Rightarrow> PrivacyPool \<Rightarrow> Context \<times> Call \<Rightarrow> (unit, PrivacyPool) result" where
  "dispatch h s (ctx, Deposit commitment) = deposit h ctx commitment s"
| "dispatch h s (ctx, Transfer pr root nuls outs) = transfer h pr root nuls outs s"
| "dispatch h s (ctx, Withdraw pr root nuls outs recipient amount) =
     withdraw h pr root nuls outs recipient amount s"
| "dispatch h s (ctx, SetAuthorizedRelayer relayer) = set_authorized_relayer ctx relayer s"
| "dispatch h s (ctx, FinalizeEpoch) = finalize_epoch h ctx s"
| "dispatch h s (ctx, SyncEpochRoot chain epoch root) = sync_epoch_root ctx chain epoch root s"

end
