(* ===== verification/Near_Properties.thy ===== *)
theory Near_Properties
  imports Near_Pool
begin

text \<open>
  The properties of the NEAR contract: the commitment tree, double spends, the epochs, the
  conservation of deposits, the authorisation of the maintenance calls and the proof binding.
\<close>

section \<open>The tree of the contract\<close>

lemmas near_constants = TREE_DEPTH_def ROOT_HISTORY_SIZE_def MAX_NULLIFIERS_PER_EPOCH_def

lemma near_zero_hash_zeros: "zero_hash h = zeros (poseidon_hash_hex h) ZERO_HASH"
proof
  show "zero_hash h l = zeros (poseidon_hash_hex h) ZERO_HASH l" for l
    by (induction l) (auto simp: Let_def)
qed

lemma near_insert_levels_climb:
  "insert_levels h level k i x fs = climb_map (poseidon_hash_hex h) (zero_hash h) ZERO_HASH level k i x fs"
  by (induction k arbitrary: level i x fs) (auto simp: even_iff_mod_2_eq_zero)

lemma near_scan_roots_ring:
  "scan_roots rs root idx k \<longleftrightarrow> ring_scan (\<lambda>j. rs j = Some root) ROOT_HISTORY_SIZE idx k"
  by (induction k arbitrary: idx) (auto split: option.splits)

definition tree_of :: "Host \<Rightarrow> PrivacyPool \<Rightarrow> string list \<Rightarrow> bool" where
  "tree_of h s xs \<longleftrightarrow>
     tree_rep (poseidon_hash_hex h) ZERO_HASH TREE_DEPTH ROOT_HISTORY_SIZE xs
       (next_leaf_index s) (get ZERO_HASH (filled_subtrees s)) (roots s) (current_root_index s)"

definition append_leaf :: "Host \<Rightarrow> PrivacyPool \<Rightarrow> string \<Rightarrow> (unit, PrivacyPool) result" where
  "append_leaf h s leaf = bind_result (insert_leaf h leaf s) (\<lambda>(_, s'). Ok s')"

definition wf_index :: "PrivacyPool \<Rightarrow> bool" where
  "wf_index s \<longleftrightarrow> current_root_index s < ROOT_HISTORY_SIZE \<and> next_leaf_index s \<le> 2 ^ TREE_DEPTH"

lemma near_tree_of_wf: "tree_of h s xs \<Longrightarrow> wf_index s \<and> next_leaf_index s = length xs"
  by (auto simp: tree_of_def wf_index_def tree_rep_def ring_holds_def)

lemma near_insert_leaf_Ok:
  assumes "insert_leaf h leaf s = Ok (i, s')"
  shows "i = next_leaf_index s" and "next_leaf_index s < 2 ^ TREE_DEPTH"
    and "s' = s\<lparr>filled_subtrees := fst (insert_levels h 0 TREE_DEPTH (next_leaf_index s) leaf (filled_subtrees s)),
                roots := (roots s)((current_root_index s + 1) mod ROOT_HISTORY_SIZE \<mapsto>
                  snd (insert_levels h 0 TREE_DEPTH (next_leaf_index s) leaf (filled_subtrees s))),
                current_root_index := (current_root_index s + 1) mod ROOT_HISTORY_SIZE,
                next_leaf_index := next_leaf_index s + 1\<rparr>"
  using assms by (auto simp: insert_leaf_def Let_def result_simps split: prod.splits)

lemma near_insert_leaf_room:
  "wf_index s \<Longrightarrow> (\<exists>i s'. insert_leaf h leaf s = Ok (i, s')) \<longleftrightarrow> next_leaf_index s < 2 ^ TREE_DEPTH"
  by (auto simp: insert_leaf_def Let_def result_simps wf_index_def near_constants split: prod.splits)

lemma near_insert_leaf_tree:
  assumes rep: "tree_of h s xs" and ok: "insert_leaf h leaf s = Ok (i, s')"
  shows "tree_of h s' (xs @ [leaf])"
  using rep tree_rep_push_map [OF _ near_insert_leaf_Ok(2) [OF ok] refl refl, of "poseidon_hash_hex h" ZERO_HASH]
  unfolding near_insert_leaf_Ok(3) [OF ok] tree_of_def near_insert_levels_climb near_zero_hash_zeros by simp

lemma init_subtrees_root:
  "snd (init_subtrees h level k zv fs) = zeros (poseidon_hash_hex h) zv k"
  by (induction k arbitrary: level zv fs) (simp_all add: zeros_shift)

lemma new_tree: "new h ctx ex gov c a = Ok s \<Longrightarrow> tree_of h s []"
  using tree_rep_Nil [of ROOT_HISTORY_SIZE "poseidon_hash_hex h" ZERO_HASH TREE_DEPTH]
    init_subtrees_root [of h 0 TREE_DEPTH ZERO_HASH Map.empty]
  by (auto simp: tree_of_def new_def tree_root_Nil result_simps ROOT_HISTORY_SIZE_def split: prod.splits)

interpretation near_tree: commitment_tree "append_leaf h" "\<lambda>s r. is_known_root r s"
  get_latest_root "tree_of h" "\<lambda>_. True" "poseidon_hash_hex h" ZERO_HASH TREE_DEPTH ROOT_HISTORY_SIZE
  for h
proof
  fix s xs x s' r
  assume rep: "tree_of h s xs"
  show "length xs \<le> 2 ^ TREE_DEPTH"
    using rep by (auto simp: tree_of_def tree_rep_def)
  show "is_Ok (append_leaf h s x) \<longleftrightarrow> length xs < 2 ^ TREE_DEPTH \<and> True"
    using near_insert_leaf_room [of s h x] near_tree_of_wf [OF rep]
    by (auto simp: append_leaf_def is_Ok_iff result_simps)
  show "append_leaf h s x = Ok s' \<Longrightarrow> tree_of h s' (xs @ [x])"
    using near_insert_leaf_tree [OF rep, of x] by (auto simp: append_leaf_def result_simps)
  show "get_latest_root s = tree_root (poseidon_hash_hex h) ZERO_HASH TREE_DEPTH xs"
    using rep tree_rep_latest unfolding tree_of_def get_latest_root_def get_def by fastforce
  show "is_known_root r s \<longleftrightarrow> r \<noteq> ZERO_HASH \<and> (\<exists>k\<le>length xs. length xs < k + ROOT_HISTORY_SIZE \<and>
          r = tree_root (poseidon_hash_hex h) ZERO_HASH TREE_DEPTH (take k xs))"
    using rep tree_rep_scan [of "poseidon_hash_hex h" ZERO_HASH TREE_DEPTH ROOT_HISTORY_SIZE xs]
    by (auto simp: is_known_root_def near_scan_roots_ring tree_of_def)
qed

section \<open>Successful calls\<close>

lemma near_insert_leaf_frame:
  assumes "insert_leaf h leaf s = Ok (i, s')"
  shows "nullifier_spent s' = nullifier_spent s" "commitment_exists s' = commitment_exists s"
    "pool_balance s' = pool_balance s" "current_epoch_id s' = current_epoch_id s" "epochs s' = epochs s"
    "epoch_nullifiers s' = epoch_nullifiers s" "remote_epoch_roots s' = remote_epoch_roots s"
    "governance s' = governance s" "authorized_relayer s' = authorized_relayer s"
    "logs s' = logs s" "promises s' = promises s"
  using near_insert_leaf_Ok(3) [OF assms] by simp_all

lemma spend_loop_Ok:
  "spend_loop ns en spent = Ok (en', spent') \<longleftrightarrow>
     distinct ns \<and> set ns \<inter> dom spent = {} \<and>
     (ns = [] \<or> length en + length ns \<le> MAX_NULLIFIERS_PER_EPOCH) \<and>
     en' = en @ ns \<and> spent' = mark_all ns spent"
proof (induction ns arbitrary: en spent)
  case (Cons n ns)
  have "set ns \<inter> dom (spent(n \<mapsto> True)) = {} \<longleftrightarrow> n \<notin> set ns \<and> set ns \<inter> dom spent = {}"
    by auto
  then show ?case
    by (auto simp: Cons.IH result_simps simp del: fun_upd_apply)
qed auto

lemma near_check_and_spend_Ok:
  "check_and_spend_nullifiers ns s = Ok s' \<longleftrightarrow>
     distinct ns \<and> set ns \<inter> dom (nullifier_spent s) = {} \<and>
     (ns = [] \<or> length (get [] (epoch_nullifiers s) (current_epoch_id s)) + length ns \<le> MAX_NULLIFIERS_PER_EPOCH) \<and>
     s' = s\<lparr>nullifier_spent := mark_all ns (nullifier_spent s),
            epoch_nullifiers := (epoch_nullifiers s)(current_epoch_id s \<mapsto>
              get [] (epoch_nullifiers s) (current_epoch_id s) @ ns)\<rparr>"
  by (auto simp: check_and_spend_nullifiers_def Let_def result_simps spend_loop_Ok)

lemma near_deposit_OkE:
  assumes "deposit h ctx c s = Ok s'"
  obtains i s1 where "0 < attached_deposit ctx" "c \<notin> dom (commitment_exists s)"
    "insert_leaf h c (s\<lparr>commitment_exists := (commitment_exists s)(c \<mapsto> True)\<rparr>) = Ok (i, s1)"
    "s' = s1\<lparr>pool_balance := pool_balance s1 + attached_deposit ctx,
             logs := logs s1 @ [LogDeposit c i (attached_deposit ctx)]\<rparr>"
  using assms by (auto simp: deposit_def Let_def result_simps split: prod.splits)

lemma near_transfer_OkE:
  assumes "transfer h pr root nuls outs s = Ok s'"
  obtains s1 i s2 j s3 where "length nuls = 2" "length outs = 2" "is_known_root root s"
    "check_and_spend_nullifiers nuls s = Ok s1" "verify_proof_binding h pr root nuls outs"
    "insert_leaf h (outs ! 0) s1 = Ok (i, s2)" "insert_leaf h (outs ! 1) s2 = Ok (j, s3)"
    "s' = s3\<lparr>logs := logs s3 @ [LogTransfer (nuls ! 0) (nuls ! 1) (outs ! 0) (outs ! 1)]\<rparr>"
  using assms by (auto simp: transfer_def result_simps split: prod.splits)

lemma near_withdraw_OkE:
  assumes "withdraw h pr root nuls outs recipient amt s = Ok s'"
  obtains s1 i s2 j s3 where "length nuls = 2" "length outs = 2" "0 < amt" "amt \<le> pool_balance s"
    "is_known_root root s"
    "check_and_spend_nullifiers nuls s = Ok s1" "verify_proof_binding h pr root nuls outs"
    "insert_leaf h (outs ! 0) s1 = Ok (i, s2)" "insert_leaf h (outs ! 1) s2 = Ok (j, s3)"
    "s' = s3\<lparr>pool_balance := pool_balance s3 - amt, logs := logs s3 @ [LogWithdraw recipient amt],
             promises := promises s3 @ [(recipient, amt)]\<rparr>"
  using assms by (auto simp: withdraw_def result_simps split: prod.splits)

lemma near_finalize_epoch_OkE:
  assumes "finalize_epoch h ctx s = Ok s'"
  obtains epoch root count where "predecessor_account_id ctx = governance s"
    "epochs s (current_epoch_id s) = Some epoch" "\<not> finalized epoch" "current_epoch_id s + 1 < 2 ^ 64"
    "root = compute_nullifier_root h (get [] (epoch_nullifiers s) (current_epoch_id s))"
    "count = length (get [] (epoch_nullifiers s) (current_epoch_id s)) mod 2 ^ 32"
    "s' = s\<lparr>current_epoch_id := current_epoch_id s + 1,
       epochs := (epochs s)(current_epoch_id s \<mapsto> epoch\<lparr>nullifier_root := root,
            nullifier_count := count, end_block := Some (block_height ctx), finalized := True\<rparr>,
          current_epoch_id s + 1 \<mapsto> new_epoch ctx),
       epoch_nullifiers := (epoch_nullifiers s)(current_epoch_id s + 1 \<mapsto> []),
       logs := logs s @ [LogEpochFinalized (current_epoch_id s) root count]\<rparr>"
  using assms by (auto simp: finalize_epoch_def Let_def result_simps)

lemma near_maintenance_OkE:
  "set_authorized_relayer ctx r s = Ok s' \<longleftrightarrow>
     predecessor_account_id ctx = governance s \<and> s' = s\<lparr>authorized_relayer := r\<rparr>"
  "sync_epoch_root ctx chain epoch root s = Ok s' \<longleftrightarrow>
     (predecessor_account_id ctx = governance s \<or> authorized_relayer s = Some (predecessor_account_id ctx)) \<and>
     root \<noteq> [] \<and>
     s' = s\<lparr>remote_epoch_roots := (remote_epoch_roots s)(remote_key chain epoch \<mapsto> root),
            logs := logs s @ [LogRemoteEpochRoot chain epoch root]\<rparr>"
  by (auto simp: set_authorized_relayer_def sync_epoch_root_def Let_def result_simps split: option.splits)

lemmas near_OkE = near_deposit_OkE near_transfer_OkE near_withdraw_OkE near_finalize_epoch_OkE

section \<open>Sequences of calls\<close>

fun leaves_of :: "Context \<times> Call \<Rightarrow> string list" where
  "leaves_of (_, Deposit c) = [c]"
| "leaves_of (_, Transfer _ _ _ outs) = outs"
| "leaves_of (_, Withdraw _ _ _ outs _ _) = outs"
| "leaves_of _ = []"

fun nulls_of :: "Context \<times> Call \<Rightarrow> string list" where
  "nulls_of (_, Transfer _ _ nuls _) = nuls"
| "nulls_of (_, Withdraw _ _ nuls _ _ _) = nuls"
| "nulls_of _ = []"

lemma list_of_two: "length xs = 2 \<Longrightarrow> xs = [xs ! 0, xs ! 1]"
  by (auto simp: numeral_2_eq_2 length_Suc_conv)

lemma near_insert_two_tree:
  assumes "tree_of h s xs" and "check_and_spend_nullifiers nuls s = Ok s1" and "length outs = 2"
    and "insert_leaf h (outs ! 0) s1 = Ok (i, s2)" and "insert_leaf h (outs ! 1) s2 = Ok (j, s3)"
  shows "tree_of h s3 (xs @ outs)"
proof -
  have "tree_of h s1 xs"
    using assms(1,2) by (auto simp: near_check_and_spend_Ok tree_of_def)
  from near_insert_leaf_tree [OF near_insert_leaf_tree [OF this assms(4)] assms(5)]
  have "tree_of h s3 (xs @ [outs ! 0, outs ! 1])" by simp
  then show ?thesis using list_of_two [OF assms(3)] by metis
qed

lemma near_dispatch_tree:
  assumes rep: "tree_of h s xs" and ok: "dispatch h s c = Ok s'"
  shows "tree_of h s' (xs @ leaves_of c)"
proof (cases c rule: leaves_of.cases)
  case (1 ctx c)
  with ok obtain i s1 where
    ins: "insert_leaf h c (s\<lparr>commitment_exists := (commitment_exists s)(c \<mapsto> True)\<rparr>) = Ok (i, s1)"
    and "tree_of h s' = tree_of h s1"
    by (auto elim!: near_deposit_OkE simp: tree_of_def fun_eq_iff)
  moreover have "tree_of h (s\<lparr>commitment_exists := (commitment_exists s)(c \<mapsto> True)\<rparr>) xs"
    using rep by (simp add: tree_of_def)
  ultimately show ?thesis using near_insert_leaf_tree [OF _ ins] 1 by simp
next
  case (2 ctx pr root nuls outs)
  with ok obtain s1 i s2 j s3 where c: "check_and_spend_nullifiers nuls s = Ok s1" "length outs = 2"
    "insert_leaf h (outs ! 0) s1 = Ok (i, s2)" "insert_leaf h (outs ! 1) s2 = Ok (j, s3)"
    and "tree_of h s' = tree_of h s3"
    by (auto elim!: near_transfer_OkE simp: tree_of_def fun_eq_iff)
  with 2 near_insert_two_tree [OF rep c] show ?thesis by simp
next
  case (3 ctx pr root nuls outs recipient amt)
  with ok obtain s1 i s2 j s3 where c: "check_and_spend_nullifiers nuls s = Ok s1" "length outs = 2"
    "insert_leaf h (outs ! 0) s1 = Ok (i, s2)" "insert_leaf h (outs ! 1) s2 = Ok (j, s3)"
    and "tree_of h s' = tree_of h s3"
    by (auto elim!: near_withdraw_OkE simp: tree_of_def fun_eq_iff)
  with 3 near_insert_two_tree [OF rep c] show ?thesis by simp
qed (use ok rep in \<open>auto elim!: near_finalize_epoch_OkE simp: tree_of_def near_maintenance_OkE\<close>)

lemma near_spending_facts:
  assumes "check_and_spend_nullifiers nuls s = Ok s1"
    and "insert_leaf h a s1 = Ok (i, s2)" "insert_leaf h b s2 = Ok (j, s3)"
  shows "distinct nuls" "set nuls \<inter> dom (nullifier_spent s) = {}"
    "nullifier_spent s3 = mark_all nuls (nullifier_spent s)"
    "epoch_nullifiers s3 = (epoch_nullifiers s)(current_epoch_id s \<mapsto>
       get [] (epoch_nullifiers s) (current_epoch_id s) @ nuls)"
    "current_epoch_id s3 = current_epoch_id s" "pool_balance s3 = pool_balance s"
    "promises s3 = promises s" "epochs s3 = epochs s" "commitment_exists s3 = commitment_exists s"
    "governance s3 = governance s" "authorized_relayer s3 = authorized_relayer s"
    "remote_epoch_roots s3 = remote_epoch_roots s"
  using assms by (simp_all add: near_check_and_spend_Ok near_insert_leaf_frame)

lemma near_dispatch_ledger:
  assumes ok: "dispatch h s c = Ok s'"
  shows "distinct (nulls_of c)" and "set (nulls_of c) \<inter> dom (nullifier_spent s) = {}"
    and "dom (nullifier_spent s') = dom (nullifier_spent s) \<union> set (nulls_of c)"
    and "snd c \<noteq> FinalizeEpoch \<Longrightarrow> get [] (epoch_nullifiers s') = (get [] (epoch_nullifiers s))
           (current_epoch_id s := get [] (epoch_nullifiers s) (current_epoch_id s) @ nulls_of c)"
    and "snd c = FinalizeEpoch \<Longrightarrow> get [] (epoch_nullifiers s') =
           (get [] (epoch_nullifiers s))(Suc (current_epoch_id s) := [])"
    and "current_epoch_id s' = current_epoch_id s + (if snd c = FinalizeEpoch then 1 else 0)"
proof -
  have "distinct (nulls_of c) \<and> set (nulls_of c) \<inter> dom (nullifier_spent s) = {} \<and>
    dom (nullifier_spent s') = dom (nullifier_spent s) \<union> set (nulls_of c) \<and>
    (snd c \<noteq> FinalizeEpoch \<longrightarrow> get [] (epoch_nullifiers s') = (get [] (epoch_nullifiers s))
      (current_epoch_id s := get [] (epoch_nullifiers s) (current_epoch_id s) @ nulls_of c)) \<and>
    (snd c = FinalizeEpoch \<longrightarrow> get [] (epoch_nullifiers s') =
      (get [] (epoch_nullifiers s))(Suc (current_epoch_id s) := [])) \<and>
    current_epoch_id s' = current_epoch_id s + (if snd c = FinalizeEpoch then 1 else 0)"
  proof (cases c rule: leaves_of.cases)
    case (2 ctx pr root nuls outs)
    with ok show ?thesis
      by (simp, elim near_transfer_OkE) (simp add: near_spending_facts get_fun_upd)
  next
    case (3 ctx pr root nuls outs recipient amt)
    with ok show ?thesis
      by (simp, elim near_withdraw_OkE) (simp add: near_spending_facts get_fun_upd)
  qed (use ok in \<open>auto elim!: near_deposit_OkE near_finalize_epoch_OkE
        simp: near_insert_leaf_frame near_maintenance_OkE get_fun_upd\<close>)
  then show "distinct (nulls_of c)" and "set (nulls_of c) \<inter> dom (nullifier_spent s) = {}"
    and "dom (nullifier_spent s') = dom (nullifier_spent s) \<union> set (nulls_of c)"
    and "snd c \<noteq> FinalizeEpoch \<Longrightarrow> get [] (epoch_nullifiers s') = (get [] (epoch_nullifiers s))
           (current_epoch_id s := get [] (epoch_nullifiers s) (current_epoch_id s) @ nulls_of c)"
    and "snd c = FinalizeEpoch \<Longrightarrow> get [] (epoch_nullifiers s') =
           (get [] (epoch_nullifiers s))(Suc (current_epoch_id s) := [])"
    and "current_epoch_id s' = current_epoch_id s + (if snd c = FinalizeEpoch then 1 else 0)"
    by blast+
qed

interpretation near_ledger: epoch_ledger "dispatch h" "\<lambda>s n. is_nullifier_spent n s" nulls_of
  current_epoch_id "\<lambda>s. get [] (epoch_nullifiers s)" for h
proof
  fix s c s' n
  assume ok: "dispatch h s c = Ok s'"
  note facts = near_dispatch_ledger [OF ok]
  show "n \<in> set (nulls_of c) \<Longrightarrow> \<not> is_nullifier_spent n s"
    using facts(2) by (auto simp: is_nullifier_spent_def)
  show "distinct (nulls_of c)" by (rule facts(1))
  show "is_nullifier_spent n s' \<longleftrightarrow> is_nullifier_spent n s \<or> n \<in> set (nulls_of c)"
    using facts(3) by (simp add: is_nullifier_spent_def)
  have fin: "nulls_of c = []" if "snd c = FinalizeEpoch"
    using that by (cases c) auto
  show "get [] (epoch_nullifiers s') (current_epoch_id s)
          = get [] (epoch_nullifiers s) (current_epoch_id s) @ nulls_of c"
    using facts(4,5) fin by (cases "snd c = FinalizeEpoch") auto
  show "e < current_epoch_id s \<Longrightarrow> get [] (epoch_nullifiers s') e = get [] (epoch_nullifiers s) e" for e
    using facts(4,5) by (cases "snd c = FinalizeEpoch") auto
  show "current_epoch_id s < e \<Longrightarrow> get [] (epoch_nullifiers s') e = get [] (epoch_nullifiers s) e \<or>
          get [] (epoch_nullifiers s') e = []" for e
    using facts(4,5) by (cases "snd c = FinalizeEpoch") auto
  show "current_epoch_id s' = current_epoch_id s \<or> current_epoch_id s' = Suc (current_epoch_id s)"
    using facts(6) by auto
qed

section \<open>Properties of the contract\<close>

lemma near_run_tree:
  "tree_of h s xs \<Longrightarrow>
     tree_of h (run (dispatch h) s cs) (xs @ concat (map leaves_of (committed (dispatch h) s cs)))"
  by (rule run_accumulates [where R = "tree_of h"]) (assumption, rule near_dispatch_tree)

text \<open>
  C11: over any sequence of calls of the NEAR contract the nullifier strings of the calls that went
  through are pairwise different and were not spent before.
\<close>

theorem near_no_double_spend:
  "let spends = concat (map nulls_of (committed (dispatch h) s cs))
   in distinct spends \<and> set spends \<inter> {n. is_nullifier_spent n s} = {}"
  using near_ledger.no_double_spend [of h s cs] by (auto simp: Let_def)

text \<open>
  C12: from a freshly initialised contract and after any sequence of calls, the latest root is the root of
  the reference tree of depth 32 over exactly the commitments of the calls that went through, and
  a root is accepted exactly when it is one of the last 100 roots and not the zero hash.
\<close>

theorem near_tree_refines_reference:
  assumes "new h ctx False gov c a = Ok s0"
  shows "let s = run (dispatch h) s0 cs;
             xs = concat (map leaves_of (committed (dispatch h) s0 cs));
             root = tree_root (poseidon_hash_hex h) ZERO_HASH 32
         in get_latest_root s = root xs \<and> total_deposits (get_pool_status s) = length xs \<and>
            (is_known_root r s =
              (r \<noteq> ZERO_HASH \<and> (\<exists>k\<le>length xs. length xs < k + 100 \<and> r = root (take k xs))))"
proof -
  let ?s = "run (dispatch h) s0 cs"
  let ?xs = "concat (map leaves_of (committed (dispatch h) s0 cs))"
  have rep: "tree_of h ?s ?xs"
    using near_run_tree [OF new_tree [OF assms], of cs] by simp
  with near_tree_of_wf [OF rep] near_tree.latest_rep [OF rep] near_tree.known_rep [OF rep, of r]
  show ?thesis by (simp add: Let_def get_pool_status_def near_constants)
qed

text \<open>A host and a caller for concrete runs.\<close>

definition sample_host :: Host where
  "sample_host = \<lparr>keccak256 = (\<lambda>_. replicate 32 0), hex_encode = lower_hex\<rparr>"

definition sample_context :: Context where
  "sample_context = \<lparr>predecessor_account_id = ''alice.near'', attached_deposit = 5, block_height = 9\<rparr>"

definition sample_pool :: PrivacyPool where
  "sample_pool = \<lparr>next_leaf_index = 0,
     filled_subtrees = fst (init_subtrees sample_host 0 TREE_DEPTH ZERO_HASH Map.empty),
     roots = [0 \<mapsto> snd (init_subtrees sample_host 0 TREE_DEPTH ZERO_HASH Map.empty)], current_root_index = 0,
     nullifier_spent = Map.empty, commitment_exists = Map.empty, pool_balance = 0,
     current_epoch_id = 0, epochs = [0 \<mapsto> new_epoch sample_context], epoch_nullifiers = [0 \<mapsto> []],
     remote_epoch_roots = Map.empty, governance = ''gov.near'', authorized_relayer = None,
     domain_chain_id = 1, domain_app_id = 2, logs = [], promises = []\<rparr>"

lemma sample_new: "new sample_host sample_context False ''gov.near'' 1 2 = Ok sample_pool"
  by (simp add: new_def sample_pool_def assert_or_panic_def split: prod.splits)

lemma near_sample_deposit: "is_Ok (dispatch sample_host sample_pool (sample_context, Deposit ''ab''))"
proof -
  let ?s = "sample_pool\<lparr>commitment_exists := [''ab'' \<mapsto> True]\<rparr>"
  have wf: "wf_index ?s" and n: "next_leaf_index ?s = 0" and e: "commitment_exists sample_pool = Map.empty"
    by (simp_all add: sample_pool_def wf_index_def near_constants)
  have "next_leaf_index ?s < 2 ^ TREE_DEPTH" unfolding n TREE_DEPTH_def by simp
  then obtain i s' where ins: "insert_leaf sample_host ''ab'' ?s = Ok (i, s')"
    using near_insert_leaf_room [OF wf, of sample_host "''ab''"] by blast
  then have "pool_balance s' = 0"
    by (simp add: near_insert_leaf_frame sample_pool_def)
  with ins e show ?thesis
    by (simp add: deposit_def sample_context_def assert_or_panic_def uadd_def is_Ok_def)
qed

theorem near_tree_refines_reference_witness:
  "get_latest_root (run (dispatch sample_host) sample_pool [(sample_context, Deposit ''ab'')])
     = tree_root (poseidon_hash_hex sample_host) ZERO_HASH 32 [''ab'']"
  using near_tree_refines_reference [OF sample_new, of "[(sample_context, Deposit ''ab'')]"] near_sample_deposit
  by (simp add: Let_def)

section \<open>Conservation\<close>

fun paid_in :: "Context \<times> Call \<Rightarrow> nat" where
  "paid_in (ctx, Deposit _) = attached_deposit ctx"
| "paid_in _ = 0"

definition funds :: "PrivacyPool \<Rightarrow> nat" where
  "funds s = pool_balance s + sum_list (map snd (promises s))"

lemma dispatch_funds:
  assumes ok: "dispatch h s c = Ok s'"
  shows "funds s' = funds s + paid_in c"
proof (cases c rule: leaves_of.cases)
  case (1 ctx c)
  with ok show ?thesis
    by (simp, elim near_deposit_OkE) (simp add: funds_def near_insert_leaf_frame)
next
  case (2 ctx pr root nuls outs)
  with ok show ?thesis
    by (simp, elim near_transfer_OkE) (simp add: funds_def near_spending_facts)
next
  case (3 ctx pr root nuls outs recipient amt)
  with ok show ?thesis
    by (simp, elim near_withdraw_OkE) (simp add: funds_def near_spending_facts)
qed (use ok in \<open>auto elim!: near_finalize_epoch_OkE simp: funds_def near_maintenance_OkE\<close>)

text \<open>
  C13: value is conserved. Over any sequence of calls the recorded pool balance plus all payments promised
  to recipients grows by exactly the deposits attached to the deposit calls that went through.
\<close>

theorem near_value_conserved:
  "let s' = run (dispatch h) s cs
   in pool_balance s' + sum_list (map snd (promises s')) =
        pool_balance s + sum_list (map snd (promises s)) + sum_list (map paid_in (committed (dispatch h) s cs))"
proof -
  let ?R = "\<lambda>t xs. funds t = funds s + sum_list xs"
  have "?R (run (dispatch h) s cs) ([] @ concat (map (\<lambda>c. [paid_in c]) (committed (dispatch h) s cs)))"
    by (rule run_accumulates [where R = ?R]) (simp_all add: dispatch_funds)
  then show ?thesis by (simp add: funds_def Let_def concat_map_singleton)
qed

section \<open>Authorisation\<close>

text \<open>
  Only the governance account sets the relayer or closes an epoch, only governance or the authorised
  relayer records a remote root, and no call changes the governance account or the domain.
\<close>

lemma near_authorisation:
  assumes "dispatch h s (ctx, c) = Ok s'"
  shows "governance s' = governance s \<and> domain_chain_id s' = domain_chain_id s \<and>
    (authorized_relayer s' = authorized_relayer s \<or> predecessor_account_id ctx = governance s) \<and>
    (current_epoch_id s' = current_epoch_id s \<or> predecessor_account_id ctx = governance s) \<and>
    (remote_epoch_roots s' = remote_epoch_roots s \<or> predecessor_account_id ctx = governance s \<or>
       authorized_relayer s = Some (predecessor_account_id ctx))"
proof -
  have dom: "domain_chain_id s2 = domain_chain_id s1" if "insert_leaf h x s1 = Ok (i, s2)" for x s1 i s2
    using near_insert_leaf_Ok(3) [OF that] by simp
  show ?thesis
    using assms
    by (cases c) (auto elim!: near_OkE simp: near_maintenance_OkE near_insert_leaf_frame dom near_check_and_spend_Ok)
qed

theorem near_authorisation_witness:
  "\<exists>s'. dispatch sample_host sample_pool
     (sample_context\<lparr>predecessor_account_id := ''gov.near''\<rparr>, SetAuthorizedRelayer (Some ''bridge.near'')) = Ok s' \<and>
     governance s' = governance sample_pool \<and> authorized_relayer s' = Some ''bridge.near''"
proof -
  let ?ctx = "sample_context\<lparr>predecessor_account_id := ''gov.near''\<rparr>"
  let ?c = "SetAuthorizedRelayer (Some ''bridge.near'')"
  let ?s = "sample_pool\<lparr>authorized_relayer := Some ''bridge.near''\<rparr>"
  have ok: "dispatch sample_host sample_pool (?ctx, ?c) = Ok ?s"
    by (simp add: near_maintenance_OkE sample_pool_def)
  with near_authorisation [OF ok] show ?thesis by simp
qed

section \<open>Remote roots\<close>

lemma remote_key_eq: "remote_key a b = remote_key a' b' \<longleftrightarrow> a = a' \<and> b = b'"
  using dec_pair_eq [of "CHR '':''" a b a' b'] by (simp add: remote_key_def)

text \<open>
  C14: a remote epoch root that was recorded is read back under its chain and epoch and under no other,
  although both are joined into one text key.
\<close>

theorem near_remote_root_roundtrip:
  assumes "sync_epoch_root ctx chain epoch root s = Ok s'"
  shows "get_remote_epoch_root c e s' =
           (if c = chain \<and> e = epoch then Some root else get_remote_epoch_root c e s)"
  using assms by (auto simp: near_maintenance_OkE get_remote_epoch_root_def remote_key_eq)

theorem near_remote_root_roundtrip_witness:
  "\<exists>s'. sync_epoch_root (sample_context\<lparr>predecessor_account_id := ''gov.near''\<rparr>) 12 3 ''ff'' sample_pool = Ok s' \<and>
     get_remote_epoch_root 12 3 s' = Some ''ff'' \<and> get_remote_epoch_root 1 23 s' = None"
proof -
  let ?s = "sample_pool\<lparr>remote_epoch_roots := (remote_epoch_roots sample_pool)(remote_key 12 3 \<mapsto> ''ff''),
              logs := [LogRemoteEpochRoot 12 3 ''ff'']\<rparr>"
  have ok: "sync_epoch_root (sample_context\<lparr>predecessor_account_id := ''gov.near''\<rparr>) 12 3 ''ff'' sample_pool = Ok ?s"
    by (simp add: near_maintenance_OkE) (simp add: sample_pool_def)
  have "get_remote_epoch_root 1 23 sample_pool = None"
    by (simp add: get_remote_epoch_root_def sample_pool_def)
  with ok near_remote_root_roundtrip [OF ok] show ?thesis by simp
qed

section \<open>Epochs\<close>

definition epoch_closed :: "Host \<Rightarrow> PrivacyPool \<Rightarrow> nat \<Rightarrow> bool" where
  "epoch_closed h s e = (case get_epoch_info e s of None \<Rightarrow> False | Some ep \<Rightarrow>
     finalized ep \<and> nullifier_root ep = compute_nullifier_root h (get [] (epoch_nullifiers s) e) \<and>
     nullifier_count ep = length (get [] (epoch_nullifiers s) e) mod 2 ^ 32)"

definition epoch_open :: "PrivacyPool \<Rightarrow> nat \<Rightarrow> bool" where
  "epoch_open s e = (case get_epoch_info e s of None \<Rightarrow> False | Some ep \<Rightarrow> \<not> finalized ep)"

definition epochs_wf :: "Host \<Rightarrow> PrivacyPool \<Rightarrow> bool" where
  "epochs_wf h s \<longleftrightarrow> list_all (epoch_closed h s) [0..<current_epoch_id s] \<and> epoch_open s (current_epoch_id s)"

lemma near_dispatch_epoch_records:
  assumes ok: "dispatch h s c = Ok s'" and "snd c \<noteq> FinalizeEpoch"
  shows "epochs s' = epochs s"
  using assms
  by (cases c rule: leaves_of.cases)
    (auto elim!: near_deposit_OkE near_transfer_OkE near_withdraw_OkE simp: near_maintenance_OkE near_insert_leaf_frame near_check_and_spend_Ok)

lemma finalize_epochs_wf:
  assumes wf: "epochs_wf h s" and fin: "finalize_epoch h ctx s = Ok s'"
  shows "epochs_wf h s'"
  using fin
proof (rule near_finalize_epoch_OkE)
  fix epoch root count
  assume vals: "root = compute_nullifier_root h (get [] (epoch_nullifiers s) (current_epoch_id s))"
    "count = length (get [] (epoch_nullifiers s) (current_epoch_id s)) mod 2 ^ 32"
    and s': "s' = s\<lparr>current_epoch_id := current_epoch_id s + 1,
       epochs := (epochs s)(current_epoch_id s \<mapsto> epoch\<lparr>nullifier_root := root,
            nullifier_count := count, end_block := Some (block_height ctx), finalized := True\<rparr>,
          current_epoch_id s + 1 \<mapsto> new_epoch ctx),
       epoch_nullifiers := (epoch_nullifiers s)(current_epoch_id s + 1 \<mapsto> []),
       logs := logs s @ [LogEpochFinalized (current_epoch_id s) root count]\<rparr>"
  have "epoch_closed h s' e" if "epoch_closed h s e" "e < current_epoch_id s" for e
    using that by (simp add: s' epoch_closed_def get_epoch_info_def split: option.splits)
  moreover have "epoch_closed h s' (current_epoch_id s)" "epoch_open s' (current_epoch_id s + 1)"
    by (simp_all add: s' vals epoch_closed_def epoch_open_def get_epoch_info_def new_epoch_def)
  ultimately show ?thesis
    using wf by (auto simp: s' epochs_wf_def list_all_iff less_Suc_eq)
qed

lemma near_dispatch_epochs_wf:
  assumes wf: "epochs_wf h s" and ok: "dispatch h s c = Ok s'"
  shows "epochs_wf h s'"
proof (cases "snd c = FinalizeEpoch")
  case True
  then show ?thesis using wf ok finalize_epochs_wf by (cases c) auto
next
  case False
  note led = near_dispatch_ledger(4) [OF ok False] near_dispatch_ledger(6) [OF ok]
    and rec = near_dispatch_epoch_records [OF ok False]
  have "epoch_closed h s' e \<longleftrightarrow> epoch_closed h s e" if "e < current_epoch_id s" for e
    using that by (simp add: epoch_closed_def get_epoch_info_def rec led(1) split: option.splits)
  with wf led(2) False rec show ?thesis
    by (simp add: epochs_wf_def epoch_open_def get_epoch_info_def list_all_iff)
qed

lemma new_fields:
  assumes "new h ctx ex gov c a = Ok s"
  shows "epochs_wf h s" "get [] (epoch_nullifiers s) e = []" "current_epoch_id s = 0"
  using assms
  by (auto simp: new_def result_simps epochs_wf_def epoch_open_def get_epoch_info_def new_epoch_def
      split: prod.splits)

text \<open>
  C15: from a fresh NEAR contract, the epoch lists concatenated are the nullifiers of the calls that went
  through, in order; every epoch before the current one is finalized with the root and the count of
  its own list; the current one is open, so governance can always close it.
\<close>

theorem near_epoch_ledger:
  assumes "new h ctx False gov chain app = Ok s0"
  shows "let s = run (dispatch h) s0 cs
   in concat (map (get [] (epoch_nullifiers s)) [0..<Suc (current_epoch_id s)])
        = concat (map nulls_of (committed (dispatch h) s0 cs)) \<and>
      list_all (epoch_closed h s) [0..<current_epoch_id s] \<and> epoch_open s (current_epoch_id s)"
proof -
  let ?s = "run (dispatch h) s0 cs"
  have "epochs_wf h ?s"
    by (rule run_invariant [where I = "epochs_wf h"]) (rule new_fields(1) [OF assms], rule near_dispatch_epochs_wf)
  moreover have "concat (map (get [] (epoch_nullifiers ?s)) [0..<Suc (current_epoch_id ?s)])
        = concat (map nulls_of (committed (dispatch h) s0 cs))"
    by (rule near_ledger.epochs_partition) (rule new_fields(2) [OF assms])
  ultimately show ?thesis by (simp add: epochs_wf_def Let_def)
qed

theorem near_epoch_ledger_witness:
  "let s = run (dispatch sample_host) sample_pool
             [(sample_context\<lparr>predecessor_account_id := ''gov.near''\<rparr>, FinalizeEpoch)]
   in current_epoch_id s = 1 \<and> list_all (epoch_closed sample_host s) [0..<current_epoch_id s]"
proof -
  have "current_epoch_id (run (dispatch sample_host) sample_pool
             [(sample_context\<lparr>predecessor_account_id := ''gov.near''\<rparr>, FinalizeEpoch)]) = 1"
    by (simp add: commit_def finalize_epoch_def sample_pool_def assert_or_panic_def unwrap_def
        uadd_def new_epoch_def Let_def)
  with near_epoch_ledger [OF sample_new, of "[(sample_context\<lparr>predecessor_account_id := ''gov.near''\<rparr>, FinalizeEpoch)]"]
  show ?thesis by (simp add: Let_def)
qed

section \<open>What the binding binds\<close>

lemma concat_as_bytes: "concat (map as_bytes xs) = as_bytes (concat xs)"
  by (induction xs) auto

lemma all_zero_Nil: "all_zero_chars []"
  by (simp add: all_zero_chars_def)

text \<open>The equation between the tag and the transcript over the joined inputs.\<close>

definition binding_tag_ok :: "Host \<Rightarrow> string \<Rightarrow> string \<Rightarrow> bool" where
  "binding_tag_ok h pr inputs \<longleftrightarrow>
     take 64 pr = hex_encode h (keccak256 h (as_bytes ''Halo2-IPA-bind'' @
       keccak256 h (as_bytes inputs) @ as_bytes (drop 64 pr)))"

lemma verify_proof_binding_iff:
  "verify_proof_binding h pr root nuls outs \<longleftrightarrow>
     384 \<le> length pr \<and> length pr \<le> 8192 \<and> list_all is_ascii_hexdigit pr \<and> even (length pr) \<and>
     \<not> all_zero_chars pr \<and> \<not> (2 \<le> length nuls \<and> nuls ! 0 = nuls ! 1) \<and>
     list_all (\<lambda>n. \<not> all_zero_chars n) nuls \<and> \<not> all_zero_chars root \<and>
     list_all (\<lambda>n. \<not> all_zero_chars n) outs \<and> \<not> (2 \<le> length outs \<and> outs ! 0 = outs ! 1) \<and>
     binding_tag_ok h pr (root @ concat nuls @ concat outs)"
proof -
  have ex: "list_ex (\<lambda>n. n = [] \<or> all_zero_chars n) xs \<longleftrightarrow> \<not> list_all (\<lambda>n. \<not> all_zero_chars n) xs" for xs
    by (induction xs) (auto simp: all_zero_Nil)
  have z: "(root = [] \<or> all_zero_chars root) \<longleftrightarrow> all_zero_chars root"
    by (auto simp: all_zero_Nil)
  have len: "384 \<le> length pr \<Longrightarrow> \<not> length pr < 64" by simp
  show ?thesis
    unfolding verify_proof_binding_def Let_def ex z concat_as_bytes as_bytes_simps(2) [symmetric]
      even_iff_mod_2_eq_zero binding_tag_ok_def [symmetric]
    using len by auto
qed

text \<open>Two more leaves fit.\<close>

lemma near_insert_two_room:
  assumes "wf_index s" and "next_leaf_index s + 2 \<le> 2 ^ TREE_DEPTH"
  obtains i s2 j s3 where "insert_leaf h x s = Ok (i, s2)" "insert_leaf h y s2 = Ok (j, s3)"
proof -
  obtain i s2 where x: "insert_leaf h x s = Ok (i, s2)"
    using near_insert_leaf_room [OF assms(1), of h x] assms(2) by auto
  then have "wf_index s2" "next_leaf_index s2 < 2 ^ TREE_DEPTH"
    using near_insert_leaf_Ok(3) [OF x] assms(2) by (simp_all add: wf_index_def ROOT_HISTORY_SIZE_def)
  then obtain j s3 where "insert_leaf h y s2 = Ok (j, s3)" using near_insert_leaf_room [of s2 h y] by auto
  with x that show thesis by blast
qed

lemma near_spend_and_insert:
  assumes "wf_index s" and "next_leaf_index s + 2 \<le> 2 ^ TREE_DEPTH" and "length nuls = 2"
    and "distinct nuls" and "set nuls \<inter> dom (nullifier_spent s) = {}"
    and "length (get [] (epoch_nullifiers s) (current_epoch_id s)) + 2 \<le> MAX_NULLIFIERS_PER_EPOCH"
  obtains s1 i s2 j s3 where "check_and_spend_nullifiers nuls s = Ok s1"
    "insert_leaf h x s1 = Ok (i, s2)" "insert_leaf h y s2 = Ok (j, s3)"
proof -
  obtain s1 where c: "check_and_spend_nullifiers nuls s = Ok s1"
    using assms(3-6) by (auto simp: near_check_and_spend_Ok)
  then have "wf_index s1" "next_leaf_index s1 + 2 \<le> 2 ^ TREE_DEPTH"
    using assms(1,2) by (simp_all add: near_check_and_spend_Ok wf_index_def)
  then show thesis by (rule near_insert_two_room) (rule that [OF c])
qed

lemma near_withdraw_goes_through:
  assumes "wf_index s" and "next_leaf_index s + 2 \<le> 2 ^ TREE_DEPTH" and "length nuls = 2" and "length outs = 2"
    and "is_known_root root s" and "0 < amt" and "amt \<le> pool_balance s"
    and "distinct nuls" and "set nuls \<inter> dom (nullifier_spent s) = {}"
    and "length (get [] (epoch_nullifiers s) (current_epoch_id s)) + 2 \<le> MAX_NULLIFIERS_PER_EPOCH"
    and "verify_proof_binding h pr root nuls outs"
  obtains s' where "withdraw h pr root nuls outs recipient amt s = Ok s'"
    "pool_balance s' = pool_balance s - amt" "promises s' = promises s @ [(recipient, amt)]"
    "dom (nullifier_spent s') = dom (nullifier_spent s) \<union> set nuls"
proof -
  obtain s1 i s2 j s3 where c: "check_and_spend_nullifiers nuls s = Ok s1"
    and ins: "insert_leaf h (outs ! 0) s1 = Ok (i, s2)" "insert_leaf h (outs ! 1) s2 = Ok (j, s3)"
    using near_spend_and_insert [OF assms(1,2,3,8,9,10)] by blast
  note facts = near_spending_facts [OF c ins]
  let ?s' = "s3\<lparr>pool_balance := pool_balance s3 - amt, logs := logs s3 @ [LogWithdraw recipient amt],
    promises := promises s3 @ [(recipient, amt)]\<rparr>"
  have "withdraw h pr root nuls outs recipient amt s = Ok ?s'"
    using assms(3-7,11) c ins facts(6) by (simp add: withdraw_def assert_or_panic_def usub_def)
  moreover have "dom (nullifier_spent ?s') = dom (nullifier_spent s) \<union> set nuls"
    by (simp add: facts(3) dom_mark_all)
  ultimately show thesis using that facts(6,7) by simp
qed

text \<open>
  C16: a proof that was used once pays again. The binding tag covers root, nullifiers and outputs only as one
  concatenated text and neither the kind of call nor the payment. So in every reachable state, once a transfer has gone
  through, its proof also withdraws: whoever cuts the same text at other places, wherever the boundaries between root,
  nullifiers and outputs fall, into a known root, two unspent nullifiers and two outputs that are different and not all zeros,
  has any amount the pool holds paid to any recipient, as long as epoch and tree have room. All four nullifiers are
  spent then, for one proof.
\<close>

theorem near_proof_pays_again:
  assumes "new h ctx ex gov chain app = Ok s0" and "s = run (dispatch h) s0 cs"
    and "transfer h pr root nuls outs s = Ok s1"
    and "root' @ concat nuls' @ concat outs' = root @ concat nuls @ concat outs"
    and "length nuls' = 2" and "length outs' = 2" and "distinct nuls'" and "distinct outs'"
    and "list_all (\<lambda>x. \<not> all_zero_chars x) (nuls' @ outs')"
    and "is_known_root root' s1" and "\<not> all_zero_chars root'" and "set nuls' \<inter> dom (nullifier_spent s1) = {}"
    and "length (get [] (epoch_nullifiers s1) (current_epoch_id s1)) + 2 \<le> 10000"
    and "next_leaf_index s1 + 2 \<le> 2 ^ 32" and "0 < amt" and "amt \<le> pool_balance s1"
  shows "\<exists>s2. withdraw h pr root' nuls' outs' recipient amt s1 = Ok s2 \<and>
    pool_balance s2 = pool_balance s1 - amt \<and> promises s2 = promises s1 @ [(recipient, amt)] \<and>
    set nuls \<union> set nuls' \<subseteq> dom (nullifier_spent s2)"
proof -
  have call: "dispatch h s (ctx, Transfer pr root nuls outs) = Ok s1" using assms(3) by simp
  have "tree_of h s (concat (map leaves_of (committed (dispatch h) s0 cs)))"
    using near_run_tree [OF new_tree [OF assms(1)], of cs] by (simp add: assms(2))
  from near_dispatch_tree [OF this call] have wf: "wf_index s1" by (simp add: near_tree_of_wf)
  have "verify_proof_binding h pr root nuls outs" using assms(3) by (auto elim: near_transfer_OkE)
  moreover have "nuls' ! 0 \<noteq> nuls' ! 1" "outs' ! 0 \<noteq> outs' ! 1" using assms(5-8) by (simp_all add: nth_eq_iff_index_eq)
  ultimately have "verify_proof_binding h pr root' nuls' outs'"
    using assms(4,9,11) by (simp add: verify_proof_binding_iff)
  then obtain s2 where "withdraw h pr root' nuls' outs' recipient amt s1 = Ok s2"
    "pool_balance s2 = pool_balance s1 - amt" "promises s2 = promises s1 @ [(recipient, amt)]"
    "dom (nullifier_spent s2) = dom (nullifier_spent s1) \<union> set nuls'"
    using near_withdraw_goes_through [OF wf _ assms(5,6,10,15,16,7,12), where h = h and pr = pr] assms(13,14)
    by (auto simp: near_constants)
  moreover have "set nuls \<subseteq> dom (nullifier_spent s1)" using near_dispatch_ledger(3) [OF call] by simp
  ultimately show ?thesis by blast
qed

text \<open>A host whose digest is constant but not zero, and a pool with one deposit of five.\<close>

definition ones_host :: Host where
  "ones_host = \<lparr>keccak256 = (\<lambda>_. replicate 32 1), hex_encode = lower_hex\<rparr>"

definition ones_root :: string where
  "ones_root = concat (replicate 32 ''01'')"

lemma ones_hash: "poseidon_hash_hex ones_host x y = ones_root"
proof -
  have "lower_hex (replicate n 1) = concat (replicate n ''01'')" for n
    by (induction n) (simp_all add: lower_hex_def nibble_def char_of_def bit_0)
  then show ?thesis by (simp add: poseidon_hash_hex_def ones_host_def ones_root_def)
qed

lemma ones_root_known:
  assumes "tree_of ones_host s xs" shows "is_known_root ones_root s"
proof -
  have "tree_root (poseidon_hash_hex ones_host) ZERO_HASH TREE_DEPTH xs = ones_root"
    using node.simps(2) [of "poseidon_hash_hex ones_host" "padded ZERO_HASH xs" 31 0]
    by (simp add: tree_root_def TREE_DEPTH_def ones_hash)
  moreover have "ones_root \<noteq> ZERO_HASH" by (simp add: ones_root_def ZERO_HASH_def numeral_eq_Suc)
  ultimately show ?thesis
    using near_tree.known_rep [OF assms, of ones_root] by (auto intro!: exI [of _ "length xs"] simp: ROOT_HISTORY_SIZE_def)
qed

lemma near_deposit_goes_through:
  assumes "wf_index s" and "next_leaf_index s < 2 ^ TREE_DEPTH" and "c \<notin> dom (commitment_exists s)"
    and "0 < attached_deposit ctx" and "pool_balance s + attached_deposit ctx < 2 ^ 128"
  obtains s' where "deposit h ctx c s = Ok s'" "pool_balance s' = pool_balance s + attached_deposit ctx"
    "nullifier_spent s' = nullifier_spent s" "epoch_nullifiers s' = epoch_nullifiers s" "current_epoch_id s' = current_epoch_id s"
proof -
  let ?s = "s\<lparr>commitment_exists := (commitment_exists s)(c \<mapsto> True)\<rparr>"
  have "wf_index ?s" using assms(1) by (simp add: wf_index_def)
  from near_insert_leaf_room [OF this, of h c] assms(2) obtain i s1 where ins: "insert_leaf h c ?s = Ok (i, s1)" by auto
  let ?s' = "s1\<lparr>pool_balance := pool_balance s1 + attached_deposit ctx,
    logs := logs s1 @ [LogDeposit c i (attached_deposit ctx)]\<rparr>"
  have "deposit h ctx c s = Ok ?s'"
    using ins assms(3-5) near_insert_leaf_frame(3) [OF ins] by (simp add: deposit_def assert_or_panic_def uadd_def Let_def)
  with that near_insert_leaf_frame [OF ins] show thesis by simp
qed

definition ones_proof :: string where
  "ones_proof = ones_root @ replicate 320 CHR ''1''"

lemma ones_proof_binds:
  "verify_proof_binding ones_host ones_proof ones_root [''12'', ''3''] [''4'', ''5'']"
proof -
  have r: "lower_hex (replicate 32 1) = ones_root" using ones_hash by (simp add: poseidon_hash_hex_def ones_host_def)
  have "length ones_root = 64" "list_all is_ascii_hexdigit ones_root" "\<not> all_zero_chars ones_root"
    by (simp_all add: ones_root_def is_ascii_hexdigit_def hex_digit_def all_zero_chars_def numeral_eq_Suc)
  then show ?thesis
    by (simp add: verify_proof_binding_iff binding_tag_ok_def ones_proof_def ones_host_def r list_all_iff
        is_ascii_hexdigit_def hex_digit_def all_zero_chars_def)
qed

theorem near_proof_pays_again_witness:
  "\<exists>s0 s1 s2. new ones_host sample_context False ''gov.near'' 1 2 = Ok s0 \<and>
     transfer ones_host ones_proof ones_root [''12'', ''3''] [''4'', ''5'']
       (run (dispatch ones_host) s0 [(sample_context, Deposit ''ab'')]) = Ok s1 \<and>
     withdraw ones_host ones_proof ones_root [''1'', ''23''] [''4'', ''5''] ''eve.near'' 5 s1 = Ok s2 \<and>
     promises s2 = promises s1 @ [(''eve.near'', 5)]"
proof -
  obtain s0 where s0: "new ones_host sample_context False ''gov.near'' 1 2 = Ok s0"
    "nullifier_spent s0 = Map.empty" "commitment_exists s0 = Map.empty" "pool_balance s0 = 0" "current_epoch_id s0 = 0"
    "epoch_nullifiers s0 = [0 \<mapsto> []]"
    by (cases "init_subtrees ones_host 0 TREE_DEPTH ZERO_HASH Map.empty") (simp add: new_def assert_or_panic_def)
  note t0 = new_tree [OF s0(1)]
  have "next_leaf_index s0 < 2 ^ TREE_DEPTH" using near_tree_of_wf [OF t0] by simp
  then obtain s where s: "deposit ones_host sample_context ''ab'' s0 = Ok s" "pool_balance s = 5"
    "nullifier_spent s = Map.empty" "epoch_nullifiers s = [0 \<mapsto> []]" "current_epoch_id s = 0"
    using near_deposit_goes_through [of s0 "''ab''" sample_context ones_host] near_tree_of_wf [OF t0] s0
    by (auto simp: sample_context_def)
  have t: "tree_of ones_host s [''ab'']"
    using near_dispatch_tree [OF t0, of "(sample_context, Deposit ''ab'')" s] s(1) by simp
  have "\<exists>u i v j w. check_and_spend_nullifiers [''12'', ''3''] s = Ok u \<and>
      insert_leaf ones_host ''4'' u = Ok (i, v) \<and> insert_leaf ones_host ''5'' v = Ok (j, w)"
    by (rule near_spend_and_insert [of s "[''12'', ''3'']" ones_host "''4''" "''5''"])
      (use near_tree_of_wf [OF t] s in \<open>auto simp: near_constants\<close>)
  then obtain u i v j w where c: "check_and_spend_nullifiers [''12'', ''3''] s = Ok u"
    and ins: "insert_leaf ones_host ''4'' u = Ok (i, v)" "insert_leaf ones_host ''5'' v = Ok (j, w)" by blast
  let ?s1 = "w\<lparr>logs := logs w @ [LogTransfer ''12'' ''3'' ''4'' ''5'']\<rparr>"
  have tr: "transfer ones_host ones_proof ones_root [''12'', ''3''] [''4'', ''5''] s = Ok ?s1"
    using c ins ones_root_known [OF t] ones_proof_binds by (simp add: transfer_def assert_or_panic_def)
  have t1: "tree_of ones_host ?s1 [''ab'', ''4'', ''5'']"
    using near_dispatch_tree [OF t, of "(sample_context, Transfer ones_proof ones_root [''12'', ''3''] [''4'', ''5''])"] tr
    by simp
  have run: "s = run (dispatch ones_host) s0 [(sample_context, Deposit ''ab'')]" using s(1) by (simp add: commit_def)
  have "\<not> all_zero_chars ones_root" by (simp add: ones_root_def all_zero_chars_def numeral_eq_Suc)
  then obtain s2 where "withdraw ones_host ones_proof ones_root [''1'', ''23''] [''4'', ''5''] ''eve.near'' 5 ?s1 = Ok s2"
    "promises s2 = promises ?s1 @ [(''eve.near'', 5)]"
    using near_proof_pays_again [OF s0(1) run tr, of ones_root "[''1'', ''23'']" "[''4'', ''5'']" 5 "''eve.near''"]
      ones_root_known [OF t1] near_tree_of_wf [OF t1] near_spending_facts [OF c ins] s
    by (auto simp: all_zero_chars_def)
  with s0(1) tr show ?thesis unfolding run by blast
qed

end
