(* ===== verification/Cosmwasm_Poseidon.thy ===== *)
theory Cosmwasm_Poseidon
  imports Poseidon_Spec Codec
begin

text \<open>
  The Poseidon hash of the CosmWasm contract (\<open>cosmwasm/contracts/privacy-pool/src/poseidon.rs\<close>).
  The constants are hexadecimal text that the code parses on every use, so every function can in
  principle panic; it is shown that only the arguments of \<open>poseidon_hash_hex\<close> can cause that.
  \<open>hex::encode\<close> is an argument.
\<close>

type_synonym u256x3 = "u256 \<times> u256 \<times> u256"

section \<open>Field arithmetic\<close>

definition BN254_P_BYTES :: "u8 list" where
  "BN254_P_BYTES = [0x30, 0x64, 0x4e, 0x72, 0xe1, 0x31, 0xa0, 0x29, 0xb8, 0x50, 0x45, 0xb6, 0x81, 0x81, 0x58, 0x5d, 0x28, 0x33, 0xe8, 0x48, 0x79, 0xb9, 0x70, 0x91, 0x43, 0xe1, 0xf5, 0x93, 0xf0, 0x00, 0x00, 0x01]"

text \<open>\<open>Uint256::from_be_bytes\<close>, and \<open>Uint256::try_from(_).unwrap()\<close> on a 512-bit integer.\<close>

definition u256_from_be :: "u8 list \<Rightarrow> u256" where
  "u256_from_be bs = of_nat (from_be_bytes bs)"

definition narrow_unwrap :: "u512 \<Rightarrow> ('e, u256) result" where
  "narrow_unwrap x = (if unat x < 2 ^ 256 then Ok (ucast x) else Panic)"

definition bn254_p :: u256 where
  "bn254_p = u256_from_be BN254_P_BYTES"

definition addmod :: "u256 \<Rightarrow> u256 \<Rightarrow> ('e, u256) result" where
  "addmod a b =
     (let p_val = bn254_p;
          sum = ucast a + ucast b :: u512;
          r = sum mod ucast p_val
      in narrow_unwrap r)"

definition mulmod :: "u256 \<Rightarrow> u256 \<Rightarrow> ('e, u256) result" where
  "mulmod a b =
     (let p_val = bn254_p;
          prod = (ucast a * ucast b :: u512) mod ucast p_val
      in narrow_unwrap prod)"

definition sbox :: "u256 \<Rightarrow> ('e, u256) result" where
  "sbox x =
     bind_result (mulmod x x) (\<lambda>x2.
     bind_result (mulmod x2 x2) (\<lambda>x4.
     mulmod x4 x))"

definition rc_from_hex :: "string \<Rightarrow> ('e, u256) result" where
  "rc_from_hex s = bind_result (hex_to_32 s) (\<lambda>b. Ok (u256_from_be b))"

section \<open>Constants and rounds\<close>

definition mds00 :: "('e, u256) result" where
  "mds00 = rc_from_hex ''109b7f411ba0e4c9b2b70caf5c36a7b194be7c11ad24378bfedb68592ba8118b''"

definition mds01 :: "('e, u256) result" where
  "mds01 = rc_from_hex ''2969f27eed31a480b9c36c764379dbca2cc8fdd1415c3dded62940bcde0bd771''"

definition mds02 :: "('e, u256) result" where
  "mds02 = rc_from_hex ''143021ec686a3f330d5f9e654638065ce6cd79e28c5b3753326244ee65a1b1a7''"

definition mds10 :: "('e, u256) result" where
  "mds10 = rc_from_hex ''16ed41e13bb9c0c66ae119424fddbcbc9314dc9fdbdeea55d6c64543dc4903e0''"

definition mds11 :: "('e, u256) result" where
  "mds11 = rc_from_hex ''2e2419f9ec02ec394c9871c832963dc1b89d743c8c7b964029b2311687b1fe23''"

definition mds12 :: "('e, u256) result" where
  "mds12 = rc_from_hex ''176cc029695ad02582a70eff08a6fd99d057e12e58e7d7b6b16cdfabc8ee2911''"

definition mds20 :: "('e, u256) result" where
  "mds20 = rc_from_hex ''2b90bba00fca0589f617e7dcbfe82e0df706ab640ceb247b791a93b74e36736d''"

definition mds21 :: "('e, u256) result" where
  "mds21 = rc_from_hex ''101071f0032379b697315571086d26850e39a080c3a3118b11aced26d3de9c1a''"

definition mds22 :: "('e, u256) result" where
  "mds22 = rc_from_hex ''19a3fc0a56702bf417ba7fee3802593fa644470307043f7773e0e01e2680fb05''"

text \<open>One row of the matrix product, in the order the code evaluates it.\<close>

definition mds_row ::
  "('e, u256) result \<Rightarrow> ('e, u256) result \<Rightarrow> ('e, u256) result \<Rightarrow> u256x3 \<Rightarrow> ('e, u256) result" where
  "mds_row m0 m1 m2 state = (case state of (s0, s1, s2) \<Rightarrow>
     bind_result (bind_result m0 (\<lambda>m. mulmod m s0)) (\<lambda>a.
     bind_result (bind_result m1 (\<lambda>m. mulmod m s1)) (\<lambda>b.
     bind_result (addmod a b) (\<lambda>ab.
     bind_result (bind_result m2 (\<lambda>m. mulmod m s2)) (\<lambda>c.
     addmod ab c)))))"

definition mds :: "u256x3 \<Rightarrow> ('e, u256x3) result" where
  "mds state =
     bind_result (mds_row mds00 mds01 mds02 state) (\<lambda>r0.
     bind_result (mds_row mds10 mds11 mds12 state) (\<lambda>r1.
     bind_result (mds_row mds20 mds21 mds22 state) (\<lambda>r2.
     Ok (r0, r1, r2))))"

definition FULL_RC_FIRST :: "(string \<times> string \<times> string) list" where
  "FULL_RC_FIRST =
  [(''0ee9a592ba9a9518d05986d656f40c2114c4993c11bb29571f29d4ac50a4b6b1'',
    ''00f1445235f2148c5986587169fc1bcd887b08d4d00868df5696fff40956e864'',
    ''08dff3487e8ac99e1f29a058d0fa80b930c728730b7ab36ce879f3890ecf73f5''),
   (''2f27be690fdaee46c3ce28f7532b13c856c35342c84bda6e20966310fadc01d0'',
    ''2b2ae1acf68b7b8d2416571a5e5d76ab4fe18b07f2a6f63f63f7c8b0d12e0aab'',
    ''0d4c5de80775b15580ae0631da32c4bbfecb5b0fa26ce7cd2c4f36a12d5a0a29''),
   (''1a5b6e41af31d9e7742f12d70a77ff91cae77d594a4e80d0bb8cc247920a4b6a'',
    ''30644e72e131a029b85045b68181585d97816a916871ca8d3c208c16d87cfd15'',
    ''061b11060fcc69d16e44e0e23b1b3c2e5db7e7536e1e8ca83a8b3b41e6c0259c''),
   (''197e89ac09ad23a3c76a7f3f27c5bb90aa9e2dcf4d3f8837be7dfd637ee9fee6'',
    ''103e21d1e80efa38c8e89b02cef75a4942a1e67fdf10b0dd4f1a7a0c9bf62037'',
    ''0e0c82b0b71c1bcdf5283e8e5b6683a68b0e79f93ca9faba7f67854de6a2b59d'')]"

definition PARTIAL_RC :: "string list" where
  "PARTIAL_RC =
  [''2c4c5de8b4f2a1e3d7b9c6f0a5e8d3c1b4f7a2e6d9c3b8f1a5e2d7c4b9f6a3e0'',
   ''1a3b5c7d9e0f2a4b6c8d0e1f3a5b7c9d1e3f5a7b9c1d3e5f7a9b1c3d5e7f9a1b'',
   ''0e1d2c3b4a5f6e7d8c9b0a1f2e3d4c5b6a7f8e9d0c1b2a3f4e5d6c7b8a9f0e1d'',
   ''1f0e2d3c4b5a6f7e8d9c0b1a2f3e4d5c6b7a8f9e0d1c2b3a4f5e6d7c8b9a0f1e'',
   ''2a1b3c4d5e6f7a8b9c0d1e2f3a4b5c6d7e8f9a0b1c2d3e4f5a6b7c8d9e0f1a2b'',
   ''0b2c3d4e5f6a7b8c9d0e1f2a3b4c5d6e7f8a9b0c1d2e3f4a5b6c7d8e9f0a1b2c'',
   ''1c3d4e5f6a7b8c9d0e1f2a3b4c5d6e7f8a9b0c1d2e3f4a5b6c7d8e9f0a1b2c3d'',
   ''2d4e5f6a7b8c9d0e1f2a3b4c5d6e7f8a9b0c1d2e3f4a5b6c7d8e9f0a1b2c3d4e'',
   ''0e5f6a7b8c9d0e1f2a3b4c5d6e7f8a9b0c1d2e3f4a5b6c7d8e9f0a1b2c3d4e5f'',
   ''1f6a7b8c9d0e1f2a3b4c5d6e7f8a9b0c1d2e3f4a5b6c7d8e9f0a1b2c3d4e5f6a'',
   ''2a7b8c9d0e1f2a3b4c5d6e7f8a9b0c1d2e3f4a5b6c7d8e9f0a1b2c3d4e5f6a7b'',
   ''0b8c9d0e1f2a3b4c5d6e7f8a9b0c1d2e3f4a5b6c7d8e9f0a1b2c3d4e5f6a7b8c'',
   ''1c9d0e1f2a3b4c5d6e7f8a9b0c1d2e3f4a5b6c7d8e9f0a1b2c3d4e5f6a7b8c9d'',
   ''2d0e1f2a3b4c5d6e7f8a9b0c1d2e3f4a5b6c7d8e9f0a1b2c3d4e5f6a7b8c9d0e'',
   ''0e1f2a3b4c5d6e7f8a9b0c1d2e3f4a5b6c7d8e9f0a1b2c3d4e5f6a7b8c9d0e1f'',
   ''1f2a3b4c5d6e7f8a9b0c1d2e3f4a5b6c7d8e9f0a1b2c3d4e5f6a7b8c9d0e1f2a'',
   ''2a3b4c5d6e7f8a9b0c1d2e3f4a5b6c7d8e9f0a1b2c3d4e5f6a7b8c9d0e1f2a3b'',
   ''0b4c5d6e7f8a9b0c1d2e3f4a5b6c7d8e9f0a1b2c3d4e5f6a7b8c9d0e1f2a3b4c'',
   ''1c5d6e7f8a9b0c1d2e3f4a5b6c7d8e9f0a1b2c3d4e5f6a7b8c9d0e1f2a3b4c5d'',
   ''2d6e7f8a9b0c1d2e3f4a5b6c7d8e9f0a1b2c3d4e5f6a7b8c9d0e1f2a3b4c5d6e'',
   ''0e7f8a9b0c1d2e3f4a5b6c7d8e9f0a1b2c3d4e5f6a7b8c9d0e1f2a3b4c5d6e7f'',
   ''1f8a9b0c1d2e3f4a5b6c7d8e9f0a1b2c3d4e5f6a7b8c9d0e1f2a3b4c5d6e7f8a'',
   ''2a9b0c1d2e3f4a5b6c7d8e9f0a1b2c3d4e5f6a7b8c9d0e1f2a3b4c5d6e7f8a9b'',
   ''0b0c1d2e3f4a5b6c7d8e9f0a1b2c3d4e5f6a7b8c9d0e1f2a3b4c5d6e7f8a9b0c'',
   ''1c1d2e3f4a5b6c7d8e9f0a1b2c3d4e5f6a7b8c9d0e1f2a3b4c5d6e7f8a9b0c1d'',
   ''2d2e3f4a5b6c7d8e9f0a1b2c3d4e5f6a7b8c9d0e1f2a3b4c5d6e7f8a9b0c1d2e'',
   ''0e3f4a5b6c7d8e9f0a1b2c3d4e5f6a7b8c9d0e1f2a3b4c5d6e7f8a9b0c1d2e3f'',
   ''1f4a5b6c7d8e9f0a1b2c3d4e5f6a7b8c9d0e1f2a3b4c5d6e7f8a9b0c1d2e3f4a'',
   ''2a5b6c7d8e9f0a1b2c3d4e5f6a7b8c9d0e1f2a3b4c5d6e7f8a9b0c1d2e3f4a5b'',
   ''0b6c7d8e9f0a1b2c3d4e5f6a7b8c9d0e1f2a3b4c5d6e7f8a9b0c1d2e3f4a5b6c'',
   ''1c7d8e9f0a1b2c3d4e5f6a7b8c9d0e1f2a3b4c5d6e7f8a9b0c1d2e3f4a5b6c7d'',
   ''2d8e9f0a1b2c3d4e5f6a7b8c9d0e1f2a3b4c5d6e7f8a9b0c1d2e3f4a5b6c7d8e'',
   ''0e9f0a1b2c3d4e5f6a7b8c9d0e1f2a3b4c5d6e7f8a9b0c1d2e3f4a5b6c7d8e9f'',
   ''1f0a1b2c3d4e5f6a7b8c9d0e1f2a3b4c5d6e7f8a9b0c1d2e3f4a5b6c7d8e9f0a'',
   ''2a1b2c3d4e5f6a7b8c9d0e1f2a3b4c5d6e7f8a9b0c1d2e3f4a5b6c7d8e9f0a1b'',
   ''0b2c3d4e5f6a7b8c9d0e1f2a3b4c5d6e7f8a9b0c1d2e3f4a5b6c7d8e9f0a1b2c'',
   ''1c3d4e5f6a7b8c9d0e1f2a3b4c5d6e7f8a9b0c1d2e3f4a5b6c7d8e9f0a1b2c3d'',
   ''2d4e5f6a7b8c9d0e1f2a3b4c5d6e7f8a9b0c1d2e3f4a5b6c7d8e9f0a1b2c3d4e'',
   ''0e5f6a7b8c9d0e1f2a3b4c5d6e7f8a9b0c1d2e3f4a5b6c7d8e9f0a1b2c3d4e5f'',
   ''1f6a7b8c9d0e1f2a3b4c5d6e7f8a9b0c1d2e3f4a5b6c7d8e9f0a1b2c3d4e5f6a'',
   ''2a7b8c9d0e1f2a3b4c5d6e7f8a9b0c1d2e3f4a5b6c7d8e9f0a1b2c3d4e5f6a7b'',
   ''0b8c9d0e1f2a3b4c5d6e7f8a9b0c1d2e3f4a5b6c7d8e9f0a1b2c3d4e5f6a7b8c'',
   ''1c9d0e1f2a3b4c5d6e7f8a9b0c1d2e3f4a5b6c7d8e9f0a1b2c3d4e5f6a7b8c9d'',
   ''2d0e1f2a3b4c5d6e7f8a9b0c1d2e3f4a5b6c7d8e9f0a1b2c3d4e5f6a7b8c9d0e'',
   ''0e1f2a3b4c5d6e7f8a9b0c1d2e3f4a5b6c7d8e9f0a1b2c3d4e5f6a7b8c9d0e1e'',
   ''1f2a3b4c5d6e7f8a9b0c1d2e3f4a5b6c7d8e9f0a1b2c3d4e5f6a7b8c9d0e1f29'',
   ''2a3b4c5d6e7f8a9b0c1d2e3f4a5b6c7d8e9f0a1b2c3d4e5f6a7b8c9d0e1f2a3a'',
   ''0b4c5d6e7f8a9b0c1d2e3f4a5b6c7d8e9f0a1b2c3d4e5f6a7b8c9d0e1f2a3b4b'',
   ''1c5d6e7f8a9b0c1d2e3f4a5b6c7d8e9f0a1b2c3d4e5f6a7b8c9d0e1f2a3b4c5c'',
   ''2d6e7f8a9b0c1d2e3f4a5b6c7d8e9f0a1b2c3d4e5f6a7b8c9d0e1f2a3b4c5d6d'',
   ''0e7f8a9b0c1d2e3f4a5b6c7d8e9f0a1b2c3d4e5f6a7b8c9d0e1f2a3b4c5d6e7e'',
   ''1f8a9b0c1d2e3f4a5b6c7d8e9f0a1b2c3d4e5f6a7b8c9d0e1f2a3b4c5d6e7f8f'',
   ''2a9b0c1d2e3f4a5b6c7d8e9f0a1b2c3d4e5f6a7b8c9d0e1f2a3b4c5d6e7f8a90'',
   ''0b0c1d2e3f4a5b6c7d8e9f0a1b2c3d4e5f6a7b8c9d0e1f2a3b4c5d6e7f8a9b01'',
   ''1c1d2e3f4a5b6c7d8e9f0a1b2c3d4e5f6a7b8c9d0e1f2a3b4c5d6e7f8a9b0c12'',
   ''2d2e3f4a5b6c7d8e9f0a1b2c3d4e5f6a7b8c9d0e1f2a3b4c5d6e7f8a9b0c1d23'',
   ''0e3f4a5b6c7d8e9f0a1b2c3d4e5f6a7b8c9d0e1f2a3b4c5d6e7f8a9b0c1d2e34'']"

definition FULL_RC_LAST :: "(string \<times> string \<times> string) list" where
  "FULL_RC_LAST =
  [(''2a3c4b4e8a85c73ab72f434436ac13b24e72e9c3affa7d9a1ae3f9437bec1a30'',
    ''14c462ddcd20ee7270b568f6fa18de39b20a3e5e9e113a5dbaf06e3ac3740e87'',
    ''2ed5f0c2e5c21db56ded40ab1dfc01c00015b42de8eac7b02bf4369aa67cdef3''),
   (''1db77fd6dc7e6ecd8bb6beb7e0f4ac2e63756cd0caa6f1ce3bddd41ecb8a7f4b'',
    ''12b16a15f89fbb8b44b7dc1f3c4e26f7632d74f5ec4680ec40acf1a0cc4a3564'',
    ''26c7b01d4cf0a0466c85e06929d38c9af224ed7e0e3a40e08c5b96eb1ad9a0f3''),
   (''0eedab92c2ecc86f52cc18c3cac2fd7e5a3ce5c5e38ad481a0b2c214f2d5a47c'',
    ''23e5cd4b30fb42e4c2e86143fbe3de7ed95d8f9a459e2c2d3ad7b9bea651c7d7'',
    ''02b4a3ef3e127d9af8f3a8dd6547ddbff086e64d6db62cf6fb674e7a9f8e7be3''),
   (''1eb9b4e7e3c75b1f9e4c2ed4b7f0ced37c0aef3db4a1d7e5b3c0f38a6c12d045'',
    ''2d8a2c4c2e5f67c1b0d89a34e5fc7db3a4c5b6e2f1a3d9e8b7c5a6f3d1e2b4a8'',
    ''0f3e29c4b7a8d1e5f2c6b3a9d8e7f5c4b1a6d3e2f9c8b7a5d4e3f1c2b6a9d8e7'')]"

definition arc_sbox :: "u256 \<Rightarrow> string \<Rightarrow> ('e, u256) result" where
  "arc_sbox x rc =
     bind_result (rc_from_hex rc) (\<lambda>c. bind_result (addmod x c) sbox)"

definition full_round :: "string \<times> string \<times> string \<Rightarrow> u256x3 \<Rightarrow> ('e, u256x3) result" where
  "full_round rc state = (case (rc, state) of ((c0, c1, c2), (s0, s1, s2)) \<Rightarrow>
     bind_result (arc_sbox s0 c0) (\<lambda>s0.
     bind_result (arc_sbox s1 c1) (\<lambda>s1.
     bind_result (arc_sbox s2 c2) (\<lambda>s2.
     mds (s0, s1, s2)))))"

definition partial_round :: "string \<Rightarrow> u256x3 \<Rightarrow> ('e, u256x3) result" where
  "partial_round rc_hex state = (case state of (s0, s1, s2) \<Rightarrow>
     bind_result (arc_sbox s0 rc_hex) (\<lambda>s0. mds (s0, s1, s2)))"

fun for_each :: "('r \<Rightarrow> 's \<Rightarrow> ('e, 's) result) \<Rightarrow> 'r list \<Rightarrow> 's \<Rightarrow> ('e, 's) result" where
  "for_each f [] s = Ok s"
| "for_each f (r # rs) s = bind_result (f r s) (for_each f rs)"

definition permute :: "u256x3 \<Rightarrow> ('e, u256x3) result" where
  "permute state =
     bind_result (for_each full_round FULL_RC_FIRST state) (\<lambda>state.
     bind_result (for_each partial_round PARTIAL_RC state) (\<lambda>state.
     for_each full_round FULL_RC_LAST state))"

definition poseidon_hash_hex :: "(u8 list \<Rightarrow> string) \<Rightarrow> string \<Rightarrow> string \<Rightarrow> ('e, string) result" where
  "poseidon_hash_hex hex_encode left right =
     bind_result (hex_to_32 left) (\<lambda>left_bytes.
     bind_result (hex_to_32 right) (\<lambda>right_bytes.
     let p_val = bn254_p;
         l = u256_from_be left_bytes mod p_val;
         r = u256_from_be right_bytes mod p_val in
     bind_result (permute (0, l, r)) (\<lambda>state.
     Ok (hex_encode (h256_bytes (fst state))))))"

section \<open>No step panics\<close>

lemma unat_of_nat_mod_scalar [simp]: "unat (of_nat (n mod bn254_scalar) :: u256) = n mod bn254_scalar"
proof (rule unat_of_nat_256)
  have "n mod bn254_scalar < bn254_scalar" by (rule mod_less_divisor) (simp add: bn254_scalar_def)
  also have "\<dots> < 2 ^ 256" by (simp add: bn254_scalar_def)
  finally show "n mod bn254_scalar < 2 ^ 256" .
qed

lemma unat_bn254_p: "unat bn254_p = bn254_scalar"
proof -
  have eq: "bn254_p = of_nat bn254_scalar"
    by (simp add: bn254_p_def u256_from_be_def BN254_P_BYTES_def from_be_bytes_def bn254_scalar_def)
  show ?thesis
    unfolding eq by (rule unat_of_nat_256) (simp add: bn254_scalar_def)
qed

lemma bn254_p_nz: "bn254_p \<noteq> 0"
  using unat_bn254_p by (auto simp: bn254_scalar_def)

lemma narrow_unwrap_Ok: "unat x < 2 ^ 256 \<Longrightarrow> narrow_unwrap x = Ok (of_nat (unat x))"
  by (simp add: narrow_unwrap_def word_unat_eq_iff unat_narrow unat_of_nat_256)

lemma addmod_Ok: "addmod a b = Ok (of_nat ((unat a + unat b) mod bn254_scalar))"
  unfolding addmod_def Let_def
  by (subst narrow_unwrap_Ok)
    (simp_all only: unat_wide_addmod unat_bn254_p mod_u256_less [OF bn254_p_nz, unfolded unat_bn254_p])

lemma mulmod_Ok: "mulmod a b = Ok (of_nat (unat a * unat b mod bn254_scalar))"
  unfolding mulmod_def Let_def
  by (subst narrow_unwrap_Ok)
    (simp_all only: unat_wide_mulmod unat_bn254_p mod_u256_less [OF bn254_p_nz, unfolded unat_bn254_p])

lemma unat_of_nat_pow5 [simp]: "unat (of_nat (pow5 bn254_scalar n) :: u256) = pow5 bn254_scalar n"
  by (simp add: pow5_def)

lemma unat_of_nat_dot [simp]: "unat (of_nat (dot bn254_scalar r s) :: u256) = dot bn254_scalar r s"
  by (cases r; cases s) simp

lemma sbox_Ok: "sbox x = Ok (of_nat (pow5 bn254_scalar (unat x)))"
  by (simp add: sbox_def mulmod_Ok pow5_steps)

definition of_nat3 :: "nat3 \<Rightarrow> u256x3" where
  "of_nat3 s = (case s of (x, y, w) \<Rightarrow> (of_nat x, of_nat y, of_nat w))"

definition unat3 :: "u256x3 \<Rightarrow> nat3" where
  "unat3 s = (case s of (x, y, w) \<Rightarrow> (unat x, unat y, unat w))"

lemma mds_row_Ok:
  "mds_row (Ok m0) (Ok m1) (Ok m2) s = Ok (of_nat (dot bn254_scalar (unat m0, unat m1, unat m2) (unat3 s)))"
  by (cases s) (simp add: mds_row_def unat3_def mulmod_Ok addmod_Ok dot_steps del: dot.simps)

lemma rc_from_hex_digits:
  assumes "list_all (\<lambda>c. hex_digit c \<noteq> None) s" and "length s = 64"
  shows "rc_from_hex s = Ok (of_nat (foldl (\<lambda>a c. 16 * a + hex_val c) 0 s))"
  using hex_to_32_digits [OF assms, where ?'a = 'a] by (auto simp: rc_from_hex_def u256_from_be_def)

lemmas rc_eval = rc_from_hex_digits hex_digit_lit hex_val_lit

lemma mds_constants:
  "mds00 = Ok (of_nat (fst mds_row0))" "mds01 = Ok (of_nat (fst (snd mds_row0)))"
  "mds02 = Ok (of_nat (snd (snd mds_row0)))"
  "mds10 = Ok (of_nat (fst mds_row1))" "mds11 = Ok (of_nat (fst (snd mds_row1)))"
  "mds12 = Ok (of_nat (snd (snd mds_row1)))"
  "mds20 = Ok (of_nat (fst mds_row2))" "mds21 = Ok (of_nat (fst (snd mds_row2)))"
  "mds22 = Ok (of_nat (snd (snd mds_row2)))"
  by (simp_all add: mds00_def mds01_def mds02_def mds10_def mds11_def mds12_def mds20_def mds21_def
      mds22_def rc_eval mds_defs)

lemma rc_partial_text: "map rc_from_hex PARTIAL_RC = map (\<lambda>n. Ok (of_nat n)) rc_partial"
  unfolding PARTIAL_RC_def rc_partial_def by (simp add: rc_eval)

definition rc3 :: "string \<times> string \<times> string \<Rightarrow> ('e, u256) result \<times> ('e, u256) result \<times> ('e, u256) result" where
  "rc3 t = (case t of (a, b, c) \<Rightarrow> (rc_from_hex a, rc_from_hex b, rc_from_hex c))"

definition Ok3 :: "nat3 \<Rightarrow> ('e, u256) result \<times> ('e, u256) result \<times> ('e, u256) result" where
  "Ok3 t = (case t of (a, b, c) \<Rightarrow> (Ok (of_nat a), Ok (of_nat b), Ok (of_nat c)))"

lemma rc_full_text: "map rc3 FULL_RC_FIRST = map Ok3 rc_first" "map rc3 FULL_RC_LAST = map Ok3 rc_last"
  unfolding FULL_RC_FIRST_def FULL_RC_LAST_def rc_first_def rc_last_def rc3_def Ok3_def
  by (simp_all add: rc_eval)

section \<open>The hash is the permutation modulo the scalar field\<close>

lemma row_split: "(fst r, fst (snd r), snd (snd r)) = r"
  by simp

lemma small_rows:
  "unat (of_nat (fst mds_row0) :: u256) = fst mds_row0"
  "unat (of_nat (fst (snd mds_row0)) :: u256) = fst (snd mds_row0)"
  "unat (of_nat (snd (snd mds_row0)) :: u256) = snd (snd mds_row0)"
  "unat (of_nat (fst mds_row1) :: u256) = fst mds_row1"
  "unat (of_nat (fst (snd mds_row1)) :: u256) = fst (snd mds_row1)"
  "unat (of_nat (snd (snd mds_row1)) :: u256) = snd (snd mds_row1)"
  "unat (of_nat (fst mds_row2) :: u256) = fst mds_row2"
  "unat (of_nat (fst (snd mds_row2)) :: u256) = fst (snd mds_row2)"
  "unat (of_nat (snd (snd mds_row2)) :: u256) = snd (snd mds_row2)"
  by (rule unat_of_nat_256, simp add: mds_defs)+

lemma mds_Ok: "mds s = Ok (of_nat3 (mix bn254_scalar (unat3 s)))"
  by (simp add: mds_def mds_constants mds_row_Ok small_rows mix_def of_nat3_def del: dot.simps)

lemma unat3_of_nat3_mix: "unat3 (of_nat3 (mix bn254_scalar s)) = mix bn254_scalar s"
  by (simp add: unat3_def of_nat3_def mix_def del: dot.simps)

lemma arc_sbox_Ok:
  assumes "rc_from_hex c = (Ok (of_nat n) :: ('e, u256) result)" and "n < 2 ^ 256"
  shows "arc_sbox x c = (Ok (of_nat (pow5 bn254_scalar (unat x + n))) :: ('e, u256) result)"
  unfolding arc_sbox_def assms(1)
  by (simp add: addmod_Ok sbox_Ok unat_of_nat_256 [OF assms(2)] pow5_mod)

lemma full_round_Ok:
  assumes "rc3 t = (Ok3 n :: ('e, u256) result \<times> _)" and "case n of (a, b, c) \<Rightarrow> a < 2 ^ 256 \<and> b < 2 ^ 256 \<and> c < 2 ^ 256"
  shows "full_round t s = (Ok (of_nat3 (full_round_spec bn254_scalar n (unat3 s))) :: ('e, u256x3) result)"
  using assms by (cases t; cases s; cases n)
    (simp add: rc3_def Ok3_def full_round_def arc_sbox_Ok mds_Ok unat3_def)

lemma partial_round_Ok:
  assumes "rc_from_hex t = (Ok (of_nat n) :: ('e, u256) result)" and "n < 2 ^ 256"
  shows "partial_round t s = (Ok (of_nat3 (partial_round_spec bn254_scalar n (unat3 s))) :: ('e, u256x3) result)"
  using assms by (cases s) (simp add: partial_round_def arc_sbox_Ok mds_Ok unat3_def)

text \<open>A state that came out of a round is the image of its natural numbers.\<close>

lemma round_image:
  "unat3 (of_nat3 (full_round_spec bn254_scalar n s)) = full_round_spec bn254_scalar n s"
  "unat3 (of_nat3 (partial_round_spec bn254_scalar k s)) = partial_round_spec bn254_scalar k s"
  by (cases n; cases s; simp add: unat3_of_nat3_mix)+

lemma for_each_Ok:
  assumes "list_all2 (\<lambda>t n. \<forall>s. f t s = Ok (of_nat3 (g n (unat3 s)))) ts ns"
    and "\<And>n s. unat3 (of_nat3 (g n s)) = g n s" and "s = of_nat3 (unat3 s)"
  shows "for_each f ts s = Ok (of_nat3 (fold g ns (unat3 s)))"
  using assms(1,3)
proof (induction ts ns arbitrary: s rule: list_all2_induct)
  case (Cons t ts n ns)
  have "for_each f ts (of_nat3 (g n (unat3 s))) = Ok (of_nat3 (fold g ns (unat3 (of_nat3 (g n (unat3 s))))))"
    by (rule Cons.IH) (simp add: assms(2))
  with Cons.hyps(1) [rule_format, of s] show ?case by (simp add: assms(2))
qed simp

lemma list_all2_map_eq: "map f xs = map g ys \<Longrightarrow> list_all2 (\<lambda>x y. f x = g y) xs ys"
  by (auto simp: list_all2_conv_all_nth dest: map_eq_imp_length_eq) (metis length_map nth_map)

lemma constants_bounded:
  "list_all (\<lambda>n. n < 2 ^ 256) rc_partial"
  "list_all (\<lambda>n. case n of (a, b, c) \<Rightarrow> a < 2 ^ 256 \<and> b < 2 ^ 256 \<and> c < 2 ^ 256) rc_first"
  "list_all (\<lambda>n. case n of (a, b, c) \<Rightarrow> a < 2 ^ 256 \<and> b < 2 ^ 256 \<and> c < 2 ^ 256) rc_last"
  by (simp_all add: rc_partial_def rc_first_def rc_last_def)

lemma rounds_Ok:
  "list_all2 (\<lambda>t n. \<forall>s. partial_round t s = Ok (of_nat3 (partial_round_spec bn254_scalar n (unat3 s))))
     PARTIAL_RC rc_partial"
  "list_all2 (\<lambda>t n. \<forall>s. full_round t s = Ok (of_nat3 (full_round_spec bn254_scalar n (unat3 s))))
     FULL_RC_FIRST rc_first"
  "list_all2 (\<lambda>t n. \<forall>s. full_round t s = Ok (of_nat3 (full_round_spec bn254_scalar n (unat3 s))))
     FULL_RC_LAST rc_last"
proof -
  show "list_all2 (\<lambda>t n. \<forall>s. partial_round t s = Ok (of_nat3 (partial_round_spec bn254_scalar n (unat3 s))))
     PARTIAL_RC rc_partial"
    using list_all2_map_eq [OF rc_partial_text] constants_bounded(1)
    by (auto simp: list_all2_conv_all_nth list_all_length intro!: partial_round_Ok)
  show "list_all2 (\<lambda>t n. \<forall>s. full_round t s = Ok (of_nat3 (full_round_spec bn254_scalar n (unat3 s))))
     FULL_RC_FIRST rc_first"
    using list_all2_map_eq [OF rc_full_text(1)] constants_bounded(2)
    unfolding list_all2_conv_all_nth list_all_length by (metis full_round_Ok)
  show "list_all2 (\<lambda>t n. \<forall>s. full_round t s = Ok (of_nat3 (full_round_spec bn254_scalar n (unat3 s))))
     FULL_RC_LAST rc_last"
    using list_all2_map_eq [OF rc_full_text(2)] constants_bounded(3)
    unfolding list_all2_conv_all_nth list_all_length by (metis full_round_Ok)
qed

lemma unat3_of_nat3_reduced: "reduced bn254_scalar s \<Longrightarrow> unat3 (of_nat3 s) = s"
proof -
  assume "reduced bn254_scalar s"
  then obtain x y w where s: "s = (x, y, w)" "x < bn254_scalar" "y < bn254_scalar" "w < bn254_scalar"
    by (cases s) (auto simp: reduced_def)
  have "unat (of_nat n :: u256) = n" if "n < bn254_scalar" for n
    using unat_of_nat_mod_scalar [of n] that by simp
  with s show ?thesis by (simp add: unat3_def of_nat3_def)
qed

lemma fold_round_reduced:
  "reduced bn254_scalar s \<Longrightarrow> reduced bn254_scalar (fold (full_round_spec bn254_scalar) rs s)"
  "reduced bn254_scalar s \<Longrightarrow> reduced bn254_scalar (fold (partial_round_spec bn254_scalar) ks s)"
  by (intro fold_reduced full_round_reduced partial_round_reduced; simp add: bn254_scalar_def)+

lemma permute_Ok:
  assumes "reduced bn254_scalar s"
  shows "permute (of_nat3 s) = Ok (of_nat3 (permute_spec bn254_scalar s))"
proof -
  have loop: "for_each f ts (of_nat3 t) = (Ok (of_nat3 (fold g ns t)) :: ('e, u256x3) result)"
    if "list_all2 (\<lambda>t n. \<forall>s. f t s = (Ok (of_nat3 (g n (unat3 s))) :: ('e, u256x3) result)) ts ns"
      "\<And>n s. unat3 (of_nat3 (g n s)) = g n s" "reduced bn254_scalar t"
    for f ts g ns t
    using for_each_Ok [OF that(1,2), of "of_nat3 t"] unat3_of_nat3_reduced [OF that(3)] by simp
  show ?thesis
    unfolding permute_def permute_spec_def
    using assms
    by (simp add: loop [OF rounds_Ok(1) round_image(2)] loop [OF rounds_Ok(2) round_image(1)]
        loop [OF rounds_Ok(3) round_image(1)] fold_round_reduced)
qed

definition hash_bytes :: "u8 list \<Rightarrow> u8 list \<Rightarrow> u8 list" where
  "hash_bytes l r = be_bytes 32 (poseidon_spec bn254_scalar (from_be_bytes l) (from_be_bytes r))"

lemma u256_from_be_mod:
  assumes "length bs = 32"
  shows "u256_from_be bs mod bn254_p = of_nat (from_be_bytes bs mod bn254_scalar)"
proof -
  have "from_be_bytes bs < 2 ^ 256" using from_be_bytes_less [of bs] assms by simp
  then have "unat (u256_from_be bs mod bn254_p) = from_be_bytes bs mod bn254_scalar"
    by (simp only: unat_mod_distrib unat_bn254_p u256_from_be_def unat_of_nat_256)
  then show ?thesis by (simp add: word_unat_eq_iff)
qed

lemma fst_of_nat3_bytes:
  "reduced bn254_scalar s \<Longrightarrow> h256_bytes (fst (of_nat3 s)) = be_bytes 32 (fst s)"
  using unat3_of_nat3_reduced [of s] by (cases s) (simp add: of_nat3_def unat3_def h256_bytes_def)

lemma poseidon_hash_hex_Ok:
  assumes l: "(hex_to_32 left :: ('e, u8 list) result) = Ok lb" and r: "(hex_to_32 right :: ('e, u8 list) result) = Ok rb"
  shows "(poseidon_hash_hex enc left right :: ('e, string) result) = Ok (enc (hash_bytes lb rb))"
proof -
  let ?s = "(0, from_be_bytes lb mod bn254_scalar, from_be_bytes rb mod bn254_scalar)"
  have red: "reduced bn254_scalar ?s" by (simp add: reduced_def bn254_scalar_def)
  have start: "(0, u256_from_be lb mod bn254_p, u256_from_be rb mod bn254_p) = of_nat3 ?s"
    using length_hex_to_32 [OF l] length_hex_to_32 [OF r] by (simp add: of_nat3_def u256_from_be_mod)
  have "reduced bn254_scalar (permute_spec bn254_scalar ?s)"
    by (rule permute_reduced [OF _ red]) (simp add: bn254_scalar_def)
  then show ?thesis
    using l r by (simp add: poseidon_hash_hex_def start permute_Ok [OF red] fst_of_nat3_bytes hash_bytes_def
        poseidon_spec_def del: prod.inject)
qed

text \<open>
  C17: the CosmWasm hash never panics on two texts of 64 hexadecimal digits: they and every constant parse and every
  intermediate result fits. Its digest is the text of the Poseidon permutation modulo the BN254 scalar field over
  the two numbers the digits denote, and it is below that modulus.
\<close>

theorem cosmwasm_poseidon_refines_spec:
  assumes "length left = 64" and "list_all (\<lambda>c. hex_digit c \<noteq> None) left"
    and "length right = 64" and "list_all (\<lambda>c. hex_digit c \<noteq> None) right"
  shows "let l = foldl (\<lambda>a c. 16 * a + hex_val c) 0 left; r = foldl (\<lambda>a c. 16 * a + hex_val c) 0 right
    in (poseidon_hash_hex enc left right :: ('e, string) result) = Ok (enc (be_bytes 32 (poseidon_spec bn254_scalar l r))) \<and>
       poseidon_spec bn254_scalar l r < bn254_scalar"
proof -
  obtain lb rb where "(hex_to_32 left :: ('e, u8 list) result) = Ok lb" "(hex_to_32 right :: ('e, u8 list) result) = Ok rb"
    and "from_be_bytes lb = foldl (\<lambda>a c. 16 * a + hex_val c) 0 left"
      "from_be_bytes rb = foldl (\<lambda>a c. 16 * a + hex_val c) 0 right"
    using hex_to_32_digits [OF assms(2,1)] hex_to_32_digits [OF assms(4,3)] by blast
  then show ?thesis
    using poseidon_hash_hex_Ok [of left lb right rb enc] poseidon_spec_less [of bn254_scalar]
    by (simp add: hash_bytes_def bn254_scalar_def Let_def)
qed

theorem cosmwasm_poseidon_refines_spec_witness:
  "(poseidon_hash_hex lower_hex (replicate 63 CHR ''0'' @ ''a'') (replicate 63 CHR ''0'' @ ''7'') :: (nat, string) result) =
      Ok (lower_hex (be_bytes 32 (poseidon_spec bn254_scalar 10 7)))"
proof -
  have n: "foldl (\<lambda>a c. 16 * a + hex_val c) 0 (replicate k CHR ''0'') = 0" for k
    by (induction k) (simp_all add: hex_val_lit)
  show ?thesis
    using cosmwasm_poseidon_refines_spec [of "replicate 63 CHR ''0'' @ ''a''" "replicate 63 CHR ''0'' @ ''7''" lower_hex,
        where ?'e = nat]
    by (simp add: n list_all_iff hex_digit_lit hex_val_lit Let_def)
qed

end
