(* ===== verification/Cosmwasm_Pool.thy ===== *)
theory Cosmwasm_Pool
  imports Cosmwasm_Poseidon Merkle_Tree Nullifier_Ledger
begin

text \<open>
  The CosmWasm contract (\<open>cosmwasm/contracts/privacy-pool/src\<close>: \<open>contract.rs\<close>,
  \<open>state.rs\<close>, \<open>msg.rs\<close>, \<open>error.rs\<close>). The storage of an instantiated contract is a
  record; a \<open>load\<close> of a missing map key is the error \<open>Std\<close>. SHA-256 and \<open>hex::encode\<close>
  are arguments. A handler returns the new storage with the response, an error, or a panic (failed
  parse, arithmetic overflow). The hand-over of the storage handle between helper calls is read as
  sequential access to one storage.
\<close>

section \<open>Messages, storage and errors\<close>

record Crypto =
  sha256 :: "u8 list \<Rightarrow> u8 list"
  hex_encode :: "u8 list \<Rightarrow> string"

datatype ContractError =
    Std | Unauthorized | ZeroDeposit | CommitmentAlreadyExists | TreeFull | InvalidProof
  | NullifierAlreadySpent string | UnknownMerkleRoot | InsufficientPoolBalance | ZeroWithdrawal
  | EpochNotReady | EpochAlreadyFinalized | EpochNullifierOverflow | InvalidHex string
  | InvalidNullifierRoot

record Config =
  tree_depth :: nat
  epoch_duration :: nat
  max_nullifiers_per_epoch :: nat
  root_history_size :: nat
  domain_chain_id :: nat
  domain_app_id :: nat
  governance :: string
  accepted_denom :: string
  authorized_relayer :: "string option"

record EpochInfo =
  start_height :: nat
  end_height :: "nat option"
  nullifier_root :: string
  nullifier_count :: nat
  finalized :: bool

record Storage =
  CONFIG :: Config
  NEXT_LEAF_INDEX :: nat
  FILLED_SUBTREES :: "nat \<rightharpoonup> string"
  ROOTS :: "nat \<rightharpoonup> string"
  CURRENT_ROOT_INDEX :: nat
  NULLIFIER_SPENT :: "string \<rightharpoonup> bool"
  COMMITMENT_EXISTS :: "string \<rightharpoonup> bool"
  POOL_BALANCE :: nat
  CURRENT_EPOCH_ID :: nat
  EPOCHS :: "nat \<rightharpoonup> EpochInfo"
  EPOCH_NULLIFIERS :: "nat \<rightharpoonup> string list"
  REMOTE_EPOCH_ROOTS :: "nat \<times> nat \<rightharpoonup> string"

record Env =
  height :: nat

record MessageInfo =
  sender :: string
  coins :: "(string \<times> nat) list"

record InstantiateMsg =
  msg_tree_depth :: nat
  msg_epoch_duration :: nat
  msg_max_nullifiers_per_epoch :: nat
  msg_root_history_size :: nat
  msg_domain_chain_id :: nat
  msg_domain_app_id :: nat
  msg_governance :: string
  msg_accepted_denom :: string

datatype ExecuteMsg =
    Deposit string
  | Transfer string string "string \<times> string" "string \<times> string"
  | Withdraw string string "string \<times> string" "string \<times> string" string nat
  | FinalizeEpoch
  | SyncEpochRoot nat nat string
  | UpdateGovernance string
  | SetAuthorizedRelayer "string option"

text \<open>A response: the bank transfers it orders (address, denomination, amount) and its attributes.\<close>

record Response =
  messages :: "(string \<times> string \<times> nat) list"
  attributes :: "(string \<times> string) list"

type_synonym outcome = "(ContractError, Storage \<times> Response) result"

definition ZERO_HASH :: string where
  "ZERO_HASH = ''0000000000000000000000000000000000000000000000000000000000000000''"

section \<open>Internal helpers\<close>

primrec zero_hash :: "Crypto \<Rightarrow> nat \<Rightarrow> (ContractError, string) result" where
  "zero_hash c 0 = Ok ZERO_HASH"
| "zero_hash c (Suc level) = bind_result (zero_hash c level) (\<lambda>z. poseidon_hash_hex (hex_encode c) z z)"

fun insert_levels ::
  "Crypto \<Rightarrow> nat \<Rightarrow> nat \<Rightarrow> nat \<Rightarrow> string \<Rightarrow> (nat \<rightharpoonup> string)
     \<Rightarrow> (ContractError, (nat \<rightharpoonup> string) \<times> string) result" where
  "insert_levels c level 0 current_index current_hash fs = Ok (fs, current_hash)"
| "insert_levels c level (Suc k) current_index current_hash fs =
     (if current_index mod 2 = 0
      then let fs = fs(level \<mapsto> current_hash) in
           bind_result (zero_hash c level) (\<lambda>zero.
           bind_result (poseidon_hash_hex (hex_encode c) current_hash zero) (\<lambda>hash.
           insert_levels c (Suc level) k (current_index div 2) hash fs))
      else bind_result (of_option Std (fs level)) (\<lambda>sibling.
           bind_result (poseidon_hash_hex (hex_encode c) sibling current_hash) (\<lambda>hash.
           insert_levels c (Suc level) k (current_index div 2) hash fs)))"

definition insert_leaf :: "Crypto \<Rightarrow> string \<Rightarrow> Storage \<Rightarrow> (ContractError, nat \<times> Storage) result" where
  "insert_leaf c leaf_hex s =
     (let config = CONFIG s; next_index = NEXT_LEAF_INDEX s in
      bind_result (upow 64 2 (tree_depth config)) (\<lambda>max_leaves.
      bind_result (ensure (\<not> next_index \<ge> max_leaves) TreeFull) (\<lambda>_.
      bind_result (insert_levels c 0 (tree_depth config) next_index leaf_hex (FILLED_SUBTREES s)) (\<lambda>(fs, current_hash).
      bind_result (uadd 32 (CURRENT_ROOT_INDEX s) 1) (\<lambda>i.
      bind_result (urem i (root_history_size config)) (\<lambda>new_idx.
      bind_result (uadd 64 next_index 1) (\<lambda>n.
      Ok (next_index, s\<lparr>FILLED_SUBTREES := fs, ROOTS := (ROOTS s)(new_idx \<mapsto> current_hash),
                         CURRENT_ROOT_INDEX := new_idx, NEXT_LEAF_INDEX := n\<rparr>))))))))"

fun scan_roots :: "(nat \<rightharpoonup> string) \<Rightarrow> nat \<Rightarrow> string \<Rightarrow> nat \<Rightarrow> nat \<Rightarrow> bool" where
  "scan_roots rs history_size root idx 0 = False"
| "scan_roots rs history_size root idx (Suc k) =
     (if (case rs idx of Some stored_root \<Rightarrow> stored_root = root | None \<Rightarrow> False) then True
      else scan_roots rs history_size root (if idx = 0 then history_size - 1 else idx - 1) k)"

definition is_known_root :: "string \<Rightarrow> Storage \<Rightarrow> bool" where
  "is_known_root root s =
     (let config = CONFIG s; current_idx = CURRENT_ROOT_INDEX s in
      if root = ZERO_HASH then False
      else scan_roots (ROOTS s) (root_history_size config) root current_idx (root_history_size config))"

definition spend_nullifier :: "string \<Rightarrow> Storage \<Rightarrow> (ContractError, Storage) result" where
  "spend_nullifier nullifier s =
     (let epoch_id = CURRENT_EPOCH_ID s; config = CONFIG s in
      bind_result (ensure (\<not> get False (NULLIFIER_SPENT s) nullifier) (NullifierAlreadySpent nullifier)) (\<lambda>_.
      let s = s\<lparr>NULLIFIER_SPENT := (NULLIFIER_SPENT s)(nullifier \<mapsto> True)\<rparr> in
      bind_result (of_option Std (EPOCH_NULLIFIERS s epoch_id)) (\<lambda>epoch_nuls.
      bind_result (ensure (\<not> length epoch_nuls \<ge> max_nullifiers_per_epoch config) EpochNullifierOverflow) (\<lambda>_.
      Ok (s\<lparr>EPOCH_NULLIFIERS := (EPOCH_NULLIFIERS s)(epoch_id \<mapsto> epoch_nuls @ [nullifier])\<rparr>)))))"

definition check_and_spend_nullifiers :: "string \<times> string \<Rightarrow> Storage \<Rightarrow> (ContractError, Storage) result" where
  "check_and_spend_nullifiers nullifiers s =
     bind_result (spend_nullifier (fst nullifiers) s) (spend_nullifier (snd nullifiers))"

fun hash_chain :: "Crypto \<Rightarrow> string \<Rightarrow> string list \<Rightarrow> (ContractError, string) result" where
  "hash_chain c current [] = Ok current"
| "hash_chain c current (nul # ns) =
     bind_result (poseidon_hash_hex (hex_encode c) current nul) (\<lambda>h. hash_chain c h ns)"

definition compute_nullifier_root :: "Crypto \<Rightarrow> string list \<Rightarrow> (ContractError, string) result" where
  "compute_nullifier_root c nullifiers =
     (case nullifiers of [] \<Rightarrow> Ok ZERO_HASH | n # ns \<Rightarrow> hash_chain c n ns)"

definition is_ascii_hexdigit :: "char \<Rightarrow> bool" where
  "is_ascii_hexdigit c \<longleftrightarrow> hex_digit c \<noteq> None"

definition all_zero_chars :: "string \<Rightarrow> bool" where
  "all_zero_chars s = list_all (\<lambda>c. c = CHR ''0'') s"

definition verify_proof_binding ::
  "Crypto \<Rightarrow> string \<Rightarrow> string \<Rightarrow> string \<times> string \<Rightarrow> string \<times> string \<Rightarrow> bool" where
  "verify_proof_binding c proof merkle_root nullifiers output_commitments =
     (if length proof < 384 then False
      else if length proof > 8192 then False
      else if \<not> list_all is_ascii_hexdigit proof then False
      else if length proof mod 2 \<noteq> 0 then False
      else if all_zero_chars proof then False
      else if fst nullifiers = snd nullifiers then False
      else if list_ex (\<lambda>nul. nul = [] \<or> all_zero_chars nul) [fst nullifiers, snd nullifiers] then False
      else if merkle_root = [] \<or> all_zero_chars merkle_root then False
      else if list_ex (\<lambda>cm. cm = [] \<or> all_zero_chars cm) [fst output_commitments, snd output_commitments]
        then False
      else if fst output_commitments = snd output_commitments then False
      else if length proof < 64 then False
      else
        let binding_hex = take 64 proof;
            body_hex = drop 64 proof;
            inputs_hash = sha256 c (as_bytes merkle_root @ as_bytes (fst nullifiers) @ as_bytes (snd nullifiers)
              @ as_bytes (fst output_commitments) @ as_bytes (snd output_commitments));
            expected_binding = sha256 c (as_bytes ''Halo2-IPA-bind'' @ inputs_hash @ as_bytes body_hex);
            expected_hex = hex_encode c expected_binding
        in binding_hex = expected_hex)"

section \<open>Entry points\<close>

fun init_subtrees ::
  "Crypto \<Rightarrow> nat \<Rightarrow> nat \<Rightarrow> string \<Rightarrow> (nat \<rightharpoonup> string) \<Rightarrow> (ContractError, (nat \<rightharpoonup> string) \<times> string) result" where
  "init_subtrees c level 0 current_zero fs = Ok (fs, current_zero)"
| "init_subtrees c level (Suc k) current_zero fs =
     bind_result (poseidon_hash_hex (hex_encode c) current_zero current_zero) (\<lambda>z.
     init_subtrees c (Suc level) k z (fs(level \<mapsto> current_zero)))"

definition new_epoch :: "Env \<Rightarrow> EpochInfo" where
  "new_epoch env = \<lparr>start_height = height env, end_height = None, nullifier_root = ZERO_HASH,
                    nullifier_count = 0, finalized = False\<rparr>"

definition instantiate :: "Crypto \<Rightarrow> Env \<Rightarrow> InstantiateMsg \<Rightarrow> outcome" where
  "instantiate c env msg =
     (let config = \<lparr>tree_depth = msg_tree_depth msg, epoch_duration = msg_epoch_duration msg,
            max_nullifiers_per_epoch = msg_max_nullifiers_per_epoch msg,
            root_history_size = msg_root_history_size msg, domain_chain_id = msg_domain_chain_id msg,
            domain_app_id = msg_domain_app_id msg, governance = msg_governance msg,
            accepted_denom = msg_accepted_denom msg, authorized_relayer = None\<rparr> in
      bind_result (init_subtrees c 0 (msg_tree_depth msg) ZERO_HASH Map.empty) (\<lambda>(fs, root).
      Ok (\<lparr>CONFIG = config, NEXT_LEAF_INDEX = 0, FILLED_SUBTREES = fs, ROOTS = [0 \<mapsto> root],
           CURRENT_ROOT_INDEX = 0, NULLIFIER_SPENT = Map.empty, COMMITMENT_EXISTS = Map.empty,
           POOL_BALANCE = 0, CURRENT_EPOCH_ID = 0, EPOCHS = [0 \<mapsto> new_epoch env],
           EPOCH_NULLIFIERS = [0 \<mapsto> []], REMOTE_EPOCH_ROOTS = Map.empty\<rparr>,
          \<lparr>messages = [], attributes = [(''action'', ''instantiate''),
             (''tree_depth'', dec (msg_tree_depth msg)),
             (''domain_chain_id'', dec (msg_domain_chain_id msg))]\<rparr>)))"

definition execute_deposit :: "Crypto \<Rightarrow> MessageInfo \<Rightarrow> string \<Rightarrow> Storage \<Rightarrow> outcome" where
  "execute_deposit c info commitment s =
     (let config = CONFIG s;
          amount = (case find (\<lambda>coin. fst coin = accepted_denom config) (coins info) of
                      Some coin \<Rightarrow> snd coin | None \<Rightarrow> 0) in
      bind_result (ensure (amount \<noteq> 0) ZeroDeposit) (\<lambda>_.
      bind_result (ensure (\<not> get False (COMMITMENT_EXISTS s) commitment) CommitmentAlreadyExists) (\<lambda>_.
      let s = s\<lparr>COMMITMENT_EXISTS := (COMMITMENT_EXISTS s)(commitment \<mapsto> True)\<rparr> in
      bind_result (insert_leaf c commitment s) (\<lambda>(leaf_index, s).
      bind_result (uadd 128 (POOL_BALANCE s) amount) (\<lambda>b.
      Ok (s\<lparr>POOL_BALANCE := b\<rparr>,
          \<lparr>messages = [], attributes = [(''action'', ''deposit''), (''commitment'', commitment),
             (''leaf_index'', dec leaf_index), (''amount'', dec amount)]\<rparr>))))))"

definition execute_transfer ::
  "Crypto \<Rightarrow> string \<Rightarrow> string \<Rightarrow> string \<times> string \<Rightarrow> string \<times> string \<Rightarrow> Storage \<Rightarrow> outcome" where
  "execute_transfer c proof merkle_root nullifiers output_commitments s =
     bind_result (ensure (is_known_root merkle_root s) UnknownMerkleRoot) (\<lambda>_.
     bind_result (check_and_spend_nullifiers nullifiers s) (\<lambda>s.
     bind_result (ensure (verify_proof_binding c proof merkle_root nullifiers output_commitments) InvalidProof) (\<lambda>_.
     bind_result (insert_leaf c (fst output_commitments) s) (\<lambda>(_, s).
     bind_result (insert_leaf c (snd output_commitments) s) (\<lambda>(_, s).
     Ok (s, \<lparr>messages = [], attributes = [(''action'', ''transfer''),
             (''nullifier_0'', fst nullifiers), (''nullifier_1'', snd nullifiers),
             (''output_0'', fst output_commitments), (''output_1'', snd output_commitments)]\<rparr>))))))"

definition execute_withdraw ::
  "Crypto \<Rightarrow> string \<Rightarrow> string \<Rightarrow> string \<times> string \<Rightarrow> string \<times> string \<Rightarrow> string \<Rightarrow> nat \<Rightarrow> Storage \<Rightarrow> outcome" where
  "execute_withdraw c proof merkle_root nullifiers output_commitments recipient exit_value s =
     bind_result (ensure (exit_value \<noteq> 0) ZeroWithdrawal) (\<lambda>_.
     bind_result (ensure (\<not> exit_value > POOL_BALANCE s) InsufficientPoolBalance) (\<lambda>_.
     bind_result (ensure (is_known_root merkle_root s) UnknownMerkleRoot) (\<lambda>_.
     bind_result (check_and_spend_nullifiers nullifiers s) (\<lambda>s.
     bind_result (ensure (verify_proof_binding c proof merkle_root nullifiers output_commitments) InvalidProof) (\<lambda>_.
     bind_result (insert_leaf c (fst output_commitments) s) (\<lambda>(_, s).
     bind_result (insert_leaf c (snd output_commitments) s) (\<lambda>(_, s).
     let s = s\<lparr>POOL_BALANCE := (if exit_value \<le> POOL_BALANCE s then POOL_BALANCE s - exit_value else 0)\<rparr>;
         config = CONFIG s in
     Ok (s, \<lparr>messages = [(recipient, accepted_denom config, exit_value)],
             attributes = [(''action'', ''withdraw''), (''recipient'', recipient),
               (''amount'', dec exit_value)]\<rparr>))))))))"

definition execute_finalize_epoch :: "Crypto \<Rightarrow> Env \<Rightarrow> MessageInfo \<Rightarrow> Storage \<Rightarrow> outcome" where
  "execute_finalize_epoch c env info s =
     (let config = CONFIG s in
      bind_result (ensure (sender info = governance config) Unauthorized) (\<lambda>_.
      let epoch_id = CURRENT_EPOCH_ID s in
      bind_result (of_option Std (EPOCHS s epoch_id)) (\<lambda>epoch.
      bind_result (ensure (\<not> finalized epoch) EpochAlreadyFinalized) (\<lambda>_.
      bind_result (of_option Std (EPOCH_NULLIFIERS s epoch_id)) (\<lambda>nullifiers.
      bind_result (compute_nullifier_root c nullifiers) (\<lambda>root.
      let count = length nullifiers mod 2 ^ 32;
          epoch = epoch\<lparr>nullifier_root := root, nullifier_count := count,
                        end_height := Some (height env), finalized := True\<rparr> in
      bind_result (uadd 64 epoch_id 1) (\<lambda>new_epoch_id.
      Ok (s\<lparr>CURRENT_EPOCH_ID := new_epoch_id,
            EPOCHS := (EPOCHS s)(epoch_id \<mapsto> epoch, new_epoch_id \<mapsto> new_epoch env),
            EPOCH_NULLIFIERS := (EPOCH_NULLIFIERS s)(new_epoch_id \<mapsto> [])\<rparr>,
          \<lparr>messages = [], attributes = [(''action'', ''finalize_epoch''), (''epoch_id'', dec epoch_id),
             (''nullifier_root'', root), (''nullifier_count'', dec count)]\<rparr>))))))))"

definition execute_sync_epoch_root :: "MessageInfo \<Rightarrow> nat \<Rightarrow> nat \<Rightarrow> string \<Rightarrow> Storage \<Rightarrow> outcome" where
  "execute_sync_epoch_root info source_chain_id epoch_id root s =
     (let config = CONFIG s;
          is_authorized = (sender info = governance config \<or>
            (case authorized_relayer config of None \<Rightarrow> False | Some r \<Rightarrow> sender info = r)) in
      bind_result (ensure is_authorized Unauthorized) (\<lambda>_.
      bind_result (ensure (root \<noteq> []) InvalidNullifierRoot) (\<lambda>_.
      Ok (s\<lparr>REMOTE_EPOCH_ROOTS := (REMOTE_EPOCH_ROOTS s)((source_chain_id, epoch_id) \<mapsto> root)\<rparr>,
          \<lparr>messages = [], attributes = [(''action'', ''sync_epoch_root''),
             (''source_chain_id'', dec source_chain_id), (''epoch_id'', dec epoch_id),
             (''nullifier_root'', root)]\<rparr>))))"

definition execute_update_governance :: "MessageInfo \<Rightarrow> string \<Rightarrow> Storage \<Rightarrow> outcome" where
  "execute_update_governance info new_governance s =
     (let config = CONFIG s in
      bind_result (ensure (sender info = governance config) Unauthorized) (\<lambda>_.
      Ok (s\<lparr>CONFIG := config\<lparr>governance := new_governance\<rparr>\<rparr>,
          \<lparr>messages = [], attributes = [(''action'', ''update_governance''),
             (''new_governance'', new_governance)]\<rparr>)))"

definition execute_set_authorized_relayer :: "MessageInfo \<Rightarrow> string option \<Rightarrow> Storage \<Rightarrow> outcome" where
  "execute_set_authorized_relayer info relayer s =
     (let config = CONFIG s in
      bind_result (ensure (sender info = governance config) Unauthorized) (\<lambda>_.
      Ok (s\<lparr>CONFIG := config\<lparr>authorized_relayer := relayer\<rparr>\<rparr>,
          \<lparr>messages = [], attributes = [(''action'', ''set_authorized_relayer''),
             (''relayer'', (case relayer of Some r \<Rightarrow> r | None \<Rightarrow> []))]\<rparr>)))"

fun execute :: "Crypto \<Rightarrow> Env \<Rightarrow> MessageInfo \<Rightarrow> ExecuteMsg \<Rightarrow> Storage \<Rightarrow> outcome" where
  "execute c env info (Deposit commitment) s = execute_deposit c info commitment s"
| "execute c env info (Transfer pr root nuls outs) s = execute_transfer c pr root nuls outs s"
| "execute c env info (Withdraw pr root nuls outs recipient v) s =
     execute_withdraw c pr root nuls outs recipient v s"
| "execute c env info FinalizeEpoch s = execute_finalize_epoch c env info s"
| "execute c env info (SyncEpochRoot chain epoch root) s = execute_sync_epoch_root info chain epoch root s"
| "execute c env info (UpdateGovernance g) s = execute_update_governance info g s"
| "execute c env info (SetAuthorizedRelayer r) s = execute_set_authorized_relayer info r s"

section \<open>Queries\<close>

datatype QueryMsg =
    LatestRoot | IsKnownRoot string | IsSpent string | PoolStatus | QueryEpochInfo nat
  | RemoteEpochRoot nat nat

datatype QueryAnswer =
    RootResponse string
  | BoolResponse bool
  | PoolStatusResponse nat nat nat string
  | EpochInfoResponse nat string nat bool
  | RemoteRootResponse "string option"

fun query :: "QueryMsg \<Rightarrow> Storage \<Rightarrow> (ContractError, QueryAnswer) result" where
  "query LatestRoot s =
     bind_result (of_option Std (ROOTS s (CURRENT_ROOT_INDEX s))) (\<lambda>root. Ok (RootResponse root))"
| "query (IsKnownRoot root) s = Ok (BoolResponse (is_known_root root s))"
| "query (IsSpent nullifier) s = Ok (BoolResponse (get False (NULLIFIER_SPENT s) nullifier))"
| "query PoolStatus s =
     bind_result (of_option Std (ROOTS s (CURRENT_ROOT_INDEX s))) (\<lambda>root.
     Ok (PoolStatusResponse (NEXT_LEAF_INDEX s) (POOL_BALANCE s) (CURRENT_EPOCH_ID s) root))"
| "query (QueryEpochInfo epoch_id) s =
     bind_result (of_option Std (EPOCHS s epoch_id)) (\<lambda>epoch.
     Ok (EpochInfoResponse epoch_id (nullifier_root epoch) (nullifier_count epoch) (finalized epoch)))"
| "query (RemoteEpochRoot chain epoch) s = Ok (RemoteRootResponse (REMOTE_EPOCH_ROOTS s (chain, epoch)))"

end
