(* ===== verification/Cosmwasm_Properties.thy ===== *)
theory Cosmwasm_Properties
  imports Cosmwasm_Pool
begin

text \<open>
  The properties of the CosmWasm contract. The tree stores hexadecimal text, so an insertion goes
  through only for a text the hash can parse; the conversion back to text is assumed to be
  lower-case hexadecimal, as the \<open>hex\<close> crate documents.
\<close>

section \<open>Parsable texts\<close>

definition valid_hex :: "string \<Rightarrow> bool" where
  "valid_hex s = is_Ok (hex_to_32 s :: (ContractError, u8 list) result)"

definition hex_encode_lowercase :: "Crypto \<Rightarrow> bool" where
  "hex_encode_lowercase c \<longleftrightarrow> (\<forall>bs. hex_encode c bs = lower_hex bs)"

text \<open>The hash as a total function, used only where it does not panic.\<close>

definition ph :: "Crypto \<Rightarrow> string \<Rightarrow> string \<Rightarrow> string" where
  "ph c l r = (case (poseidon_hash_hex (hex_encode c) l r :: (ContractError, string) result) of
     Ok h \<Rightarrow> h | _ \<Rightarrow> ZERO_HASH)"

lemma ph_Ok: "valid_hex l \<Longrightarrow> valid_hex r \<Longrightarrow>
    (poseidon_hash_hex (hex_encode c) l r :: (ContractError, string) result) = Ok (ph c l r)"
  by (auto simp: valid_hex_def is_Ok_iff ph_def poseidon_hash_hex_Ok)

lemma poseidon_panics:
  "\<not> valid_hex l \<or> \<not> valid_hex r \<Longrightarrow>
    (poseidon_hash_hex (hex_encode c) l r :: (ContractError, string) result) = Panic"
proof -
  have no_err: "(hex_to_32 s :: (ContractError, u8 list) result) = Panic" if "\<not> valid_hex s" for s
    using that by (cases "hex_to_32 s :: (ContractError, u8 list) result")
      (auto simp: valid_hex_def is_Ok_def hex_to_32_def hex_loop_no_Err)
  assume inv: "\<not> valid_hex l \<or> \<not> valid_hex r"
  show ?thesis
  proof (cases "valid_hex l")
    case True
    then obtain lb where "(hex_to_32 l :: (ContractError, u8 list) result) = Ok lb"
      by (auto simp: valid_hex_def is_Ok_iff)
    with inv True show ?thesis by (simp add: poseidon_hash_hex_def no_err)
  qed (simp add: poseidon_hash_hex_def no_err)
qed

lemma poseidon_Ok_iff:
  "(poseidon_hash_hex (hex_encode c) l r :: (ContractError, string) result) = Ok h \<longleftrightarrow>
     valid_hex l \<and> valid_hex r \<and> h = ph c l r"
  by (cases "valid_hex l \<and> valid_hex r") (auto simp: ph_Ok poseidon_panics)

lemma ph_valid:
  assumes "hex_encode_lowercase c" and "valid_hex l" and "valid_hex r"
  shows "valid_hex (ph c l r)"
proof -
  obtain lb rb where "(hex_to_32 l :: (ContractError, u8 list) result) = Ok lb"
    "(hex_to_32 r :: (ContractError, u8 list) result) = Ok rb"
    using assms(2,3) by (auto simp: valid_hex_def is_Ok_iff)
  then have "ph c l r = lower_hex (hash_bytes lb rb)"
    using assms(1) by (simp add: ph_def poseidon_hash_hex_Ok hex_encode_lowercase_def)
  moreover have "length (hash_bytes lb rb) = 32" by (simp add: hash_bytes_def)
  ultimately show ?thesis
    by (simp add: valid_hex_def is_Ok_iff hex_to_32_lower_hex)
qed

lemma ZERO_HASH_lower: "ZERO_HASH = lower_hex (replicate 32 0)"
proof -
  have "lower_hex (replicate 32 0) = replicate 64 CHR ''0''"
    by (simp add: lower_hex_zeros)
  also have "\<dots> = ZERO_HASH"
    by (simp add: ZERO_HASH_def numeral_eq_Suc)
  finally show ?thesis by simp
qed

lemma valid_ZERO_HASH: "valid_hex ZERO_HASH"
  by (simp add: ZERO_HASH_lower valid_hex_def is_Ok_iff hex_to_32_lower_hex)

lemma zeros_valid: "hex_encode_lowercase c \<Longrightarrow> valid_hex (zeros (ph c) ZERO_HASH l)"
  by (induction l) (auto simp: valid_ZERO_HASH ph_valid)

lemma zero_hash_Ok: "hex_encode_lowercase c \<Longrightarrow> zero_hash c l = Ok (zeros (ph c) ZERO_HASH l)"
  by (induction l) (auto simp: zeros_valid ph_Ok)

section \<open>The tree of the contract\<close>

definition subtrees_valid :: "nat \<Rightarrow> (nat \<rightharpoonup> string) \<Rightarrow> bool" where
  "subtrees_valid d fs \<longleftrightarrow> (\<forall>l<d. \<exists>v. fs l = Some v \<and> valid_hex v)"

lemma insert_levels_Ok:
  assumes c: "hex_encode_lowercase c" and h: "valid_hex h" and fs: "subtrees_valid d fs" and "l + k \<le> d"
  shows "insert_levels c l k i h fs = Ok (climb_map (ph c) (zeros (ph c) ZERO_HASH) ZERO_HASH l k i h fs) \<and>
     subtrees_valid d (fst (climb_map (ph c) (zeros (ph c) ZERO_HASH) ZERO_HASH l k i h fs)) \<and>
     valid_hex (snd (climb_map (ph c) (zeros (ph c) ZERO_HASH) ZERO_HASH l k i h fs))"
  using h fs assms(4)
proof (induction k arbitrary: l i h fs)
  case (Suc k)
  show ?case
  proof (cases "even i")
    case True
    have "subtrees_valid d (fs(l \<mapsto> h))"
      using Suc.prems by (auto simp: subtrees_valid_def)
    with Suc.IH [OF ph_valid [OF c Suc.prems(1) zeros_valid [OF c, of l]] this, of "Suc l" "i div 2"] Suc.prems True
    show ?thesis
      by (simp add: even_iff_mod_2_eq_zero zero_hash_Ok [OF c] zeros_valid [OF c] ph_Ok del: fun_upd_apply)
  next
    case False
    have "l < d" using Suc.prems(3) by simp
    then obtain v where v: "fs l = Some v" "valid_hex v"
      using Suc.prems(2) by (auto simp: subtrees_valid_def)
    with Suc.IH [OF ph_valid [OF c v(2) Suc.prems(1)] Suc.prems(2), of "Suc l" "i div 2"] Suc.prems False
    show ?thesis
      by (simp add: even_iff_mod_2_eq_zero of_option_def ph_Ok get_def)
  qed
qed simp

lemma insert_levels_invalid:
  assumes "hex_encode_lowercase c" "\<not> valid_hex h" "subtrees_valid d fs" "0 < d"
  shows "insert_levels c 0 d i h fs = Panic"
proof -
  obtain k where d: "d = Suc k" using assms(4) by (cases d) auto
  obtain v where "fs 0 = Some v" using assms(3) d by (auto simp: subtrees_valid_def)
  then show ?thesis
    using assms(2) by (auto simp: d poseidon_panics of_option_def Let_def)
qed

definition tree_of :: "Crypto \<Rightarrow> nat \<Rightarrow> nat \<Rightarrow> Storage \<Rightarrow> string list \<Rightarrow> bool" where
  "tree_of c d cap s xs \<longleftrightarrow> hex_encode_lowercase c \<and> 0 < d \<and> d < 64 \<and> cap < 2 ^ 32 \<and>
     tree_depth (CONFIG s) = d \<and> root_history_size (CONFIG s) = cap \<and>
     subtrees_valid d (FILLED_SUBTREES s) \<and>
     tree_rep (ph c) ZERO_HASH d cap xs (NEXT_LEAF_INDEX s) (get ZERO_HASH (FILLED_SUBTREES s))
       (ROOTS s) (CURRENT_ROOT_INDEX s)"

definition append_leaf :: "Crypto \<Rightarrow> Storage \<Rightarrow> string \<Rightarrow> (ContractError, Storage) result" where
  "append_leaf c s leaf = bind_result (insert_leaf c leaf s) (\<lambda>(_, s'). Ok s')"

definition latest_root :: "Storage \<Rightarrow> string" where
  "latest_root s = get ZERO_HASH (ROOTS s) (CURRENT_ROOT_INDEX s)"

lemma cw_insert_leaf_Ok:
  assumes "insert_leaf c leaf s = Ok (i, s')"
  shows "i = NEXT_LEAF_INDEX s" and "NEXT_LEAF_INDEX s < 2 ^ tree_depth (CONFIG s)"
    and "\<exists>fs h. insert_levels c 0 (tree_depth (CONFIG s)) (NEXT_LEAF_INDEX s) leaf (FILLED_SUBTREES s) = Ok (fs, h) \<and>
       s' = s\<lparr>FILLED_SUBTREES := fs,
                ROOTS := (ROOTS s)((CURRENT_ROOT_INDEX s + 1) mod root_history_size (CONFIG s) \<mapsto> h),
                CURRENT_ROOT_INDEX := (CURRENT_ROOT_INDEX s + 1) mod root_history_size (CONFIG s),
                NEXT_LEAF_INDEX := NEXT_LEAF_INDEX s + 1\<rparr>"
  using assms by (auto simp: insert_leaf_def Let_def result_simps not_le split: prod.splits)

lemma cw_insert_leaf_frame:
  assumes "insert_leaf c leaf s = Ok (i, s')"
  shows "CONFIG s' = CONFIG s" "NULLIFIER_SPENT s' = NULLIFIER_SPENT s"
    "COMMITMENT_EXISTS s' = COMMITMENT_EXISTS s" "POOL_BALANCE s' = POOL_BALANCE s"
    "CURRENT_EPOCH_ID s' = CURRENT_EPOCH_ID s" "EPOCHS s' = EPOCHS s"
    "EPOCH_NULLIFIERS s' = EPOCH_NULLIFIERS s" "REMOTE_EPOCH_ROOTS s' = REMOTE_EPOCH_ROOTS s"
  using cw_insert_leaf_Ok(3) [OF assms] by auto

lemma cw_insert_leaf_tree:
  assumes rep: "tree_of c d cap s xs"
  shows "valid_hex leaf \<Longrightarrow> length xs < 2 ^ d \<Longrightarrow> \<exists>i s'. insert_leaf c leaf s = Ok (i, s')"
    and "insert_leaf c leaf s = Ok (i, s') \<Longrightarrow> valid_hex leaf \<and> length xs < 2 ^ d \<and> tree_of c d cap s' (xs @ [leaf])"
proof -
  let ?w = "climb_map (ph c) (zeros (ph c) ZERO_HASH) ZERO_HASH 0 d (NEXT_LEAF_INDEX s) leaf (FILLED_SUBTREES s)"
  have cfg: "hex_encode_lowercase c" "0 < d" "d < 64" "cap < 2 ^ 32" "tree_depth (CONFIG s) = d"
    "root_history_size (CONFIG s) = cap" "subtrees_valid d (FILLED_SUBTREES s)"
    "CURRENT_ROOT_INDEX s < cap" "NEXT_LEAF_INDEX s = length xs"
    using rep by (auto simp: tree_of_def tree_rep_def ring_holds_def)
  have walk: "insert_levels c 0 d (NEXT_LEAF_INDEX s) leaf (FILLED_SUBTREES s) = Ok ?w \<and>
      subtrees_valid d (fst ?w)" if "valid_hex leaf"
    using insert_levels_Ok [OF cfg(1) that cfg(7), of 0 d] by simp
  have pow: "(2 :: nat) ^ d < 2 ^ 64" using cfg(3) by (intro power_strict_increasing) auto
  show "\<exists>i s'. insert_leaf c leaf s = Ok (i, s')" if "valid_hex leaf" "length xs < 2 ^ d"
    using walk [OF that(1)] that(2) cfg pow
    by (auto simp: insert_leaf_def Let_def result_simps split: prod.splits)
  show "valid_hex leaf \<and> length xs < 2 ^ d \<and> tree_of c d cap s' (xs @ [leaf])"
    if ok: "insert_leaf c leaf s = Ok (i, s')"
  proof -
    have v: "valid_hex leaf"
      using cw_insert_leaf_Ok(3) [OF ok] insert_levels_invalid [OF cfg(1) _ cfg(7) cfg(2)] cfg(5) by force
    have room: "NEXT_LEAF_INDEX s < 2 ^ d" using cw_insert_leaf_Ok(2) [OF ok] cfg(5) by simp
    have s': "s' = s\<lparr>FILLED_SUBTREES := fst ?w, ROOTS := (ROOTS s)((CURRENT_ROOT_INDEX s + 1) mod cap \<mapsto> snd ?w),
        CURRENT_ROOT_INDEX := (CURRENT_ROOT_INDEX s + 1) mod cap, NEXT_LEAF_INDEX := NEXT_LEAF_INDEX s + 1\<rparr>"
      using cw_insert_leaf_Ok(3) [OF ok] walk [OF v] cfg(5,6) by auto
    have "tree_rep (ph c) ZERO_HASH d cap (xs @ [leaf]) (NEXT_LEAF_INDEX s + 1) (get ZERO_HASH (fst ?w))
       ((ROOTS s)((CURRENT_ROOT_INDEX s + 1) mod cap \<mapsto> snd ?w)) ((CURRENT_ROOT_INDEX s + 1) mod cap)"
      by (rule tree_rep_push_map [OF _ room refl refl]) (use rep in \<open>simp add: tree_of_def\<close>)
    then have "tree_of c d cap s' (xs @ [leaf])"
      using walk [OF v] cfg by (simp add: tree_of_def s')
    with v room cfg(9) show ?thesis by simp
  qed
qed

lemma cw_scan_roots_ring:
  "scan_roots rs n root idx k \<longleftrightarrow> ring_scan (\<lambda>j. rs j = Some root) n idx k"
  by (induction k arbitrary: idx) (auto split: option.splits)

interpretation cosmwasm_tree: commitment_tree "append_leaf c" "\<lambda>s r. is_known_root r s"
  latest_root "tree_of c d cap" valid_hex "ph c" ZERO_HASH d cap for c d cap
proof
  fix s xs x s' r
  assume rep: "tree_of c d cap s xs"
  show "length xs \<le> 2 ^ d" using rep by (auto simp: tree_of_def tree_rep_def)
  show "is_Ok (append_leaf c s x) \<longleftrightarrow> length xs < 2 ^ d \<and> valid_hex x"
    using cw_insert_leaf_tree [OF rep, of x] by (auto simp: append_leaf_def is_Ok_iff result_simps)
  show "append_leaf c s x = Ok s' \<Longrightarrow> tree_of c d cap s' (xs @ [x])"
    using cw_insert_leaf_tree(2) [OF rep, of x] by (auto simp: append_leaf_def result_simps)
  show "latest_root s = tree_root (ph c) ZERO_HASH d xs"
    using rep tree_rep_latest unfolding tree_of_def latest_root_def get_def by fastforce
  show "is_known_root r s \<longleftrightarrow> r \<noteq> ZERO_HASH \<and>
      (\<exists>k\<le>length xs. length xs < k + cap \<and> r = tree_root (ph c) ZERO_HASH d (take k xs))"
    using rep tree_rep_scan [of "ph c" ZERO_HASH d cap xs]
    by (auto simp: is_known_root_def Let_def cw_scan_roots_ring tree_of_def)
qed

section \<open>Successful calls\<close>

type_synonym call = "Env \<times> MessageInfo \<times> ExecuteMsg"

text \<open>A call as a step on the storage; the response goes to the chain.\<close>

fun step :: "Crypto \<Rightarrow> Storage \<Rightarrow> call \<Rightarrow> (ContractError, Storage) result" where
  "step c s (env, info, msg) = bind_result (execute c env info msg s) (\<lambda>(s', _). Ok s')"

lemma cw_check_and_spend_Ok:
  "check_and_spend_nullifiers nuls s = Ok s' \<longleftrightarrow>
     (\<exists>en. EPOCH_NULLIFIERS s (CURRENT_EPOCH_ID s) = Some en \<and>
       fst nuls \<noteq> snd nuls \<and> \<not> get False (NULLIFIER_SPENT s) (fst nuls) \<and>
       \<not> get False (NULLIFIER_SPENT s) (snd nuls) \<and>
       Suc (length en) < max_nullifiers_per_epoch (CONFIG s) \<and>
       s' = s\<lparr>NULLIFIER_SPENT := (NULLIFIER_SPENT s)(fst nuls \<mapsto> True, snd nuls \<mapsto> True),
              EPOCH_NULLIFIERS := (EPOCH_NULLIFIERS s)(CURRENT_EPOCH_ID s \<mapsto> en @ [fst nuls, snd nuls])\<rparr>)"
  by (auto simp: check_and_spend_nullifiers_def spend_nullifier_def Let_def result_simps not_le
      split: if_splits)

definition deposit_amount :: "MessageInfo \<Rightarrow> Storage \<Rightarrow> nat" where
  "deposit_amount info s =
     (case find (\<lambda>coin. fst coin = accepted_denom (CONFIG s)) (coins info) of Some coin \<Rightarrow> snd coin | None \<Rightarrow> 0)"

lemma cw_deposit_OkE:
  assumes "execute_deposit c info cm s = Ok (s', r)"
  obtains i s1 where "deposit_amount info s \<noteq> 0" "\<not> get False (COMMITMENT_EXISTS s) cm"
    "insert_leaf c cm (s\<lparr>COMMITMENT_EXISTS := (COMMITMENT_EXISTS s)(cm \<mapsto> True)\<rparr>) = Ok (i, s1)"
    "s' = s1\<lparr>POOL_BALANCE := POOL_BALANCE s1 + deposit_amount info s\<rparr>" "messages r = []"
  using assms by (auto simp: execute_deposit_def deposit_amount_def Let_def result_simps split: prod.splits)

lemma cw_transfer_OkE:
  assumes "execute_transfer c pr root nuls outs s = Ok (s', r)"
  obtains s1 i s2 j where "is_known_root root s" "check_and_spend_nullifiers nuls s = Ok s1"
    "verify_proof_binding c pr root nuls outs"
    "insert_leaf c (fst outs) s1 = Ok (i, s2)" "insert_leaf c (snd outs) s2 = Ok (j, s')" "messages r = []"
  using assms by (auto simp: execute_transfer_def result_simps split: prod.splits)

lemma cw_withdraw_OkE:
  assumes "execute_withdraw c pr root nuls outs recipient v s = Ok (s', r)"
  obtains s1 i s2 j s3 where "v \<noteq> 0" "v \<le> POOL_BALANCE s" "is_known_root root s"
    "check_and_spend_nullifiers nuls s = Ok s1" "verify_proof_binding c pr root nuls outs"
    "insert_leaf c (fst outs) s1 = Ok (i, s2)" "insert_leaf c (snd outs) s2 = Ok (j, s3)"
    "s' = s3\<lparr>POOL_BALANCE := POOL_BALANCE s3 - v\<rparr>"
    "messages r = [(recipient, accepted_denom (CONFIG s3), v)]"
proof -
  from assms obtain s1 i s2 j s3 where h: "v \<noteq> 0" "v \<le> POOL_BALANCE s" "is_known_root root s"
    "check_and_spend_nullifiers nuls s = Ok s1" "verify_proof_binding c pr root nuls outs"
    "insert_leaf c (fst outs) s1 = Ok (i, s2)" "insert_leaf c (snd outs) s2 = Ok (j, s3)"
    "s' = s3\<lparr>POOL_BALANCE := (if v \<le> POOL_BALANCE s3 then POOL_BALANCE s3 - v else 0)\<rparr>"
    "messages r = [(recipient, accepted_denom (CONFIG s3), v)]"
    by (auto simp: execute_withdraw_def Let_def result_simps not_less split: prod.splits)
  moreover have "POOL_BALANCE s3 = POOL_BALANCE s"
    using h(4,6,7) by (auto simp: cw_check_and_spend_Ok cw_insert_leaf_frame)
  ultimately show ?thesis by (intro that) auto
qed

lemma cw_finalize_epoch_OkE:
  assumes "execute_finalize_epoch c env info s = Ok (s', r)"
  obtains epoch nuls root where "sender info = governance (CONFIG s)"
    "EPOCHS s (CURRENT_EPOCH_ID s) = Some epoch" "\<not> finalized epoch"
    "EPOCH_NULLIFIERS s (CURRENT_EPOCH_ID s) = Some nuls" "compute_nullifier_root c nuls = Ok root"
    "CURRENT_EPOCH_ID s + 1 < 2 ^ 64" "messages r = []"
    "s' = s\<lparr>CURRENT_EPOCH_ID := CURRENT_EPOCH_ID s + 1,
       EPOCHS := (EPOCHS s)(CURRENT_EPOCH_ID s \<mapsto> epoch\<lparr>nullifier_root := root,
            nullifier_count := length nuls mod 2 ^ 32, end_height := Some (height env), finalized := True\<rparr>,
          CURRENT_EPOCH_ID s + 1 \<mapsto> new_epoch env),
       EPOCH_NULLIFIERS := (EPOCH_NULLIFIERS s)(CURRENT_EPOCH_ID s + 1 \<mapsto> [])\<rparr>"
proof -
  from assms obtain epoch nuls root n where h: "sender info = governance (CONFIG s)"
    "EPOCHS s (CURRENT_EPOCH_ID s) = Some epoch" "\<not> finalized epoch"
    "EPOCH_NULLIFIERS s (CURRENT_EPOCH_ID s) = Some nuls" "compute_nullifier_root c nuls = Ok root"
    "uadd 64 (CURRENT_EPOCH_ID s) 1 = (Ok n :: (ContractError, nat) result)"
    unfolding execute_finalize_epoch_def Let_def bind_result_Ok_iff ensure_iffs of_option_iffs by blast
  with assms have "s' = s\<lparr>CURRENT_EPOCH_ID := n,
       EPOCHS := (EPOCHS s)(CURRENT_EPOCH_ID s \<mapsto> epoch\<lparr>nullifier_root := root,
            nullifier_count := length nuls mod 2 ^ 32, end_height := Some (height env), finalized := True\<rparr>,
          n \<mapsto> new_epoch env),
       EPOCH_NULLIFIERS := (EPOCH_NULLIFIERS s)(n \<mapsto> [])\<rparr> \<and> messages r = []"
    by (auto simp: execute_finalize_epoch_def Let_def ensure_def of_option_def)
  moreover have "n = CURRENT_EPOCH_ID s + 1" "CURRENT_EPOCH_ID s + 1 < 2 ^ 64"
    using h(6) by (auto simp: result_simps)
  ultimately show ?thesis using h by (intro that) auto
qed

lemma cw_maintenance_OkE:
  "execute_sync_epoch_root info chain epoch root s = Ok (s', r) \<Longrightarrow>
     (sender info = governance (CONFIG s) \<or> authorized_relayer (CONFIG s) = Some (sender info)) \<and> root \<noteq> [] \<and>
     s' = s\<lparr>REMOTE_EPOCH_ROOTS := (REMOTE_EPOCH_ROOTS s)((chain, epoch) \<mapsto> root)\<rparr> \<and> messages r = []"
  "execute_update_governance info g s = Ok (s', r) \<Longrightarrow>
     sender info = governance (CONFIG s) \<and> s' = s\<lparr>CONFIG := (CONFIG s)\<lparr>governance := g\<rparr>\<rparr> \<and> messages r = []"
  "execute_set_authorized_relayer info x s = Ok (s', r) \<Longrightarrow>
     sender info = governance (CONFIG s) \<and> s' = s\<lparr>CONFIG := (CONFIG s)\<lparr>authorized_relayer := x\<rparr>\<rparr> \<and> messages r = []"
  by (auto simp: execute_sync_epoch_root_def execute_update_governance_def
      execute_set_authorized_relayer_def Let_def result_simps split: option.splits)

lemma cw_spending_facts:
  assumes "check_and_spend_nullifiers nuls s = Ok s1"
    and "insert_leaf c a s1 = Ok (i, s2)" "insert_leaf c b s2 = Ok (j, s3)"
  shows "distinct [fst nuls, snd nuls]" "\<forall>n\<in>{fst nuls, snd nuls}. \<not> get False (NULLIFIER_SPENT s) n"
    "NULLIFIER_SPENT s3 = (NULLIFIER_SPENT s)(fst nuls \<mapsto> True, snd nuls \<mapsto> True)"
    "EPOCH_NULLIFIERS s3 = (EPOCH_NULLIFIERS s)(CURRENT_EPOCH_ID s \<mapsto>
       get [] (EPOCH_NULLIFIERS s) (CURRENT_EPOCH_ID s) @ [fst nuls, snd nuls])"
    "CURRENT_EPOCH_ID s3 = CURRENT_EPOCH_ID s" "POOL_BALANCE s3 = POOL_BALANCE s"
    "EPOCHS s3 = EPOCHS s" "COMMITMENT_EXISTS s3 = COMMITMENT_EXISTS s" "CONFIG s3 = CONFIG s"
    "REMOTE_EPOCH_ROOTS s3 = REMOTE_EPOCH_ROOTS s"
  using assms by (auto simp: cw_check_and_spend_Ok cw_insert_leaf_frame get_def)

section \<open>Sequences of calls\<close>

fun leaves_of :: "call \<Rightarrow> string list" where
  "leaves_of (_, _, Deposit cm) = [cm]"
| "leaves_of (_, _, Transfer _ _ _ outs) = [fst outs, snd outs]"
| "leaves_of (_, _, Withdraw _ _ _ outs _ _) = [fst outs, snd outs]"
| "leaves_of _ = []"

fun nulls_of :: "call \<Rightarrow> string list" where
  "nulls_of (_, _, Transfer _ _ nuls _) = [fst nuls, snd nuls]"
| "nulls_of (_, _, Withdraw _ _ nuls _ _ _) = [fst nuls, snd nuls]"
| "nulls_of _ = []"

lemma step_Ok_iff: "step c s (env, info, msg) = Ok s' \<longleftrightarrow> (\<exists>r. execute c env info msg s = Ok (s', r))"
  by (auto simp: result_simps)

lemma cw_tree_of_cong:
  assumes "CONFIG s' = CONFIG s" "FILLED_SUBTREES s' = FILLED_SUBTREES s" "ROOTS s' = ROOTS s"
    "CURRENT_ROOT_INDEX s' = CURRENT_ROOT_INDEX s" "NEXT_LEAF_INDEX s' = NEXT_LEAF_INDEX s"
  shows "tree_of c d cap s' xs = tree_of c d cap s xs"
  using assms by (simp add: tree_of_def)

lemma cw_insert_two_tree:
  assumes "tree_of c d cap s xs" and "check_and_spend_nullifiers nuls s = Ok s1"
    and "insert_leaf c a s1 = Ok (i, s2)" and "insert_leaf c b s2 = Ok (j, s3)"
  shows "tree_of c d cap s3 (xs @ [a, b])"
proof -
  have "tree_of c d cap s1 xs"
    using assms(1,2) by (auto simp: cw_check_and_spend_Ok tree_of_def)
  from cw_insert_leaf_tree(2) [OF this assms(3)] have "tree_of c d cap s2 (xs @ [a])" by simp
  from cw_insert_leaf_tree(2) [OF this assms(4)] show ?thesis by simp
qed

lemma step_tree:
  assumes rep: "tree_of c d cap s xs" and ok: "step c s call = Ok s'"
  shows "tree_of c d cap s' (xs @ leaves_of call)"
proof -
  obtain env info msg r where call: "call = (env, info, msg)" and ex: "execute c env info msg s = Ok (s', r)"
    using ok by (cases call) (auto simp: result_simps)
  show ?thesis
  proof (cases msg)
    case (Deposit cm)
    have "tree_of c d cap (s\<lparr>COMMITMENT_EXISTS := (COMMITMENT_EXISTS s)(cm \<mapsto> True)\<rparr>) xs"
      using rep by (simp add: tree_of_def)
    moreover from ex obtain i s1 where
      "insert_leaf c cm (s\<lparr>COMMITMENT_EXISTS := (COMMITMENT_EXISTS s)(cm \<mapsto> True)\<rparr>) = Ok (i, s1)"
      and s': "s' = s1\<lparr>POOL_BALANCE := POOL_BALANCE s1 + deposit_amount info s\<rparr>"
      unfolding Deposit by (auto elim!: cw_deposit_OkE)
    ultimately have "tree_of c d cap s1 (xs @ [cm])"
      using cw_insert_leaf_tree(2) by blast
    then show ?thesis by (simp add: call Deposit s' tree_of_def)
  next
    case (Transfer pr root nuls outs)
    from ex obtain s1 i s2 j where ins: "check_and_spend_nullifiers nuls s = Ok s1"
      "insert_leaf c (fst outs) s1 = Ok (i, s2)" "insert_leaf c (snd outs) s2 = Ok (j, s')"
      unfolding Transfer by (auto elim!: cw_transfer_OkE)
    with cw_insert_two_tree [OF rep ins] show ?thesis by (simp add: call Transfer)
  next
    case (Withdraw pr root nuls outs recipient v)
    from ex obtain s1 i s2 j s3 where ins: "check_and_spend_nullifiers nuls s = Ok s1"
      "insert_leaf c (fst outs) s1 = Ok (i, s2)" "insert_leaf c (snd outs) s2 = Ok (j, s3)"
      and s': "s' = s3\<lparr>POOL_BALANCE := POOL_BALANCE s3 - v\<rparr>"
      unfolding Withdraw by (auto elim!: cw_withdraw_OkE)
    with cw_insert_two_tree [OF rep ins] show ?thesis by (simp add: call Withdraw tree_of_def)
  qed (use rep ex call in \<open>auto elim!: cw_finalize_epoch_OkE dest!: cw_maintenance_OkE simp: tree_of_def\<close>)
qed

lemma step_ledger:
  assumes ok: "step c s call = Ok s'"
  shows "distinct (nulls_of call)" and "\<forall>n\<in>set (nulls_of call). \<not> get False (NULLIFIER_SPENT s) n"
    and "NULLIFIER_SPENT s' = mark_all (nulls_of call) (NULLIFIER_SPENT s)"
    and "snd (snd call) \<noteq> FinalizeEpoch \<Longrightarrow> get [] (EPOCH_NULLIFIERS s') = (get [] (EPOCH_NULLIFIERS s))
           (CURRENT_EPOCH_ID s := get [] (EPOCH_NULLIFIERS s) (CURRENT_EPOCH_ID s) @ nulls_of call)"
    and "snd (snd call) = FinalizeEpoch \<Longrightarrow> get [] (EPOCH_NULLIFIERS s') =
           (get [] (EPOCH_NULLIFIERS s))(Suc (CURRENT_EPOCH_ID s) := [])"
    and "CURRENT_EPOCH_ID s' = CURRENT_EPOCH_ID s + (if snd (snd call) = FinalizeEpoch then 1 else 0)"
proof -
  obtain env info msg r where call: "call = (env, info, msg)" and ex: "execute c env info msg s = Ok (s', r)"
    using ok by (cases call) (auto simp: result_simps)
  have all: "distinct (nulls_of call) \<and> (\<forall>n\<in>set (nulls_of call). \<not> get False (NULLIFIER_SPENT s) n) \<and>
    NULLIFIER_SPENT s' = mark_all (nulls_of call) (NULLIFIER_SPENT s) \<and>
    (snd (snd call) \<noteq> FinalizeEpoch \<longrightarrow> get [] (EPOCH_NULLIFIERS s') = (get [] (EPOCH_NULLIFIERS s))
           (CURRENT_EPOCH_ID s := get [] (EPOCH_NULLIFIERS s) (CURRENT_EPOCH_ID s) @ nulls_of call)) \<and>
    (snd (snd call) = FinalizeEpoch \<longrightarrow> get [] (EPOCH_NULLIFIERS s') =
           (get [] (EPOCH_NULLIFIERS s))(Suc (CURRENT_EPOCH_ID s) := [])) \<and>
    CURRENT_EPOCH_ID s' = CURRENT_EPOCH_ID s + (if snd (snd call) = FinalizeEpoch then 1 else 0)"
  proof (cases msg)
    case (Transfer pr root nuls outs)
    with ex show ?thesis
      by (simp add: call, elim cw_transfer_OkE) (use cw_spending_facts in \<open>simp add: cw_spending_facts get_fun_upd\<close>)
  next
    case (Withdraw pr root nuls outs recipient v)
    with ex show ?thesis
      by (simp add: call, elim cw_withdraw_OkE) (use cw_spending_facts in \<open>simp add: cw_spending_facts get_fun_upd\<close>)
  qed (use ex in \<open>auto elim!: cw_deposit_OkE cw_finalize_epoch_OkE dest!: cw_maintenance_OkE
         simp: call cw_insert_leaf_frame get_fun_upd\<close>)
  then show "distinct (nulls_of call)" and "\<forall>n\<in>set (nulls_of call). \<not> get False (NULLIFIER_SPENT s) n"
    and "NULLIFIER_SPENT s' = mark_all (nulls_of call) (NULLIFIER_SPENT s)"
    and "snd (snd call) \<noteq> FinalizeEpoch \<Longrightarrow> get [] (EPOCH_NULLIFIERS s') = (get [] (EPOCH_NULLIFIERS s))
           (CURRENT_EPOCH_ID s := get [] (EPOCH_NULLIFIERS s) (CURRENT_EPOCH_ID s) @ nulls_of call)"
    and "snd (snd call) = FinalizeEpoch \<Longrightarrow> get [] (EPOCH_NULLIFIERS s') =
           (get [] (EPOCH_NULLIFIERS s))(Suc (CURRENT_EPOCH_ID s) := [])"
    and "CURRENT_EPOCH_ID s' = CURRENT_EPOCH_ID s + (if snd (snd call) = FinalizeEpoch then 1 else 0)"
    by blast+
qed

lemma get_mark_all: "get False (mark_all ks m) k \<longleftrightarrow> get False m k \<or> k \<in> set ks"
  by (induction ks arbitrary: m) auto

interpretation cosmwasm_ledger: epoch_ledger "step c" "\<lambda>s. get False (NULLIFIER_SPENT s)" nulls_of
  CURRENT_EPOCH_ID "\<lambda>s. get [] (EPOCH_NULLIFIERS s)" for c
proof
  fix s call s' n
  assume ok: "step c s call = Ok s'"
  note facts = step_ledger [OF ok]
  show "n \<in> set (nulls_of call) \<Longrightarrow> \<not> get False (NULLIFIER_SPENT s) n"
    using facts(2) by blast
  show "distinct (nulls_of call)" by (rule facts(1))
  show "get False (NULLIFIER_SPENT s') n \<longleftrightarrow> get False (NULLIFIER_SPENT s) n \<or> n \<in> set (nulls_of call)"
    unfolding facts(3) by (rule get_mark_all)
  have fin: "nulls_of call = []" if "snd (snd call) = FinalizeEpoch"
    using that by (cases call) auto
  show "get [] (EPOCH_NULLIFIERS s') (CURRENT_EPOCH_ID s)
          = get [] (EPOCH_NULLIFIERS s) (CURRENT_EPOCH_ID s) @ nulls_of call"
    using facts(4,5) fin by (cases "snd (snd call) = FinalizeEpoch") auto
  show "e < CURRENT_EPOCH_ID s \<Longrightarrow> get [] (EPOCH_NULLIFIERS s') e = get [] (EPOCH_NULLIFIERS s) e" for e
    using facts(4,5) by (cases "snd (snd call) = FinalizeEpoch") auto
  show "CURRENT_EPOCH_ID s < e \<Longrightarrow> get [] (EPOCH_NULLIFIERS s') e = get [] (EPOCH_NULLIFIERS s) e \<or>
          get [] (EPOCH_NULLIFIERS s') e = []" for e
    using facts(4,5) by (cases "snd (snd call) = FinalizeEpoch") auto
  show "CURRENT_EPOCH_ID s' = CURRENT_EPOCH_ID s \<or> CURRENT_EPOCH_ID s' = Suc (CURRENT_EPOCH_ID s)"
    using facts(6) by auto
qed

section \<open>Properties of the contract\<close>

lemma init_subtrees_Ok:
  assumes "hex_encode_lowercase c" and "valid_hex zv"
  shows "\<exists>fs'. init_subtrees c l k zv fs = Ok (fs', zeros (ph c) zv k) \<and>
     (\<forall>j. if l \<le> j \<and> j < l + k then \<exists>v. fs' j = Some v \<and> valid_hex v else fs' j = fs j)"
  using assms(2)
proof (induction k arbitrary: l zv fs)
  case (Suc k)
  from Suc.IH [OF ph_valid [OF assms(1) Suc.prems Suc.prems], of "Suc l" "fs(l \<mapsto> zv)"]
  obtain fs' where f: "init_subtrees c (Suc l) k (ph c zv zv) (fs(l \<mapsto> zv)) = Ok (fs', zeros (ph c) (ph c zv zv) k)"
    and v: "\<forall>j. if Suc l \<le> j \<and> j < Suc l + k then \<exists>v. fs' j = Some v \<and> valid_hex v else fs' j = (fs(l \<mapsto> zv)) j"
    by blast
  have "if l \<le> j \<and> j < l + Suc k then \<exists>v. fs' j = Some v \<and> valid_hex v else fs' j = fs j" for j
    using v [rule_format, of j] Suc.prems by (auto split: if_splits)
  moreover have "init_subtrees c l (Suc k) zv fs = Ok (fs', zeros (ph c) zv (Suc k))"
    using f Suc.prems by (simp add: ph_Ok zeros_shift)
  ultimately show ?case by blast
qed auto

lemma instantiate_tree:
  assumes "hex_encode_lowercase c" and "instantiate c env msg = Ok (s, r)"
    and "0 < msg_tree_depth msg" "msg_tree_depth msg < 64"
    and "0 < msg_root_history_size msg" "msg_root_history_size msg < 2 ^ 32"
  shows "tree_of c (msg_tree_depth msg) (msg_root_history_size msg) s []"
proof -
  let ?d = "msg_tree_depth msg" and ?cap = "msg_root_history_size msg"
  obtain fs where f: "init_subtrees c 0 ?d ZERO_HASH Map.empty = Ok (fs, zeros (ph c) ZERO_HASH ?d)"
    and v: "subtrees_valid ?d fs"
    using init_subtrees_Ok [OF assms(1) valid_ZERO_HASH, of 0 ?d Map.empty] unfolding subtrees_valid_def by fastforce
  have s: "tree_depth (CONFIG s) = ?d" "root_history_size (CONFIG s) = ?cap" "FILLED_SUBTREES s = fs"
    "NEXT_LEAF_INDEX s = 0" "ROOTS s = [0 \<mapsto> zeros (ph c) ZERO_HASH ?d]" "CURRENT_ROOT_INDEX s = 0"
    using assms(2) f by (auto simp: instantiate_def)
  show ?thesis
    using assms v tree_rep_Nil [OF assms(5), of "ph c" ZERO_HASH ?d "get ZERO_HASH fs"]
    by (simp add: tree_of_def s tree_root_Nil)
qed

text \<open>
  C18: over any sequence of calls of the CosmWasm contract the nullifier texts of the calls that went
  through are pairwise different and were not spent before.
\<close>

theorem cosmwasm_no_double_spend:
  "let spends = concat (map nulls_of (committed (step c) s cs))
   in distinct spends \<and> set spends \<inter> {n. get False (NULLIFIER_SPENT s) n} = {}"
  using cosmwasm_ledger.no_double_spend [of c s cs] by (auto simp: Let_def)

text \<open>
  C19: an instantiated CosmWasm contract keeps the reference tree of its configured depth over exactly the
  committed commitments, accepts exactly the last roots of its configured history, and its
  \<open>LatestRoot\<close> query never fails; a deposit of a text that is not hexadecimal cannot enter the tree.
\<close>

theorem cosmwasm_tree_refines_reference:
  assumes "hex_encode_lowercase c" and "instantiate c env msg = Ok (s0, r0)"
    and "0 < msg_tree_depth msg" "msg_tree_depth msg < 64"
    and "0 < msg_root_history_size msg" "msg_root_history_size msg < 2 ^ 32"
  shows "let s = run (step c) s0 cs;
             xs = concat (map leaves_of (committed (step c) s0 cs));
             root = tree_root (ph c) ZERO_HASH (msg_tree_depth msg)
         in query LatestRoot s = Ok (RootResponse (root xs)) \<and> NEXT_LEAF_INDEX s = length xs \<and>
            query (IsKnownRoot r) s = Ok (BoolResponse
              (r \<noteq> ZERO_HASH \<and> (\<exists>k\<le>length xs. length xs < k + msg_root_history_size msg \<and> r = root (take k xs)))) \<and>
            (is_Ok (append_leaf c s x) = (length xs < 2 ^ msg_tree_depth msg \<and> valid_hex x))"
proof -
  let ?d = "msg_tree_depth msg" and ?cap = "msg_root_history_size msg"
  let ?s = "run (step c) s0 cs" and ?xs = "concat (map leaves_of (committed (step c) s0 cs))"
  have rep: "tree_of c ?d ?cap ?s ?xs"
    using run_accumulates [where R = "tree_of c ?d ?cap", OF instantiate_tree [OF assms] step_tree] by simp
  have "ROOTS ?s (CURRENT_ROOT_INDEX ?s) = Some (tree_root (ph c) ZERO_HASH ?d ?xs)"
    using rep tree_rep_latest by (fastforce simp: tree_of_def)
  moreover have "NEXT_LEAF_INDEX ?s = length ?xs" using rep by (simp add: tree_of_def tree_rep_def)
  ultimately show ?thesis
    using cosmwasm_tree.known_rep [OF rep, of r] cosmwasm_tree.insert_ok_iff [OF rep, of x]
    by (simp add: Let_def of_option_def)
qed

definition sample_crypto :: Crypto where
  "sample_crypto = \<lparr>sha256 = (\<lambda>_. replicate 32 0), hex_encode = lower_hex\<rparr>"

definition sample_msg :: InstantiateMsg where
  "sample_msg = \<lparr>msg_tree_depth = 3, msg_epoch_duration = 10, msg_max_nullifiers_per_epoch = 8,
     msg_root_history_size = 4, msg_domain_chain_id = 1, msg_domain_app_id = 1,
     msg_governance = ''gov'', msg_accepted_denom = ''uatom''\<rparr>"

lemma sample_lowercase: "hex_encode_lowercase sample_crypto"
  by (simp add: hex_encode_lowercase_def sample_crypto_def)

lemma sample_instantiate: "\<exists>s0 r0. instantiate sample_crypto \<lparr>height = 1\<rparr> sample_msg = Ok (s0, r0)"
  using init_subtrees_Ok [OF sample_lowercase valid_ZERO_HASH, of 0 3 Map.empty]
  by (auto simp: instantiate_def sample_msg_def)

theorem cosmwasm_tree_refines_reference_witness:
  "\<exists>s0 r0. instantiate sample_crypto \<lparr>height = 1\<rparr> sample_msg = Ok (s0, r0) \<and>
     query LatestRoot s0 = Ok (RootResponse (tree_root (ph sample_crypto) ZERO_HASH 3 [])) \<and>
     is_Ok (append_leaf sample_crypto s0 ZERO_HASH)"
proof -
  obtain s0 r0 where ok: "instantiate sample_crypto \<lparr>height = 1\<rparr> sample_msg = Ok (s0, r0)"
    using sample_instantiate by blast
  from cosmwasm_tree_refines_reference [OF sample_lowercase ok, of "[]" _ ZERO_HASH] ok show ?thesis
    by (auto simp: sample_msg_def Let_def valid_ZERO_HASH)
qed

text \<open>
  C20: the pool balance of the CosmWasm contract follows the coins: every call that goes through changes
  \<open>POOL_BALANCE\<close> by exactly the deposited amount minus the bank transfers its response orders,
  and orders transfers only in the accepted denomination.
\<close>

theorem cosmwasm_balance_follows_coins:
  assumes "execute c env info msg s = Ok (s', r)"
  shows "POOL_BALANCE s' + sum_list (map (\<lambda>(_, _, v). v) (messages r)) =
      POOL_BALANCE s + (case msg of Deposit _ \<Rightarrow> deposit_amount info s | _ \<Rightarrow> 0) \<and>
    set (map (\<lambda>(_, d, _). d) (messages r)) \<subseteq> {accepted_denom (CONFIG s)}"
proof (cases msg)
  case (Transfer pr root nuls outs)
  with assms show ?thesis by (simp, elim cw_transfer_OkE) (simp add: cw_spending_facts)
next
  case (Withdraw pr root nuls outs recipient v)
  with assms show ?thesis by (simp, elim cw_withdraw_OkE) (simp add: cw_spending_facts)
qed (use assms in \<open>auto elim!: cw_deposit_OkE cw_finalize_epoch_OkE dest!: cw_maintenance_OkE simp: cw_insert_leaf_frame\<close>)

lemma sample_deposit_goes_through:
  assumes "instantiate sample_crypto \<lparr>height = 1\<rparr> sample_msg = Ok (s0, r0)"
  shows "\<exists>s' r. execute sample_crypto \<lparr>height = 2\<rparr> \<lparr>sender = ''a'', coins = [(''uatom'', 5)]\<rparr> (Deposit ZERO_HASH) s0
    = Ok (s', r)"
proof -
  let ?s1 = "s0\<lparr>COMMITMENT_EXISTS := (COMMITMENT_EXISTS s0)(ZERO_HASH \<mapsto> True)\<rparr>"
  have s0: "accepted_denom (CONFIG s0) = ''uatom''" "COMMITMENT_EXISTS s0 = Map.empty" "POOL_BALANCE s0 = 0"
    using assms by (auto simp: instantiate_def sample_msg_def result_simps)
  have "tree_of sample_crypto 3 4 s0 []"
    using instantiate_tree [OF sample_lowercase assms] by (simp add: sample_msg_def)
  then have rep: "tree_of sample_crypto 3 4 ?s1 []" by (simp add: tree_of_def)
  obtain i s2 where ins: "insert_leaf sample_crypto ZERO_HASH ?s1 = Ok (i, s2)"
    using cw_insert_leaf_tree(1) [OF rep valid_ZERO_HASH] by auto
  moreover have "POOL_BALANCE s2 = 0" using cw_insert_leaf_frame(4) [OF ins] s0 by simp
  ultimately show ?thesis
    by (simp add: execute_deposit_def s0 ensure_def uadd_def)
qed

theorem cosmwasm_balance_follows_coins_witness:
  "\<exists>s0 r0 s' r. instantiate sample_crypto \<lparr>height = 1\<rparr> sample_msg = Ok (s0, r0) \<and>
     execute sample_crypto \<lparr>height = 2\<rparr> \<lparr>sender = ''a'', coins = [(''uatom'', 5)]\<rparr> (Deposit ZERO_HASH) s0 = Ok (s', r) \<and>
     POOL_BALANCE s' + sum_list (map (\<lambda>(_, _, v). v) (messages r)) = 5"
proof -
  obtain s0 r0 where ok: "instantiate sample_crypto \<lparr>height = 1\<rparr> sample_msg = Ok (s0, r0)"
    using sample_instantiate by blast
  obtain s' r where ex: "execute sample_crypto \<lparr>height = 2\<rparr> \<lparr>sender = ''a'', coins = [(''uatom'', 5)]\<rparr>
      (Deposit ZERO_HASH) s0 = Ok (s', r)"
    using sample_deposit_goes_through [OF ok] by blast
  have "accepted_denom (CONFIG s0) = ''uatom''" "POOL_BALANCE s0 = 0"
    using ok by (auto simp: instantiate_def sample_msg_def result_simps)
  with cosmwasm_balance_follows_coins [OF ex] ok ex show ?thesis
    by (auto simp: deposit_amount_def)
qed

text \<open>An epoch with two nullifiers, one of which the hash cannot parse, can never be closed.\<close>

definition epoch_blocked :: "nat \<Rightarrow> Storage \<Rightarrow> bool" where
  "epoch_blocked e s \<longleftrightarrow> CURRENT_EPOCH_ID s = e \<and> 2 \<le> length (get [] (EPOCH_NULLIFIERS s) e) \<and>
     (\<exists>n\<in>set (get [] (EPOCH_NULLIFIERS s) e). \<not> valid_hex n)"

lemma hash_chain_valid:
  "hash_chain c cur ns = Ok h \<Longrightarrow> ns \<noteq> [] \<Longrightarrow> valid_hex cur \<and> list_all valid_hex ns"
proof (induction ns arbitrary: cur)
  case (Cons n ns)
  from Cons.prems(1) have "valid_hex cur" "valid_hex n" "hash_chain c (ph c cur n) ns = Ok h"
    by (auto simp: result_simps poseidon_Ok_iff)
  with Cons.IH [of "ph c cur n"] show ?case by (cases ns) auto
qed simp

lemma blocked_not_finalized:
  assumes "epoch_blocked e s" shows "execute_finalize_epoch c env info s \<noteq> Ok (s', r)"
proof
  assume "execute_finalize_epoch c env info s = Ok (s', r)"
  then obtain nuls root where n: "EPOCH_NULLIFIERS s (CURRENT_EPOCH_ID s) = Some nuls"
    and root: "compute_nullifier_root c nuls = Ok root" by (elim cw_finalize_epoch_OkE) auto
  from assms n have l: "2 \<le> length nuls" "\<exists>n\<in>set nuls. \<not> valid_hex n"
    by (auto simp: epoch_blocked_def get_def)
  then obtain a b ns where "nuls = a # b # ns" by (cases nuls; cases "tl nuls") auto
  with root l hash_chain_valid [of c a "b # ns" root] show False
    by (auto simp: compute_nullifier_root_def list_all_iff simp del: hash_chain.simps)
qed

lemma blocked_step:
  assumes "epoch_blocked e s" and "step c s call = Ok s'" shows "epoch_blocked e s'"
proof -
  have nf: "snd (snd call) \<noteq> FinalizeEpoch"
    using assms blocked_not_finalized [OF assms(1)] by (cases call) (auto simp: result_simps)
  then show ?thesis
    using assms(1) step_ledger(4,6) [OF assms(2)] by (auto simp: epoch_blocked_def)
qed

text \<open>
  C21: one accepted transfer whose first nullifier text the hash cannot parse blocks the epochs for good: after
  it no sequence of calls, by whoever, gets an epoch closed or the current epoch advanced. The
  binding check only asks the nullifier texts to be non-empty and not all zeros.
\<close>

theorem cosmwasm_unparsable_nullifier_blocks_epochs:
  assumes "execute c env info (Transfer pr root nuls outs) s = Ok (s', r)" and "\<not> valid_hex (fst nuls)"
  shows "CURRENT_EPOCH_ID (run (step c) s' cs) = CURRENT_EPOCH_ID s \<and>
    \<not> is_Ok (execute c env' info' FinalizeEpoch (run (step c) s' cs))"
proof -
  from assms(1) have "epoch_blocked (CURRENT_EPOCH_ID s) s'"
    by (simp, elim cw_transfer_OkE) (use assms(2) in \<open>simp add: cw_spending_facts epoch_blocked_def get_def\<close>)
  then have b: "epoch_blocked (CURRENT_EPOCH_ID s) (run (step c) s' cs)"
    by (rule run_invariant [where I = "epoch_blocked (CURRENT_EPOCH_ID s)"]) (rule blocked_step)
  then show ?thesis
    using blocked_not_finalized [OF b, of c env' info'] by (auto simp: epoch_blocked_def is_Ok_iff)
qed

text \<open>A storage whose only root is a short text, with room for two leaves.\<close>

definition sample_storage :: Storage where
  "sample_storage = \<lparr>CONFIG = \<lparr>tree_depth = 1, epoch_duration = 10, max_nullifiers_per_epoch = 8,
      root_history_size = 4, domain_chain_id = 1, domain_app_id = 1, governance = ''gov'',
      accepted_denom = ''uatom'', authorized_relayer = None\<rparr>,
     NEXT_LEAF_INDEX = 0, FILLED_SUBTREES = [0 \<mapsto> ZERO_HASH], ROOTS = [0 \<mapsto> ''1''], CURRENT_ROOT_INDEX = 0,
     NULLIFIER_SPENT = Map.empty, COMMITMENT_EXISTS = Map.empty, POOL_BALANCE = 0, CURRENT_EPOCH_ID = 0,
     EPOCHS = [0 \<mapsto> new_epoch \<lparr>height = 1\<rparr>], EPOCH_NULLIFIERS = [0 \<mapsto> []], REMOTE_EPOCH_ROOTS = Map.empty\<rparr>"

definition sample_proof :: string where
  "sample_proof = replicate 64 CHR ''0'' @ replicate 320 CHR ''1''"

abbreviation sample_outs :: "string \<times> string" where
  "sample_outs \<equiv> (lower_hex (replicate 31 0 @ [1]), lower_hex (replicate 31 0 @ [2]))"

lemma sample_outs_facts:
  "valid_hex (fst sample_outs)" "valid_hex (snd sample_outs)"
  by (simp_all add: valid_hex_def is_Ok_iff hex_to_32_lower_hex)

lemma sample_nibbles: "nibble (Suc 0) = CHR ''1''" "nibble 2 = CHR ''2''"
  unfolding nibble_def by code_simp+

lemma sample_outs_text:
  "lower_hex (replicate 31 0 @ [1]) = replicate 63 CHR ''0'' @ ''1''"
  "lower_hex (replicate 31 0 @ [2]) = replicate 63 CHR ''0'' @ ''2''"
proof -
  have z: "replicate 62 CHR ''0'' @ ''0'' = replicate 63 CHR ''0''"
    using replicate_append_same [of 62 "CHR ''0''"] by (simp flip: replicate_Suc)
  show "lower_hex (replicate 31 0 @ [1]) = replicate 63 CHR ''0'' @ ''1''"
    "lower_hex (replicate 31 0 @ [2]) = replicate 63 CHR ''0'' @ ''2''"
    by (simp_all add: lower_hex_append lower_hex_zeros lower_hex_Cons nibble_0 sample_nibbles flip: z)
      (simp_all add: lower_hex_def)
qed

lemma sample_binding:
  "verify_proof_binding sample_crypto sample_proof ''1'' (''g'', ''h'') sample_outs"
proof -
  have digits: "hex_digit CHR ''0'' \<noteq> None" "hex_digit CHR ''1'' \<noteq> None"
    by (simp_all add: hex_digit_lit)
  have z: "lower_hex (replicate 32 0) = replicate 64 CHR ''0''" by (simp add: lower_hex_zeros)
  show ?thesis
    using digits
    by (simp add: verify_proof_binding_def sample_proof_def sample_crypto_def z sample_outs_text
        all_zero_chars_def list_all_iff is_ascii_hexdigit_def)
qed

lemma sample_transfer:
  "\<exists>s' r. execute sample_crypto \<lparr>height = 2\<rparr> \<lparr>sender = ''a'', coins = []\<rparr>
     (Transfer sample_proof ''1'' (''g'', ''h'') sample_outs) sample_storage = Ok (s', r)"
proof -
  let ?p = "\<lambda>l r. ph sample_crypto l r"
  have h: "(poseidon_hash_hex (hex_encode sample_crypto) l r :: (ContractError, string) result) = Ok (?p l r)"
    if "valid_hex l" "valid_hex r" for l r using ph_Ok [OF that] .
  have "is_known_root ''1'' sample_storage"
    by (simp add: is_known_root_def sample_storage_def ZERO_HASH_def numeral_eq_Suc)
  moreover have "check_and_spend_nullifiers (''g'', ''h'') sample_storage = Ok (sample_storage
      \<lparr>NULLIFIER_SPENT := [''g'' \<mapsto> True, ''h'' \<mapsto> True], EPOCH_NULLIFIERS := [0 \<mapsto> [''g'', ''h'']]\<rparr>)"
    by (simp add: cw_check_and_spend_Ok) (simp add: sample_storage_def)
  ultimately show ?thesis
    using sample_outs_facts sample_binding
    by (simp add: execute_transfer_def ensure_def insert_leaf_def sample_storage_def upow_def uadd_def urem_def
        h valid_ZERO_HASH of_option_def)
qed

theorem cosmwasm_unparsable_nullifier_blocks_epochs_witness:
  "\<exists>s' r. execute sample_crypto \<lparr>height = 2\<rparr> \<lparr>sender = ''a'', coins = []\<rparr>
       (Transfer sample_proof ''1'' (''g'', ''h'') sample_outs) sample_storage = Ok (s', r) \<and>
     \<not> is_Ok (execute sample_crypto \<lparr>height = 9\<rparr> \<lparr>sender = ''gov'', coins = []\<rparr> FinalizeEpoch s')"
proof -
  have nv: "\<not> valid_hex (fst (''g'', ''h''))"
    using hex_loop_short [of "''g''" 0 31, where ?'a = ContractError] by (simp add: valid_hex_def hex_to_32_def is_Ok_def)
  obtain s' r where ex: "execute sample_crypto \<lparr>height = 2\<rparr> \<lparr>sender = ''a'', coins = []\<rparr>
       (Transfer sample_proof ''1'' (''g'', ''h'') sample_outs) sample_storage = Ok (s', r)"
    using sample_transfer by blast
  from cosmwasm_unparsable_nullifier_blocks_epochs [OF ex nv, of "[]"] ex show ?thesis by auto
qed

end
