(* ===== verification/Ink_Pool.thy ===== *)
theory Ink_Pool
  imports Merkle_Tree Nullifier_Ledger
begin

text \<open>
  The ink! contract (\<open>ink/privacy-pool/lib.rs\<close>). A message that returns an error reverts the
  storage, and so does a panic. Keccak-256 and the outcome of the native transfer are parameters; the
  caller, the block number and the transferred value come from the environment of the call. The
  manifest of the crate does not fix whether overflow is checked, so the build mode is a parameter too:
  unchecked arithmetic wraps and an unchecked shift uses its amount modulo the width.
\<close>

section \<open>Arithmetic of the two build modes\<close>

definition add_mode :: "bool \<Rightarrow> nat \<Rightarrow> nat \<Rightarrow> nat \<Rightarrow> ('e, nat) result" where
  "add_mode checked w a b =
     (if a + b < 2 ^ w then Ok (a + b) else if checked then Panic else Ok ((a + b) mod 2 ^ w))"

definition shl_mode :: "bool \<Rightarrow> nat \<Rightarrow> nat \<Rightarrow> nat \<Rightarrow> ('e, nat) result" where
  "shl_mode checked w a n =
     (if n < w then Ok (a * 2 ^ n mod 2 ^ w) else if checked then Panic else Ok (a * 2 ^ (n mod w) mod 2 ^ w))"

section \<open>Constants, types, events, errors and storage\<close>

record Host =
  keccak256 :: "u8 list \<Rightarrow> h256"
  overflow_checks :: bool

record Env =
  caller :: h256
  block_number :: nat
  transferred_value :: nat
  transfer_succeeds :: bool

definition TREE_DEPTH :: nat where "TREE_DEPTH = 32"

definition ROOT_HISTORY_SIZE :: nat where "ROOT_HISTORY_SIZE = 100"

definition ZERO_VALUE :: h256 where "ZERO_VALUE = 0"

definition MIN_COMMIT_DELAY :: nat where "MIN_COMMIT_DELAY = 2"

definition MAX_COMMIT_DELAY :: nat where "MAX_COMMIT_DELAY = 100"

record EpochInfo =
  epoch_id :: nat
  root :: h256
  finalized :: bool
  block_finalized :: nat

record CommitRecord =
  depositor :: h256
  commit_block :: nat
  revealed :: bool

datatype Event =
    Deposited h256 nat nat
  | Transferred h256 h256 h256 h256
  | Withdrawn h256 h256 h256 nat
  | EpochFinalized nat h256
  | RemoteRootSynced nat nat h256
  | DepositCommitted h256 h256
  | DepositRevealed h256 nat
  | Paused h256
  | Unpaused h256
  | GovernanceTransferred h256 h256

datatype Error =
    DuplicateCommitment | TreeFull | InvalidProof | NullifierAlreadySpent | UnknownRoot | ZeroAmount
  | InsufficientFunds | EpochAlreadyFinalized | NotGovernance | PoolPaused | DuplicateCommit
  | CommitNotFound | RevealTooEarly | CommitExpired | AlreadyRevealed | NotDepositor
  | CommitNotExpired | ZeroAddress

text \<open>The storage, followed by the effects on the chain: emitted events and native transfers.\<close>

record PrivacyPool =
  governance :: h256
  leaves :: "h256 \<rightharpoonup> nat"
  nodes :: "nat \<times> nat \<rightharpoonup> h256"
  next_leaf_index :: nat
  root_history :: "nat \<rightharpoonup> h256"
  root_history_cursor :: nat
  current_root :: h256
  nullifiers :: "h256 \<rightharpoonup> bool"
  current_epoch :: nat
  epochs :: "nat \<rightharpoonup> EpochInfo"
  epoch_duration :: nat
  epoch_start_block :: nat
  remote_roots :: "nat \<times> nat \<rightharpoonup> h256"
  pool_balance :: nat
  paused :: bool
  pending_commits :: "h256 \<rightharpoonup> CommitRecord"
  events :: "Event list"
  payments :: "(h256 \<times> nat) list"

type_synonym 'a outcome = "(Error, 'a \<times> PrivacyPool) result"

definition emit_event :: "Event \<Rightarrow> PrivacyPool \<Rightarrow> PrivacyPool" where
  "emit_event e s = s\<lparr>events := events s @ [e]\<rparr>"

definition new :: "Env \<Rightarrow> nat \<Rightarrow> PrivacyPool" where
  "new env duration = \<lparr>governance = caller env, leaves = Map.empty, nodes = Map.empty, next_leaf_index = 0,
     root_history = Map.empty, root_history_cursor = 0, current_root = ZERO_VALUE, nullifiers = Map.empty,
     current_epoch = 0,
     epochs = [0 \<mapsto> \<lparr>epoch_id = 0, root = ZERO_VALUE, finalized = False, block_finalized = 0\<rparr>],
     epoch_duration = duration, epoch_start_block = block_number env, remote_roots = Map.empty,
     pool_balance = 0, paused = False, pending_commits = Map.empty, events = [], payments = []\<rparr>"

section \<open>Internal functions\<close>

definition verify_proof_structure :: "Host \<Rightarrow> u8 list \<Rightarrow> h256 \<times> h256 \<Rightarrow> h256 \<times> h256 \<Rightarrow> (Error, unit) result" where
  "verify_proof_structure h proof nuls output_commitments =
     (if length proof < 192 then Err InvalidProof
      else if length proof > 4096 then Err InvalidProof
      else if length proof mod 32 \<noteq> 0 then Err InvalidProof
      else if list_all (\<lambda>b. b = 0) proof then Err InvalidProof
      else if fst nuls = snd nuls then Err InvalidProof
      else if fst nuls = 0 \<or> snd nuls = 0 then Err InvalidProof
      else if fst output_commitments = 0 \<or> snd output_commitments = 0 then Err InvalidProof
      else
        let binding = take 32 proof;
            body = drop 32 proof in
        if length body < 160 \<or> (length body - 96) mod 64 \<noteq> 0 then Err InvalidProof
        else
          let inputs = h256_bytes (fst nuls) @ h256_bytes (snd nuls)
                         @ h256_bytes (fst output_commitments) @ h256_bytes (snd output_commitments);
              transcript = as_bytes ''Halo2-IPA-bind'' @ inputs @ body;
              expected_binding = keccak256 h transcript
          in if binding \<noteq> h256_bytes expected_binding then Err InvalidProof else Ok ())"

definition is_known_root :: "h256 \<Rightarrow> PrivacyPool \<Rightarrow> bool" where
  "is_known_root r s =
     (if r = current_root s then True
      else list_ex (\<lambda>i. case root_history s i of Some stored \<Rightarrow> stored = r | None \<Rightarrow> False)
             [0..<ROOT_HISTORY_SIZE])"

text \<open>The cursor stays below the history size, so its increment does not overflow.\<close>

definition push_root :: "h256 \<Rightarrow> PrivacyPool \<Rightarrow> PrivacyPool" where
  "push_root r s = s\<lparr>root_history := (root_history s)(root_history_cursor s \<mapsto> r),
                     root_history_cursor := (root_history_cursor s + 1) mod ROOT_HISTORY_SIZE\<rparr>"

definition hash_pair :: "Host \<Rightarrow> h256 \<Rightarrow> h256 \<Rightarrow> h256" where
  "hash_pair h left right = keccak256 h (as_bytes ''Poseidon'' @ h256_bytes left @ h256_bytes right)"

text \<open>The neighbour of an even 32-bit index is a 32-bit index, so \<open>index + 1\<close> does not overflow.\<close>

fun update_levels ::
  "Host \<Rightarrow> nat \<Rightarrow> nat \<Rightarrow> nat \<Rightarrow> h256 \<Rightarrow> (nat \<times> nat \<rightharpoonup> h256) \<Rightarrow> (nat \<times> nat \<rightharpoonup> h256) \<times> h256" where
  "update_levels h level 0 index current_hash ns = (ns, current_hash)"
| "update_levels h level (Suc k) index current_hash ns =
     (let (left, right) =
            (if index mod 2 = 0 then (current_hash, get ZERO_VALUE ns (level, index + 1))
             else (get ZERO_VALUE ns (level, index - 1), current_hash));
          hash = hash_pair h left right;
          index = index div 2
      in update_levels h (level + 1) k index hash (ns((level + 1, index) \<mapsto> hash)))"

definition update_tree :: "Host \<Rightarrow> nat \<Rightarrow> h256 \<Rightarrow> PrivacyPool \<Rightarrow> PrivacyPool" where
  "update_tree h leaf_index leaf_hash s =
     (let (ns, hash) = update_levels h 0 TREE_DEPTH leaf_index leaf_hash (nodes s)
      in s\<lparr>nodes := ns, current_root := hash\<rparr>)"

section \<open>Messages\<close>

definition deposit :: "Host \<Rightarrow> Env \<Rightarrow> h256 \<Rightarrow> PrivacyPool \<Rightarrow> nat outcome" where
  "deposit h env commitment s =
     bind_result (ensure (\<not> paused s) PoolPaused) (\<lambda>_.
     let v = transferred_value env in
     bind_result (ensure (v \<noteq> 0) ZeroAmount) (\<lambda>_.
     bind_result (ensure (leaves s commitment = None) DuplicateCommitment) (\<lambda>_.
     let leaf_index = next_leaf_index s in
     bind_result (shl_mode (overflow_checks h) 32 1 TREE_DEPTH) (\<lambda>capacity.
     bind_result (ensure (\<not> leaf_index \<ge> capacity) TreeFull) (\<lambda>_.
     let s = s\<lparr>leaves := (leaves s)(commitment \<mapsto> leaf_index),
               nodes := (nodes s)((0, leaf_index) \<mapsto> commitment)\<rparr>;
         s = update_tree h leaf_index commitment s in
     bind_result (add_mode (overflow_checks h) 32 leaf_index 1) (\<lambda>n.
     bind_result (add_mode (overflow_checks h) 128 (pool_balance s) v) (\<lambda>b.
     let s = s\<lparr>next_leaf_index := n, pool_balance := b\<rparr>;
         s = push_root (current_root s) s
     in Ok (leaf_index, emit_event (Deposited commitment leaf_index v) s))))))))"

text \<open>The body of the loop over the output commitments.\<close>

definition insert_output :: "Host \<Rightarrow> h256 \<Rightarrow> PrivacyPool \<Rightarrow> (Error, PrivacyPool) result" where
  "insert_output h cm s =
     bind_result (ensure (leaves s cm = None) DuplicateCommitment) (\<lambda>_.
     let idx = next_leaf_index s;
         s = s\<lparr>leaves := (leaves s)(cm \<mapsto> idx), nodes := (nodes s)((0, idx) \<mapsto> cm)\<rparr>;
         s = update_tree h idx cm s in
     bind_result (add_mode (overflow_checks h) 32 idx 1) (\<lambda>n.
     Ok (s\<lparr>next_leaf_index := n\<rparr>)))"

definition check_unspent :: "h256 \<times> h256 \<Rightarrow> PrivacyPool \<Rightarrow> (Error, unit) result" where
  "check_unspent nuls s =
     bind_result (ensure (\<not> get False (nullifiers s) (fst nuls)) NullifierAlreadySpent) (\<lambda>_.
     ensure (\<not> get False (nullifiers s) (snd nuls)) NullifierAlreadySpent)"

definition mark_spent :: "h256 \<times> h256 \<Rightarrow> PrivacyPool \<Rightarrow> PrivacyPool" where
  "mark_spent nuls s = s\<lparr>nullifiers := (nullifiers s)(fst nuls \<mapsto> True, snd nuls \<mapsto> True)\<rparr>"

definition transfer :: "Host \<Rightarrow> u8 list \<Rightarrow> h256 \<Rightarrow> h256 \<times> h256 \<Rightarrow> h256 \<times> h256 \<Rightarrow> PrivacyPool \<Rightarrow> unit outcome" where
  "transfer h proof merkle_root nuls output_commitments s =
     bind_result (ensure (\<not> paused s) PoolPaused) (\<lambda>_.
     bind_result (ensure (is_known_root merkle_root s) UnknownRoot) (\<lambda>_.
     bind_result (check_unspent nuls s) (\<lambda>_.
     bind_result (verify_proof_structure h proof nuls output_commitments) (\<lambda>_.
     let s = mark_spent nuls s in
     bind_result (insert_output h (fst output_commitments) s) (\<lambda>s.
     bind_result (insert_output h (snd output_commitments) s) (\<lambda>s.
     let s = push_root (current_root s) s
     in Ok ((), emit_event (Transferred (fst nuls) (snd nuls)
                 (fst output_commitments) (snd output_commitments)) s)))))))"

definition insert_change :: "Host \<Rightarrow> h256 \<Rightarrow> PrivacyPool \<Rightarrow> (Error, PrivacyPool) result" where
  "insert_change h cm s = (if cm \<noteq> 0 then insert_output h cm s else Ok s)"

definition withdraw ::
  "Host \<Rightarrow> Env \<Rightarrow> u8 list \<Rightarrow> h256 \<Rightarrow> h256 \<times> h256 \<Rightarrow> h256 \<times> h256 \<Rightarrow> h256 \<Rightarrow> nat \<Rightarrow> PrivacyPool \<Rightarrow> unit outcome" where
  "withdraw h env proof merkle_root nuls output_commitments recipient amount s =
     bind_result (ensure (\<not> paused s) PoolPaused) (\<lambda>_.
     bind_result (ensure (is_known_root merkle_root s) UnknownRoot) (\<lambda>_.
     bind_result (check_unspent nuls s) (\<lambda>_.
     bind_result (verify_proof_structure h proof nuls output_commitments) (\<lambda>_.
     bind_result (ensure (\<not> amount > pool_balance s) InsufficientFunds) (\<lambda>_.
     let s = mark_spent nuls s in
     bind_result (insert_change h (fst output_commitments) s) (\<lambda>s.
     bind_result (insert_change h (snd output_commitments) s) (\<lambda>s.
     bind_result (usub (pool_balance s) amount) (\<lambda>b.
     let s = s\<lparr>pool_balance := b\<rparr>;
         s = push_root (current_root s) s in
     bind_result (ensure (transfer_succeeds env) InsufficientFunds) (\<lambda>_.
     let s = s\<lparr>payments := payments s @ [(recipient, amount)]\<rparr>
     in Ok ((), emit_event (Withdrawn (fst nuls) (snd nuls) recipient amount) s))))))))))"

definition finalize_epoch :: "Host \<Rightarrow> Env \<Rightarrow> PrivacyPool \<Rightarrow> nat outcome" where
  "finalize_epoch h env s =
     bind_result (ensure (caller env = governance s) NotGovernance) (\<lambda>_.
     let e = current_epoch s in
     bind_result (unwrap (epochs s e)) (\<lambda>epoch.
     bind_result (ensure (\<not> finalized epoch) EpochAlreadyFinalized) (\<lambda>_.
     let r = current_root s;
         block = block_number env;
         s = s\<lparr>epochs := (epochs s)(e \<mapsto>
                 \<lparr>epoch_id = e, root = r, finalized = True, block_finalized = block\<rparr>)\<rparr> in
     bind_result (add_mode (overflow_checks h) 32 e 1) (\<lambda>next_epoch.
     let s = s\<lparr>current_epoch := next_epoch, epoch_start_block := block,
               epochs := (epochs s)(next_epoch \<mapsto>
                 \<lparr>epoch_id = next_epoch, root = ZERO_VALUE, finalized = False, block_finalized = 0\<rparr>)\<rparr>
     in Ok (next_epoch, emit_event (EpochFinalized e r) s)))))"

definition sync_remote_root :: "Env \<Rightarrow> nat \<Rightarrow> nat \<Rightarrow> h256 \<Rightarrow> PrivacyPool \<Rightarrow> unit outcome" where
  "sync_remote_root env chain_id e r s =
     bind_result (ensure (caller env = governance s) NotGovernance) (\<lambda>_.
     Ok ((), emit_event (RemoteRootSynced chain_id e r)
               (s\<lparr>remote_roots := (remote_roots s)((chain_id, e) \<mapsto> r)\<rparr>)))"

definition commit_deposit :: "Host \<Rightarrow> Env \<Rightarrow> h256 \<Rightarrow> PrivacyPool \<Rightarrow> unit outcome" where
  "commit_deposit h env commit_hash s =
     bind_result (ensure (\<not> paused s) PoolPaused) (\<lambda>_.
     bind_result (ensure (pending_commits s commit_hash = None) DuplicateCommit) (\<lambda>_.
     let v = transferred_value env in
     bind_result (ensure (v \<noteq> 0) ZeroAmount) (\<lambda>_.
     let s = s\<lparr>pending_commits := (pending_commits s)(commit_hash \<mapsto>
                 \<lparr>depositor = caller env, commit_block = block_number env, revealed = False\<rparr>)\<rparr> in
     bind_result (add_mode (overflow_checks h) 128 (pool_balance s) v) (\<lambda>b.
     Ok ((), emit_event (DepositCommitted (caller env) commit_hash) (s\<lparr>pool_balance := b\<rparr>))))))"

definition reveal_deposit :: "Host \<Rightarrow> Env \<Rightarrow> h256 \<Rightarrow> h256 \<Rightarrow> PrivacyPool \<Rightarrow> nat outcome" where
  "reveal_deposit h env commit_hash commitment s =
     bind_result (of_option CommitNotFound (pending_commits s commit_hash)) (\<lambda>record.
     bind_result (ensure (depositor record = caller env) NotDepositor) (\<lambda>_.
     bind_result (ensure (\<not> revealed record) AlreadyRevealed) (\<lambda>_.
     let elapsed = saturating_sub (block_number env) (commit_block record) in
     bind_result (ensure (\<not> elapsed < MIN_COMMIT_DELAY) RevealTooEarly) (\<lambda>_.
     bind_result (ensure (\<not> elapsed > MAX_COMMIT_DELAY) CommitExpired) (\<lambda>_.
     bind_result (ensure (leaves s commitment = None) DuplicateCommitment) (\<lambda>_.
     let s = s\<lparr>pending_commits := (pending_commits s)(commit_hash \<mapsto> record\<lparr>revealed := True\<rparr>)\<rparr>;
         leaf_index = next_leaf_index s in
     bind_result (shl_mode (overflow_checks h) 32 1 TREE_DEPTH) (\<lambda>capacity.
     bind_result (ensure (\<not> leaf_index \<ge> capacity) TreeFull) (\<lambda>_.
     let s = s\<lparr>leaves := (leaves s)(commitment \<mapsto> leaf_index),
               nodes := (nodes s)((0, leaf_index) \<mapsto> commitment)\<rparr>;
         s = update_tree h leaf_index commitment s in
     bind_result (add_mode (overflow_checks h) 32 leaf_index 1) (\<lambda>n.
     let s = s\<lparr>next_leaf_index := n\<rparr>;
         s = push_root (current_root s) s
     in Ok (leaf_index, emit_event (DepositRevealed commitment leaf_index) s))))))))))"

definition reclaim_expired_commit :: "Env \<Rightarrow> h256 \<Rightarrow> PrivacyPool \<Rightarrow> unit outcome" where
  "reclaim_expired_commit env commit_hash s =
     bind_result (of_option CommitNotFound (pending_commits s commit_hash)) (\<lambda>record.
     bind_result (ensure (\<not> revealed record) AlreadyRevealed) (\<lambda>_.
     let elapsed = saturating_sub (block_number env) (commit_block record) in
     bind_result (ensure (\<not> elapsed \<le> MAX_COMMIT_DELAY) CommitNotExpired) (\<lambda>_.
     Ok ((), s\<lparr>pending_commits := (pending_commits s)(commit_hash \<mapsto> record\<lparr>revealed := True\<rparr>)\<rparr>))))"

definition pause :: "Env \<Rightarrow> PrivacyPool \<Rightarrow> unit outcome" where
  "pause env s =
     bind_result (ensure (caller env = governance s) NotGovernance) (\<lambda>_.
     Ok ((), emit_event (Paused (caller env)) (s\<lparr>paused := True\<rparr>)))"

definition unpause :: "Env \<Rightarrow> PrivacyPool \<Rightarrow> unit outcome" where
  "unpause env s =
     bind_result (ensure (caller env = governance s) NotGovernance) (\<lambda>_.
     Ok ((), emit_event (Unpaused (caller env)) (s\<lparr>paused := False\<rparr>)))"

definition transfer_governance :: "Env \<Rightarrow> h256 \<Rightarrow> PrivacyPool \<Rightarrow> unit outcome" where
  "transfer_governance env new_governance s =
     bind_result (ensure (caller env = governance s) NotGovernance) (\<lambda>_.
     bind_result (ensure (new_governance \<noteq> 0) ZeroAddress) (\<lambda>_.
     let old = governance s
     in Ok ((), emit_event (GovernanceTransferred old new_governance) (s\<lparr>governance := new_governance\<rparr>))))"

section \<open>Queries\<close>

definition get_current_root :: "PrivacyPool \<Rightarrow> h256" where
  "get_current_root s = current_root s"

definition get_next_leaf_index :: "PrivacyPool \<Rightarrow> nat" where
  "get_next_leaf_index s = next_leaf_index s"

definition is_nullifier_spent :: "h256 \<Rightarrow> PrivacyPool \<Rightarrow> bool" where
  "is_nullifier_spent nullifier s = get False (nullifiers s) nullifier"

definition get_current_epoch :: "PrivacyPool \<Rightarrow> nat" where
  "get_current_epoch s = current_epoch s"

definition get_pool_balance :: "PrivacyPool \<Rightarrow> nat" where
  "get_pool_balance s = pool_balance s"

definition get_remote_root :: "nat \<Rightarrow> nat \<Rightarrow> PrivacyPool \<Rightarrow> h256 option" where
  "get_remote_root chain_id e s = remote_roots s (chain_id, e)"

definition is_paused :: "PrivacyPool \<Rightarrow> bool" where
  "is_paused s = paused s"

definition get_governance :: "PrivacyPool \<Rightarrow> h256" where
  "get_governance s = governance s"

section \<open>Dispatch\<close>

datatype Message =
    Deposit h256
  | Transfer "u8 list" h256 "h256 \<times> h256" "h256 \<times> h256"
  | Withdraw "u8 list" h256 "h256 \<times> h256" "h256 \<times> h256" h256 nat
  | FinalizeEpoch
  | SyncRemoteRoot nat nat h256
  | CommitDeposit h256
  | RevealDeposit h256 h256
  | ReclaimExpiredCommit h256
  | Pause
  | Unpause
  | TransferGovernance h256

definition drop_value :: "'a outcome \<Rightarrow> (Error, PrivacyPool) result" where
  "drop_value r = bind_result r (\<lambda>(_, s). Ok s)"

fun dispatch :: "Host \<Rightarrow> PrivacyPool \<Rightarrow> Env \<times> Message \<Rightarrow> (Error, PrivacyPool) result" where
  "dispatch h s (env, Deposit cm) = drop_value (deposit h env cm s)"
| "dispatch h s (env, Transfer pr r nuls outs) = drop_value (transfer h pr r nuls outs s)"
| "dispatch h s (env, Withdraw pr r nuls outs to v) = drop_value (withdraw h env pr r nuls outs to v s)"
| "dispatch h s (env, FinalizeEpoch) = drop_value (finalize_epoch h env s)"
| "dispatch h s (env, SyncRemoteRoot chain e r) = drop_value (sync_remote_root env chain e r s)"
| "dispatch h s (env, CommitDeposit ch) = drop_value (commit_deposit h env ch s)"
| "dispatch h s (env, RevealDeposit ch cm) = drop_value (reveal_deposit h env ch cm s)"
| "dispatch h s (env, ReclaimExpiredCommit ch) = drop_value (reclaim_expired_commit env ch s)"
| "dispatch h s (env, Pause) = drop_value (pause env s)"
| "dispatch h s (env, Unpause) = drop_value (unpause env s)"
| "dispatch h s (env, TransferGovernance g) = drop_value (transfer_governance env g s)"

end
