(* ===== verification/Ink_Properties.thy ===== *)
theory Ink_Properties
  imports Ink_Pool
begin

text \<open>
  The properties of the ink! contract. Its tree stores every inner node it has computed and reads a
  missing neighbour as the zero value at every level, so the reference is a tree in which an empty
  subtree of any height has the zero value.
\<close>

section \<open>The sparse reference tree\<close>

fun snode :: "('h \<Rightarrow> 'h \<Rightarrow> 'h) \<Rightarrow> 'h \<Rightarrow> 'h list \<Rightarrow> nat \<Rightarrow> nat \<Rightarrow> 'h" where
  "snode H z xs 0 i = padded z xs i"
| "snode H z xs (Suc l) i =
     (if i * 2 ^ Suc l < length xs then H (snode H z xs l (2 * i)) (snode H z xs l (2 * i + 1)) else z)"

definition sparse_root :: "('h \<Rightarrow> 'h \<Rightarrow> 'h) \<Rightarrow> 'h \<Rightarrow> nat \<Rightarrow> 'h list \<Rightarrow> 'h" where
  "sparse_root H z d xs = snode H z xs d 0"

lemma snode_empty: "length xs \<le> i * 2 ^ l \<Longrightarrow> snode H z xs l i = z"
  by (cases l) (auto simp: padded_def)

lemma div_step: "n div 2 ^ Suc l = n div 2 ^ l div (2 :: nat)"
  by (metis div_mult2_eq mult.commute power_Suc)

lemma half_neq: "j \<noteq> m div 2 \<Longrightarrow> 2 * j \<noteq> m \<and> 2 * j + 1 \<noteq> (m :: nat)"
  by presburger

lemma odd_pred: "odd m \<Longrightarrow> m - 1 \<noteq> (m :: nat)"
  by (cases m) auto

lemma snode_other:
  "j \<noteq> length xs div 2 ^ l \<Longrightarrow> snode H z (xs @ [x]) l j = snode H z xs l j"
proof (induction l arbitrary: j)
  case 0
  then show ?case by (simp add: padded_def nth_append)
next
  case (Suc l)
  have "2 * j \<noteq> length xs div 2 ^ l" "2 * j + 1 \<noteq> length xs div 2 ^ l"
    using half_neq [OF Suc.prems [unfolded div_step]] by blast+
  moreover have "j * 2 ^ Suc l \<noteq> length xs"
    using Suc.prems by (metis nonzero_mult_div_cancel_right power_not_zero zero_neq_numeral)
  ultimately show ?case using Suc.IH by simp
qed

lemma index_covers: "length xs div 2 ^ l * 2 ^ l \<le> length xs" "length xs < Suc (length xs div 2 ^ l) * 2 ^ l"
  by (simp_all add: dividend_less_div_times)

lemma snode_step:
  assumes "i = length xs div 2 ^ l"
  shows "snode H z (xs @ [x]) (Suc l) (i div 2) =
    (if even i then H (snode H z (xs @ [x]) l i) (snode H z xs l (i + 1))
     else H (snode H z xs l (i - 1)) (snode H z (xs @ [x]) l i))"
proof -
  have "i div 2 * 2 ^ Suc l \<le> length xs"
    using index_covers(1) [of xs "Suc l"] by (simp only: assms flip: div_step)
  then have eq: "snode H z (xs @ [x]) (Suc l) (i div 2) =
      H (snode H z (xs @ [x]) l (2 * (i div 2))) (snode H z (xs @ [x]) l (2 * (i div 2) + 1))"
    by simp
  show ?thesis
  proof (cases "even i")
    case True
    have "snode H z (xs @ [x]) l (i + 1) = snode H z xs l (i + 1)"
      by (rule snode_other) (simp add: assms)
    with True show ?thesis unfolding eq by simp
  next
    case False
    then have "2 * (i div 2) = i - 1" "2 * (i div 2) + 1 = i" by presburger+
    moreover have "snode H z (xs @ [x]) l (i - 1) = snode H z xs l (i - 1)"
      using odd_pred [OF False] by (intro snode_other) (simp add: assms)
    ultimately show ?thesis unfolding eq using False by simp
  qed
qed

section \<open>The stored tree\<close>

lemma update_levels_correct:
  assumes "i = length xs div 2 ^ l" and "cur = snode (hash_pair h) 0 (xs @ [x]) l i"
    and "\<And>m j. l \<le> m \<Longrightarrow> m < l + k \<Longrightarrow> j \<noteq> length xs div 2 ^ m \<Longrightarrow> get 0 ns (m, j) = snode (hash_pair h) 0 xs m j"
  shows "update_levels h l k i cur ns =
    (\<lambda>(m, j). if l < m \<and> m \<le> l + k \<and> j = length xs div 2 ^ m
               then Some (snode (hash_pair h) 0 (xs @ [x]) m j) else ns (m, j),
     snode (hash_pair h) 0 (xs @ [x]) (l + k) (length xs div 2 ^ (l + k)))"
  using assms
proof (induction k arbitrary: l i cur ns)
  case 0
  then show ?case by (auto simp: fun_eq_iff)
next
  case (Suc k)
  let ?H = "hash_pair h" and ?n = "length xs"
  let ?hash = "snode ?H 0 (xs @ [x]) (Suc l) (i div 2)" and ?ns = "ns((Suc l, i div 2) \<mapsto> snode (hash_pair h) 0 (xs @ [x]) (Suc l) (i div 2))"
  have up: "i div 2 = ?n div 2 ^ Suc l" unfolding div_step Suc.prems(1) ..
  have sib: "get 0 ns (l, j) = snode ?H 0 xs l j" if "j \<noteq> i" for j
    using Suc.prems(3) [of l j] that Suc.prems(1) by simp
  have hash: "?hash = (if i mod 2 = 0 then ?H cur (get 0 ns (l, i + 1)) else ?H (get 0 ns (l, i - 1)) cur)"
    unfolding snode_step [OF Suc.prems(1)] Suc.prems(2) using sib odd_pred
    by (simp add: even_iff_mod_2_eq_zero del: snode.simps)
  have "update_levels h l (Suc k) i cur ns = update_levels h (Suc l) k (i div 2) ?hash ?ns"
    unfolding hash by (simp add: ZERO_VALUE_def Let_def)
  also have "\<dots> = (\<lambda>(m, j). if Suc l < m \<and> m \<le> Suc l + k \<and> j = ?n div 2 ^ m
               then Some (snode ?H 0 (xs @ [x]) m j) else ?ns (m, j),
     snode ?H 0 (xs @ [x]) (Suc l + k) (?n div 2 ^ (Suc l + k)))"
  proof (rule Suc.IH [OF up refl])
    fix m j assume mj: "Suc l \<le> m" "m < Suc l + k" "j \<noteq> ?n div 2 ^ m"
    then have "(m, j) \<noteq> (Suc l, i div 2)" using up by auto
    with mj Suc.prems(3) [of m j] show "get 0 ?ns (m, j) = snode ?H 0 xs m j"
      by (auto simp del: snode.simps fun_upd_apply)
  qed
  also have "\<dots> = (\<lambda>(m, j). if l < m \<and> m \<le> l + Suc k \<and> j = ?n div 2 ^ m
               then Some (snode ?H 0 (xs @ [x]) m j) else ns (m, j),
     snode ?H 0 (xs @ [x]) (l + Suc k) (?n div 2 ^ (l + Suc k)))"
    using up by (auto simp: fun_eq_iff simp del: snode.simps)
  finally show ?case .
qed

text \<open>What the storage holds after the leaves \<open>xs\<close>.\<close>

definition tree_of :: "Host \<Rightarrow> PrivacyPool \<Rightarrow> h256 list \<Rightarrow> bool" where
  "tree_of h s xs \<longleftrightarrow> next_leaf_index s = length xs \<and> distinct xs \<and>
     (\<forall>cm i. leaves s cm = Some i \<longleftrightarrow> i < length xs \<and> xs ! i = cm) \<and>
     (\<forall>l\<le>TREE_DEPTH. \<forall>j. nodes s (l, j) =
        (if j * 2 ^ l < length xs then Some (snode (hash_pair h) 0 xs l j) else None)) \<and>
     current_root s = sparse_root (hash_pair h) 0 TREE_DEPTH xs \<and>
     (\<forall>i r. root_history s i = Some r \<longrightarrow>
        (\<exists>k\<le>length xs. r = sparse_root (hash_pair h) 0 TREE_DEPTH (take k xs)))"

text \<open>The storage updates shared by all insertions.\<close>

definition put_leaf :: "Host \<Rightarrow> h256 \<Rightarrow> PrivacyPool \<Rightarrow> PrivacyPool" where
  "put_leaf h cm s = update_tree h (next_leaf_index s) cm
     (s\<lparr>leaves := (leaves s)(cm \<mapsto> next_leaf_index s), nodes := (nodes s)((0, next_leaf_index s) \<mapsto> cm)\<rparr>)"

lemma put_leaf_frame [simp]:
  "governance (put_leaf h cm s) = governance s" "next_leaf_index (put_leaf h cm s) = next_leaf_index s"
  "root_history (put_leaf h cm s) = root_history s"
  "nullifiers (put_leaf h cm s) = nullifiers s" "pool_balance (put_leaf h cm s) = pool_balance s"
  "paused (put_leaf h cm s) = paused s" "pending_commits (put_leaf h cm s) = pending_commits s"
  "payments (put_leaf h cm s) = payments s" "leaves (put_leaf h cm s) = (leaves s)(cm \<mapsto> next_leaf_index s)"
  by (simp_all add: put_leaf_def update_tree_def split: prod.splits)

lemma put_leaf_tree_parts:
  assumes rep: "tree_of h s xs" and room: "length xs < 2 ^ TREE_DEPTH"
  shows "nodes (put_leaf h x s) = (\<lambda>(m, j). if m \<le> TREE_DEPTH \<and> j = length xs div 2 ^ m
            then Some (snode (hash_pair h) 0 (xs @ [x]) m j) else nodes s (m, j))"
    and "current_root (put_leaf h x s) = sparse_root (hash_pair h) 0 TREE_DEPTH (xs @ [x])"
proof -
  let ?ns = "(nodes s)((0, length xs) \<mapsto> x)"
  have nodes: "nodes s (l, j) = (if j * 2 ^ l < length xs then Some (snode (hash_pair h) 0 xs l j) else None)"
    if "l \<le> TREE_DEPTH" for l j using rep that by (simp add: tree_of_def)
  have n: "next_leaf_index s = length xs" using rep by (simp add: tree_of_def)
  have old: "get 0 ?ns (m, j) = snode (hash_pair h) 0 xs m j"
    if "m < TREE_DEPTH" "j \<noteq> length xs div 2 ^ m" for m j
    using that nodes [of m j] by (auto simp: get_def snode_empty)
  have "update_levels h 0 TREE_DEPTH (length xs) x ?ns =
    (\<lambda>(m, j). if 0 < m \<and> m \<le> 0 + TREE_DEPTH \<and> j = length xs div 2 ^ m
               then Some (snode (hash_pair h) 0 (xs @ [x]) m j) else ?ns (m, j),
     snode (hash_pair h) 0 (xs @ [x]) (0 + TREE_DEPTH) (length xs div 2 ^ (0 + TREE_DEPTH)))"
    by (rule update_levels_correct) (use old in \<open>auto simp: padded_def\<close>)
  then show "nodes (put_leaf h x s) = (\<lambda>(m, j). if m \<le> TREE_DEPTH \<and> j = length xs div 2 ^ m
            then Some (snode (hash_pair h) 0 (xs @ [x]) m j) else nodes s (m, j))"
    and "current_root (put_leaf h x s) = sparse_root (hash_pair h) 0 TREE_DEPTH (xs @ [x])"
    using room by (auto simp: put_leaf_def update_tree_def n fun_eq_iff sparse_root_def padded_def
        simp del: snode.simps(2))
qed

lemma nodes_after_leaf:
  assumes "\<And>j. f j = (if j * 2 ^ l < length xs then Some (snode H z xs l j) else None)"
  shows "(if j = length xs div 2 ^ l then Some (snode H z (xs @ [x]) l j) else f j) =
    (if j * 2 ^ l < length (xs @ [x]) then Some (snode H z (xs @ [x]) l j) else None)"
proof (cases "j = length xs div 2 ^ l")
  case True
  then show ?thesis by (simp add: less_Suc_eq_le)
next
  case False
  then have "j * 2 ^ l \<noteq> length xs"
    by (metis nonzero_mult_div_cancel_right power_not_zero zero_neq_numeral)
  with False assms show ?thesis by (auto simp: snode_other)
qed

lemma put_leaf_tree:
  assumes rep: "tree_of h s xs" and room: "length xs < 2 ^ TREE_DEPTH" and fresh: "leaves s x = None"
  shows "tree_of h ((put_leaf h x s)\<lparr>next_leaf_index := Suc (length xs)\<rparr>) (xs @ [x])"
proof -
  note parts = put_leaf_tree_parts [OF rep room]
  have lv: "leaves s cm = Some i \<longleftrightarrow> i < length xs \<and> xs ! i = cm" for cm i
    using rep by (simp add: tree_of_def)
  have n: "next_leaf_index s = length xs" and d: "distinct xs"
    using rep by (auto simp: tree_of_def)
  have x: "x \<notin> set xs" using fresh lv [of x] by (auto simp: in_set_conv_nth)
  have nodes: "nodes (put_leaf h x s) (l, j) =
      (if j * 2 ^ l < length (xs @ [x]) then Some (snode (hash_pair h) 0 (xs @ [x]) l j) else None)"
    if "l \<le> TREE_DEPTH" for l j
    unfolding parts(1) using that rep nodes_after_leaf [of "\<lambda>j. nodes s (l, j)" l xs "hash_pair h" 0 j x]
    by (simp add: tree_of_def)
  have lv': "((leaves s)(x \<mapsto> length xs)) cm = Some i \<longleftrightarrow> i < length (xs @ [x]) \<and> (xs @ [x]) ! i = cm" for cm i
    using lv [of cm i] x by (auto simp: nth_append less_Suc_eq in_set_conv_nth)
  have hist: "\<exists>k\<le>length (xs @ [x]). r = sparse_root (hash_pair h) 0 TREE_DEPTH (take k (xs @ [x]))"
    if "root_history s i = Some r" for i r
  proof -
    from rep that obtain k where "k \<le> length xs" "r = sparse_root (hash_pair h) 0 TREE_DEPTH (take k xs)"
      unfolding tree_of_def by blast
    then show ?thesis by (intro exI [of _ k]) simp
  qed
  show ?thesis
    unfolding tree_of_def using nodes lv' hist d x parts(2) by (simp add: n)
qed

lemma push_root_tree:
  assumes "tree_of h s xs" shows "tree_of h (push_root (current_root s) s) xs"
proof -
  have "\<exists>k\<le>length xs. current_root s = sparse_root (hash_pair h) 0 TREE_DEPTH (take k xs)"
    using assms by (intro exI [of _ "length xs"]) (simp add: tree_of_def)
  with assms show ?thesis by (auto simp: tree_of_def push_root_def)
qed

lemma ink_tree_of_cong:
  assumes "leaves s' = leaves s" "nodes s' = nodes s" "next_leaf_index s' = next_leaf_index s"
    "root_history s' = root_history s" "current_root s' = current_root s"
  shows "tree_of h s' xs = tree_of h s xs"
  unfolding tree_of_def assms ..

section \<open>Successful messages\<close>

lemma add_mode_iffs [result_simps]:
  "add_mode c w a b = Ok n \<longleftrightarrow>
     a + b < 2 ^ w \<and> n = a + b \<or> 2 ^ w \<le> a + b \<and> \<not> c \<and> n = (a + b) mod 2 ^ w"
  "add_mode c w a b \<noteq> Err e"
  by (auto simp: add_mode_def)

lemma capacity_value:
  "(shl_mode c 32 (Suc 0) TREE_DEPTH :: (Error, nat) result) = (if c then Panic else Ok 1)"
  by (simp add: shl_mode_def TREE_DEPTH_def)

lemma emit_event_frame [simp]:
  "governance (emit_event e s) = governance s" "leaves (emit_event e s) = leaves s"
  "nodes (emit_event e s) = nodes s" "next_leaf_index (emit_event e s) = next_leaf_index s"
  "root_history (emit_event e s) = root_history s" "current_root (emit_event e s) = current_root s"
  "nullifiers (emit_event e s) = nullifiers s" "pool_balance (emit_event e s) = pool_balance s"
  "paused (emit_event e s) = paused s" "pending_commits (emit_event e s) = pending_commits s"
  "payments (emit_event e s) = payments s"
  by (simp_all add: emit_event_def)

lemma push_root_frame [simp]:
  "governance (push_root r s) = governance s" "leaves (push_root r s) = leaves s"
  "nodes (push_root r s) = nodes s" "next_leaf_index (push_root r s) = next_leaf_index s"
  "current_root (push_root r s) = current_root s"
  "nullifiers (push_root r s) = nullifiers s" "pool_balance (push_root r s) = pool_balance s"
  "paused (push_root r s) = paused s" "pending_commits (push_root r s) = pending_commits s"
  "payments (push_root r s) = payments s"
  by (simp_all add: push_root_def)

lemma insert_output_Ok:
  "insert_output h cm s = Ok s' \<longleftrightarrow> leaves s cm = None \<and>
     (\<exists>n. add_mode (overflow_checks h) 32 (next_leaf_index s) 1 = (Ok n :: (Error, nat) result) \<and>
          s' = (put_leaf h cm s)\<lparr>next_leaf_index := n\<rparr>)"
  unfolding insert_output_def Let_def bind_result_Ok_iff ensure_iffs put_leaf_def [symmetric] by auto

lemma ink_deposit_OkE:
  assumes "deposit h env cm s = Ok (i, s')"
  obtains n b where "\<not> paused s" "transferred_value env \<noteq> 0" "leaves s cm = None"
    "\<not> overflow_checks h" "next_leaf_index s = 0"
    "add_mode (overflow_checks h) 32 (next_leaf_index s) 1 = (Ok n :: (Error, nat) result)"
    "add_mode (overflow_checks h) 128 (pool_balance s) (transferred_value env) = (Ok b :: (Error, nat) result)"
    "s' = emit_event (Deposited cm i (transferred_value env)) (push_root (current_root (put_leaf h cm s))
       ((put_leaf h cm s)\<lparr>next_leaf_index := n, pool_balance := b\<rparr>))"
proof -
  let ?v = "transferred_value env"
  from assms obtain cap n b where h: "\<not> paused s" "?v \<noteq> 0" "leaves s cm = None"
    "(shl_mode (overflow_checks h) 32 1 TREE_DEPTH :: (Error, nat) result) = Ok cap" "\<not> next_leaf_index s \<ge> cap"
    "add_mode (overflow_checks h) 32 (next_leaf_index s) 1 = (Ok n :: (Error, nat) result)"
    "add_mode (overflow_checks h) 128 (pool_balance (put_leaf h cm s)) ?v = (Ok b :: (Error, nat) result)"
    unfolding deposit_def Let_def bind_result_Ok_iff ensure_iffs put_leaf_def by blast
  with assms have "s' = emit_event (Deposited cm i ?v) (push_root (current_root (put_leaf h cm s))
       ((put_leaf h cm s)\<lparr>next_leaf_index := n, pool_balance := b\<rparr>))"
    by (auto simp: deposit_def ensure_def put_leaf_def Let_def)
  with h show ?thesis by (intro that) (auto simp: capacity_value split: if_splits)
qed

lemma verify_proof_structure_Ok:
  assumes "verify_proof_structure h pr nuls outs = Ok u"
  shows "fst nuls \<noteq> snd nuls" "fst outs \<noteq> 0" "snd outs \<noteq> 0"
  using assms by (auto simp: verify_proof_structure_def split: if_splits)

lemma ink_transfer_OkE:
  assumes "transfer h pr r nuls outs s = Ok (u, s')"
  obtains s1 s2 where "\<not> paused s" "is_known_root r s" "fst nuls \<noteq> snd nuls"
    "\<not> get False (nullifiers s) (fst nuls)" "\<not> get False (nullifiers s) (snd nuls)"
    "insert_output h (fst outs) (mark_spent nuls s) = Ok s1" "insert_output h (snd outs) s1 = Ok s2"
    "s' = emit_event (Transferred (fst nuls) (snd nuls) (fst outs) (snd outs)) (push_root (current_root s2) s2)"
  using assms unfolding transfer_def check_unspent_def Let_def bind_result_Ok_iff ensure_iffs
  using verify_proof_structure_Ok(1) by blast

lemma ink_withdraw_OkE:
  assumes "withdraw h env pr r nuls outs to v s = Ok (u, s')"
  obtains s1 s2 where "\<not> paused s" "is_known_root r s" "fst nuls \<noteq> snd nuls"
    "\<not> get False (nullifiers s) (fst nuls)" "\<not> get False (nullifiers s) (snd nuls)" "v \<le> pool_balance s"
    "insert_output h (fst outs) (mark_spent nuls s) = Ok s1" "insert_output h (snd outs) s1 = Ok s2"
    "v \<le> pool_balance s2"
    "s' = emit_event (Withdrawn (fst nuls) (snd nuls) to v)
       ((push_root (current_root s2) (s2\<lparr>pool_balance := pool_balance s2 - v\<rparr>))\<lparr>payments := payments s2 @ [(to, v)]\<rparr>)"
proof -
  from assms have ok: "verify_proof_structure h pr nuls outs = Ok ()"
    unfolding withdraw_def Let_def bind_result_Ok_iff by auto
  note facts = verify_proof_structure_Ok [OF ok]
  from assms facts show ?thesis
    unfolding withdraw_def check_unspent_def insert_change_def Let_def bind_result_Ok_iff ensure_iffs usub_iffs
    by (auto intro!: that simp: not_less)
qed

lemma ink_reveal_OkE:
  assumes "reveal_deposit h env ch cm s = Ok (i, s')"
  obtains rc n where "pending_commits s ch = Some rc" "depositor rc = caller env" "\<not> revealed rc"
    "MIN_COMMIT_DELAY \<le> block_number env - commit_block rc" "block_number env - commit_block rc \<le> MAX_COMMIT_DELAY"
    "leaves s cm = None" "\<not> overflow_checks h" "next_leaf_index s = 0"
    "add_mode (overflow_checks h) 32 (next_leaf_index s) 1 = (Ok n :: (Error, nat) result)"
    "s' = emit_event (DepositRevealed cm i)
       (push_root (current_root (put_leaf h cm (s\<lparr>pending_commits := (pending_commits s)(ch \<mapsto> rc\<lparr>revealed := True\<rparr>)\<rparr>)))
       ((put_leaf h cm (s\<lparr>pending_commits := (pending_commits s)(ch \<mapsto> rc\<lparr>revealed := True\<rparr>)\<rparr>))\<lparr>next_leaf_index := n\<rparr>))"
proof -
  from assms obtain rc cap n where h: "pending_commits s ch = Some rc" "depositor rc = caller env" "\<not> revealed rc"
    "\<not> block_number env - commit_block rc < MIN_COMMIT_DELAY" "\<not> block_number env - commit_block rc > MAX_COMMIT_DELAY"
    "leaves s cm = None" "(shl_mode (overflow_checks h) 32 1 TREE_DEPTH :: (Error, nat) result) = Ok cap"
    "\<not> next_leaf_index s \<ge> cap" "add_mode (overflow_checks h) 32 (next_leaf_index s) 1 = (Ok n :: (Error, nat) result)"
    unfolding reveal_deposit_def Let_def bind_result_Ok_iff ensure_iffs of_option_iffs saturating_sub_def
    by auto
  with assms have "s' = emit_event (DepositRevealed cm i)
       (push_root (current_root (put_leaf h cm (s\<lparr>pending_commits := (pending_commits s)(ch \<mapsto> rc\<lparr>revealed := True\<rparr>)\<rparr>)))
       ((put_leaf h cm (s\<lparr>pending_commits := (pending_commits s)(ch \<mapsto> rc\<lparr>revealed := True\<rparr>)\<rparr>))\<lparr>next_leaf_index := n\<rparr>))"
    by (auto simp: reveal_deposit_def of_option_def ensure_def saturating_sub_def put_leaf_def Let_def)
  with h show ?thesis by (intro that) (auto simp: capacity_value split: if_splits)
qed

lemma ink_commit_OkE:
  assumes "commit_deposit h env ch s = Ok (u, s')"
  obtains b where "\<not> paused s" "pending_commits s ch = None" "transferred_value env \<noteq> 0"
    "add_mode (overflow_checks h) 128 (pool_balance s) (transferred_value env) = (Ok b :: (Error, nat) result)"
    "s' = emit_event (DepositCommitted (caller env) ch) (s\<lparr>pending_commits := (pending_commits s)(ch \<mapsto>
                 \<lparr>depositor = caller env, commit_block = block_number env, revealed = False\<rparr>), pool_balance := b\<rparr>)"
  using assms unfolding commit_deposit_def Let_def bind_result_Ok_iff ensure_iffs by auto

lemma ink_reclaim_OkE:
  assumes "reclaim_expired_commit env ch s = Ok (u, s')"
  obtains rc where "pending_commits s ch = Some rc" "\<not> revealed rc"
    "MAX_COMMIT_DELAY < block_number env - commit_block rc"
    "s' = s\<lparr>pending_commits := (pending_commits s)(ch \<mapsto> rc\<lparr>revealed := True\<rparr>)\<rparr>"
  using assms unfolding reclaim_expired_commit_def Let_def bind_result_Ok_iff ensure_iffs of_option_iffs saturating_sub_def
  by auto

text \<open>The remaining messages touch neither tree, nullifiers, funds nor commits.\<close>

definition same_pool :: "PrivacyPool \<Rightarrow> PrivacyPool \<Rightarrow> bool" where
  "same_pool s' s \<longleftrightarrow> leaves s' = leaves s \<and> nodes s' = nodes s \<and> next_leaf_index s' = next_leaf_index s \<and>
     root_history s' = root_history s \<and> current_root s' = current_root s \<and> nullifiers s' = nullifiers s \<and>
     pool_balance s' = pool_balance s \<and> payments s' = payments s \<and> pending_commits s' = pending_commits s"

lemma ink_governance_OkE:
  "finalize_epoch h env s = Ok (e, s') \<Longrightarrow> caller env = governance s \<and> same_pool s' s"
  "sync_remote_root env chain ep r s = Ok (u, s') \<Longrightarrow> caller env = governance s \<and> same_pool s' s"
  "pause env s = Ok (u, s') \<Longrightarrow> caller env = governance s \<and> same_pool s' s"
  "unpause env s = Ok (u, s') \<Longrightarrow> caller env = governance s \<and> same_pool s' s"
  "transfer_governance env g s = Ok (u, s') \<Longrightarrow> caller env = governance s \<and> same_pool s' s"
  by (auto simp: finalize_epoch_def sync_remote_root_def pause_def unpause_def transfer_governance_def
      Let_def bind_result_Ok_iff ensure_iffs same_pool_def)

section \<open>Sequences of messages\<close>

type_synonym call = "Env \<times> Message"

fun leaves_of :: "call \<Rightarrow> h256 list" where
  "leaves_of (_, Deposit cm) = [cm]"
| "leaves_of (_, RevealDeposit _ cm) = [cm]"
| "leaves_of (_, Transfer _ _ _ outs) = [fst outs, snd outs]"
| "leaves_of (_, Withdraw _ _ _ outs _ _) = [fst outs, snd outs]"
| "leaves_of _ = []"

fun nulls_of :: "call \<Rightarrow> h256 list" where
  "nulls_of (_, Transfer _ _ nuls _) = [fst nuls, snd nuls]"
| "nulls_of (_, Withdraw _ _ nuls _ _ _) = [fst nuls, snd nuls]"
| "nulls_of _ = []"

fun value_in :: "call \<Rightarrow> nat" where
  "value_in (env, Deposit _) = transferred_value env"
| "value_in (env, CommitDeposit _) = transferred_value env"
| "value_in _ = 0"

lemma drop_value_Ok: "drop_value r = Ok s' \<longleftrightarrow> (\<exists>v. r = Ok (v, s'))"
  by (auto simp: drop_value_def bind_result_Ok_iff)

lemma insert_output_tree:
  assumes "tree_of h s xs" and "insert_output h cm s = Ok s'" and "Suc (length xs) < 2 ^ 32"
  shows "tree_of h s' (xs @ [cm])"
proof -
  have n: "next_leaf_index s = length xs" using assms(1) by (simp add: tree_of_def)
  from assms(2,3) n have "leaves s cm = None" "s' = (put_leaf h cm s)\<lparr>next_leaf_index := Suc (length xs)\<rparr>"
    by (auto simp: insert_output_Ok add_mode_iffs)
  with put_leaf_tree [OF assms(1)] assms(3) show ?thesis by (simp add: TREE_DEPTH_def)
qed

lemma tree_of_simps [simp]:
  "tree_of h (emit_event e s) xs = tree_of h s xs"
  "tree_of h (mark_spent nuls s) xs = tree_of h s xs"
  "tree_of h (s\<lparr>pool_balance := b\<rparr>) xs = tree_of h s xs"
  "tree_of h (s\<lparr>payments := p\<rparr>) xs = tree_of h s xs"
  "tree_of h (s\<lparr>pending_commits := c\<rparr>) xs = tree_of h s xs"
  by (rule ink_tree_of_cong; simp add: mark_spent_def)+

lemma two_outputs_tree:
  assumes "tree_of h s xs" and "insert_output h a (mark_spent nuls s) = Ok s1" "insert_output h b s1 = Ok s2"
    and "length xs + 2 < 2 ^ 32"
  shows "tree_of h s2 (xs @ [a, b])"
proof -
  have "tree_of h s1 (xs @ [a])" using insert_output_tree [OF _ assms(2)] assms(1,4) by simp
  from insert_output_tree [OF this assms(3)] assms(4) show ?thesis by simp
qed

lemma leaf_push_tree:
  assumes "tree_of h s xs" "leaves s cm = None" "Suc (length xs) < 2 ^ 32"
    "add_mode (overflow_checks h) 32 (next_leaf_index s) 1 = (Ok n :: (Error, nat) result)"
  shows "tree_of h (push_root (current_root (put_leaf h cm s)) ((put_leaf h cm s)\<lparr>next_leaf_index := n\<rparr>)) (xs @ [cm])"
proof -
  have n: "next_leaf_index s = length xs" using assms(1) by (simp add: tree_of_def)
  then have "n = Suc (length xs)" using assms(3,4) by (auto simp: add_mode_iffs)
  with put_leaf_tree [OF assms(1) _ assms(2)] assms(3)
  have "tree_of h ((put_leaf h cm s)\<lparr>next_leaf_index := n\<rparr>) (xs @ [cm])" by (simp add: TREE_DEPTH_def)
  from push_root_tree [OF this] show ?thesis by simp
qed

lemma dispatch_tree_upto:
  assumes rep: "tree_of h s xs" and ok: "dispatch h s call = Ok s'"
    and room: "length xs + length (leaves_of call) < 2 ^ 32"
  shows "tree_of h s' (xs @ leaves_of call)"
proof -
  obtain env msg where call: "call = (env, msg)" by (cases call)
  show ?thesis
  proof (cases msg)
    case (Deposit cm)
    with ok obtain i where "deposit h env cm s = Ok (i, s')" by (auto simp: call drop_value_Ok)
    then obtain n b where *: "leaves s cm = None"
      "add_mode (overflow_checks h) 32 (next_leaf_index s) 1 = (Ok n :: (Error, nat) result)"
      "s' = emit_event (Deposited cm i (transferred_value env)) (push_root (current_root (put_leaf h cm s))
         ((put_leaf h cm s)\<lparr>next_leaf_index := n, pool_balance := b\<rparr>))"
      by (elim ink_deposit_OkE)
    have "tree_of h s' (xs @ [cm]) =
      tree_of h (push_root (current_root (put_leaf h cm s)) ((put_leaf h cm s)\<lparr>next_leaf_index := n\<rparr>)) (xs @ [cm])"
      unfolding *(3) by (rule ink_tree_of_cong) (simp_all add: push_root_def)
    with leaf_push_tree [OF rep *(1) _ *(2)] room show ?thesis by (simp add: call Deposit)
  next
    case (RevealDeposit ch cm)
    with ok obtain i where "reveal_deposit h env ch cm s = Ok (i, s')" by (auto simp: call drop_value_Ok)
    then obtain rc n where *: "leaves s cm = None"
      "add_mode (overflow_checks h) 32 (next_leaf_index s) 1 = (Ok n :: (Error, nat) result)"
      "s' = emit_event (DepositRevealed cm i)
       (push_root (current_root (put_leaf h cm (s\<lparr>pending_commits := (pending_commits s)(ch \<mapsto> rc\<lparr>revealed := True\<rparr>)\<rparr>)))
       ((put_leaf h cm (s\<lparr>pending_commits := (pending_commits s)(ch \<mapsto> rc\<lparr>revealed := True\<rparr>)\<rparr>))\<lparr>next_leaf_index := n\<rparr>))"
      by (elim ink_reveal_OkE)
    let ?s = "s\<lparr>pending_commits := (pending_commits s)(ch \<mapsto> rc\<lparr>revealed := True\<rparr>)\<rparr>"
    have "tree_of h ?s xs" using rep by simp
    from leaf_push_tree [OF this, of cm n] * room show ?thesis by (simp add: call RevealDeposit)
  next
    case (Transfer pr r nuls outs)
    with ok obtain u where "transfer h pr r nuls outs s = Ok (u, s')" by (auto simp: call drop_value_Ok)
    then obtain s1 s2 where *: "insert_output h (fst outs) (mark_spent nuls s) = Ok s1"
      "insert_output h (snd outs) s1 = Ok s2"
      "s' = emit_event (Transferred (fst nuls) (snd nuls) (fst outs) (snd outs)) (push_root (current_root s2) s2)"
      by (elim ink_transfer_OkE)
    from push_root_tree [OF two_outputs_tree [OF rep *(1,2)]] room show ?thesis
      by (simp add: call Transfer *(3))
  next
    case (Withdraw pr r nuls outs to v)
    with ok obtain u where "withdraw h env pr r nuls outs to v s = Ok (u, s')" by (auto simp: call drop_value_Ok)
    then obtain s1 s2 where *: "insert_output h (fst outs) (mark_spent nuls s) = Ok s1"
      "insert_output h (snd outs) s1 = Ok s2"
      "s' = emit_event (Withdrawn (fst nuls) (snd nuls) to v) ((push_root (current_root s2)
         (s2\<lparr>pool_balance := pool_balance s2 - v\<rparr>))\<lparr>payments := payments s2 @ [(to, v)]\<rparr>)"
      by (elim ink_withdraw_OkE)
    have "tree_of h (s2\<lparr>pool_balance := pool_balance s2 - v\<rparr>) (xs @ [fst outs, snd outs])"
      using two_outputs_tree [OF rep *(1,2)] room by (simp add: call Withdraw)
    from push_root_tree [OF this] show ?thesis by (simp add: call Withdraw *(3))
  qed (use rep ok in \<open>auto simp: call drop_value_Ok same_pool_def elim!: ink_commit_OkE ink_reclaim_OkE
         dest!: ink_governance_OkE intro: ink_tree_of_cong [THEN iffD2]\<close>)
qed

lemma two_outputs_frame:
  assumes "insert_output h a (mark_spent nuls s) = Ok s1" "insert_output h b s1 = Ok s2"
  shows "nullifiers s2 = (nullifiers s)(fst nuls \<mapsto> True, snd nuls \<mapsto> True)"
    "pool_balance s2 = pool_balance s" "payments s2 = payments s" "pending_commits s2 = pending_commits s"
    "paused s2 = paused s"
  using assms by (auto simp: insert_output_Ok mark_spent_def)

lemma dispatch_nullifiers:
  assumes ok: "dispatch h s call = Ok s'"
  shows "distinct (nulls_of call) \<and> (\<forall>n\<in>set (nulls_of call). \<not> get False (nullifiers s) n) \<and>
    nullifiers s' = mark_all (nulls_of call) (nullifiers s)"
proof -
  obtain env msg where call: "call = (env, msg)" by (cases call)
  show ?thesis
    using ok by (cases msg) (auto simp: call drop_value_Ok same_pool_def two_outputs_frame elim!: ink_deposit_OkE
        ink_reveal_OkE ink_transfer_OkE ink_withdraw_OkE ink_commit_OkE ink_reclaim_OkE dest!: ink_governance_OkE)
qed

interpretation ink_ledger: nullifier_ledger "dispatch h" "\<lambda>s n. is_nullifier_spent n s" nulls_of for h
proof
  fix s call s' n
  assume "dispatch h s call = Ok s'"
  note facts = dispatch_nullifiers [OF this]
  show "n \<in> set (nulls_of call) \<Longrightarrow> \<not> is_nullifier_spent n s"
    using facts by (auto simp: is_nullifier_spent_def)
  show "distinct (nulls_of call)" using facts by blast
  have "get False (mark_all ks m) k \<longleftrightarrow> get False m k \<or> k \<in> set ks" for ks and m :: "h256 \<rightharpoonup> bool" and k
    by (induction ks arbitrary: m) auto
  with facts show "is_nullifier_spent n s' \<longleftrightarrow> is_nullifier_spent n s \<or> n \<in> set (nulls_of call)"
    by (simp add: is_nullifier_spent_def)
qed

definition paid :: "PrivacyPool \<Rightarrow> nat" where
  "paid s = sum_list (map snd (payments s))"

lemma dispatch_value:
  assumes ok: "dispatch h s call = Ok s'"
    and "overflow_checks h \<or> pool_balance s + value_in call < 2 ^ 128"
  shows "pool_balance s' + paid s' = pool_balance s + paid s + value_in call"
proof -
  obtain env msg where call: "call = (env, msg)" by (cases call)
  show ?thesis
    using assms by (cases msg) (auto simp: call drop_value_Ok same_pool_def two_outputs_frame paid_def add_mode_iffs
        elim!: ink_deposit_OkE ink_reveal_OkE ink_transfer_OkE ink_withdraw_OkE ink_commit_OkE ink_reclaim_OkE
        dest!: ink_governance_OkE)
qed

section \<open>Properties of the contract\<close>

text \<open>
  C22: over any sequence of messages of the ink! contract the nullifiers of the messages that went
  through are pairwise different and were not spent before.
\<close>

theorem ink_no_double_spend:
  "let spends = concat (map nulls_of (committed (dispatch h) s cs))
   in distinct spends \<and> set spends \<inter> {n. is_nullifier_spent n s} = {}"
  using ink_ledger.no_double_spend [of h s cs] by (auto simp: Let_def)

lemma ink_new_tree: "tree_of h (new env d) []"
  by (simp add: tree_of_def new_def sparse_root_def ZERO_VALUE_def snode_empty)

lemma run_tree_upto:
  assumes "length (concat (map leaves_of (committed (dispatch h) (new env d) cs))) < 2 ^ 32"
  shows "tree_of h (run (dispatch h) (new env d) cs) (concat (map leaves_of (committed (dispatch h) (new env d) cs)))"
proof -
  let ?R = "\<lambda>s xs. length xs < 2 ^ 32 \<longrightarrow> tree_of h s xs"
  have "?R s' (xs @ leaves_of c)" if "?R s xs" "dispatch h s c = Ok s'" for s xs c s'
    using that dispatch_tree_upto [of h s xs c s'] by simp
  moreover have "?R (new env d) []" using ink_new_tree by blast
  ultimately have "?R (run (dispatch h) (new env d) cs)
      ([] @ concat (map leaves_of (committed (dispatch h) (new env d) cs)))"
    by (intro run_accumulates [where R = ?R])
  with assms show ?thesis by simp
qed

text \<open>
  C23: as long as fewer than 2^32 leaves are inserted, the ink! contract stores the sparse tree over exactly the
  commitments of the messages that went through: the root is the one of the reference, no commitment occurs
  twice, the leaf map is its position, and every accepted root is the root of some
  prefix of the leaves, the latest one included.
\<close>

theorem ink_tree_refines_reference:
  assumes "length (concat (map leaves_of (committed (dispatch h) (new env d) cs))) < 2 ^ 32"
  shows "let s = run (dispatch h) (new env d) cs;
             xs = concat (map leaves_of (committed (dispatch h) (new env d) cs));
             root = sparse_root (hash_pair h) 0 TREE_DEPTH
         in get_current_root s = root xs \<and> get_next_leaf_index s = length xs \<and> distinct xs \<and>
            (leaves s cm = Some i \<longleftrightarrow> i < length xs \<and> xs ! i = cm) \<and>
            is_known_root (root xs) s \<and>
            (is_known_root r s \<longrightarrow> (\<exists>k\<le>length xs. r = root (take k xs)))"
proof -
  let ?s = "run (dispatch h) (new env d) cs"
  let ?xs = "concat (map leaves_of (committed (dispatch h) (new env d) cs))"
  let ?root = "sparse_root (hash_pair h) 0 TREE_DEPTH"
  have rep: "tree_of h ?s ?xs" using run_tree_upto assms by simp
  have hist: "\<exists>k\<le>length ?xs. r = ?root (take k ?xs)" if "is_known_root r ?s"
  proof (cases "r = current_root ?s")
    case True
    with rep show ?thesis by (intro exI [of _ "length ?xs"]) (simp add: tree_of_def)
  next
    case False
    with that obtain i where "root_history ?s i = Some r"
      by (auto simp: is_known_root_def list_ex_iff split: option.splits)
    with rep show ?thesis unfolding tree_of_def by blast
  qed
  have "leaves ?s cm = Some i \<longleftrightarrow> i < length ?xs \<and> ?xs ! i = cm"
    and "current_root ?s = ?root ?xs" "next_leaf_index ?s = length ?xs" "distinct ?xs"
    using rep unfolding tree_of_def by blast+
  then show ?thesis
    unfolding Let_def get_current_root_def get_next_leaf_index_def
    using hist by (simp add: is_known_root_def)
qed

text \<open>
  C24: the recorded balance of a fresh ink! contract is what deposits and commits paid in minus what withdrawals
  paid out, when overflow is checked or the amounts paid in stay below 2^128.
\<close>

theorem ink_value_conserved:
  assumes "overflow_checks h \<or> sum_list (map value_in (committed (dispatch h) (new env d) cs)) < 2 ^ 128"
  shows "get_pool_balance (run (dispatch h) (new env d) cs) + paid (run (dispatch h) (new env d) cs)
           = sum_list (map value_in (committed (dispatch h) (new env d) cs))"
proof -
  let ?R = "\<lambda>s xs. overflow_checks h \<or> sum_list xs < 2 ^ 128 \<longrightarrow> pool_balance s + paid s = sum_list xs"
  have "?R s' (xs @ [value_in c])" if "?R s xs" "dispatch h s c = Ok s'" for s xs c s'
    using that dispatch_value [OF that(2)] by auto
  moreover have "?R (new env d) []" by (simp add: new_def paid_def)
  ultimately have "?R (run (dispatch h) (new env d) cs)
      ([] @ concat (map (\<lambda>c. [value_in c]) (committed (dispatch h) (new env d) cs)))"
    by (intro run_accumulates [where R = ?R])
  moreover have "concat (map (\<lambda>c. [value_in c]) ys) = map value_in ys" for ys by (induction ys) auto
  ultimately show ?thesis using assms by (auto simp: get_pool_balance_def)
qed

text \<open>What the capacity check does to a message that gets that far, once there is a leaf or overflow is checked.\<close>

definition capacity_fails :: "Host \<Rightarrow> nat outcome" where
  "capacity_fails h = (if overflow_checks h then Panic else Err TreeFull)"

fun is_entry :: "call \<Rightarrow> bool" where
  "is_entry (_, Deposit _) = True"
| "is_entry (_, RevealDeposit _ _) = True"
| "is_entry _ = False"

lemma entry_Ok:
  assumes "dispatch h s call = Ok s'" and "is_entry call"
  shows "\<not> overflow_checks h" "next_leaf_index s = 0" "length (leaves_of call) = 1"
  using assms by (cases call rule: is_entry.cases; auto simp: drop_value_Ok elim!: ink_deposit_OkE ink_reveal_OkE)+

lemma entries_at_most_one:
  assumes "tree_of h s xs" and "length xs + length (concat (map leaves_of (committed (dispatch h) s cs))) < 2 ^ 32"
  shows "length (filter is_entry (committed (dispatch h) s cs)) \<le> (if xs = [] then 1 else 0)"
  using assms
proof (induction cs arbitrary: s xs)
  case (Cons call cs)
  show ?case
  proof (cases "dispatch h s call")
    case (Ok s')
    with Cons.prems(2) have len: "length xs + length (leaves_of call) < 2 ^ 32"
      "length (xs @ leaves_of call) + length (concat (map leaves_of (committed (dispatch h) s' cs))) < 2 ^ 32"
      by (simp_all add: is_Ok_def commit_def)
    from Cons.IH [OF dispatch_tree_upto [OF Cons.prems(1) Ok len(1)] len(2)]
    have rest: "length (filter is_entry (committed (dispatch h) s' cs)) \<le> (if xs @ leaves_of call = [] then 1 else 0)" .
    have "xs = [] \<and> leaves_of call \<noteq> []" if "is_entry call"
      using entry_Ok [OF Ok that] Cons.prems(1) by (auto simp: tree_of_def)
    with rest Ok show ?thesis by (auto simp: is_Ok_def commit_def split: if_splits)
  qed (use Cons in \<open>auto simp: is_Ok_def commit_def\<close>)
qed simp

lemma entries_checked:
  "overflow_checks h \<Longrightarrow> filter is_entry (committed (dispatch h) s cs) = []"
proof (induction cs arbitrary: s)
  case (Cons call cs)
  then show ?case using entry_Ok(1) [of h s call] by (cases "dispatch h s call") (auto simp: is_Ok_def)
qed simp

text \<open>
  C26: the capacity check \<open>leaf_index >= (1u32 << TREE_DEPTH)\<close> shifts by the full width. In a build that checks
  overflow, a deposit that passes the checks before it panics, and so does a reveal; in a build that does not, the capacity
  is one, and both fail with \<open>TreeFull\<close> as soon as there is a leaf. So over every sequence of messages from a new contract
  no deposit and no reveal goes through in a checked build, and in an unchecked one at most one of them all, until the
  index of 32 bits has run through.
\<close>

theorem ink_capacity_check_overflows:
  "(overflow_checks h \<or> get_next_leaf_index s \<noteq> 0 \<longrightarrow>
      deposit h env cm s =
        (if is_paused s then Err PoolPaused else if transferred_value env = 0 then Err ZeroAmount
         else if leaves s cm \<noteq> None then Err DuplicateCommitment else capacity_fails h) \<and>
      (pending_commits s ch = Some rc \<and> depositor rc = caller env \<and> \<not> revealed rc \<and>
         2 \<le> block_number env - commit_block rc \<and> block_number env - commit_block rc \<le> 100 \<and> leaves s cm = None \<longrightarrow>
       reveal_deposit h env ch cm s = capacity_fails h)) \<and>
   (let done_calls = committed (dispatch h) (new env0 d) cs
    in (overflow_checks h \<longrightarrow> filter is_entry done_calls = []) \<and>
       (length (concat (map leaves_of done_calls)) < 2 ^ 32 \<longrightarrow> length (filter is_entry done_calls) \<le> 1))"
proof -
  have "deposit h env cm s =
      (if is_paused s then Err PoolPaused else if transferred_value env = 0 then Err ZeroAmount
       else if leaves s cm \<noteq> None then Err DuplicateCommitment else capacity_fails h)"
    if "overflow_checks h \<or> get_next_leaf_index s \<noteq> 0"
    using that by (auto simp: deposit_def is_paused_def capacity_fails_def get_next_leaf_index_def capacity_value ensure_def Let_def)
  moreover have "reveal_deposit h env ch cm s = capacity_fails h"
    if "overflow_checks h \<or> get_next_leaf_index s \<noteq> 0"
      and "pending_commits s ch = Some rc" "depositor rc = caller env" "\<not> revealed rc" "2 \<le> block_number env - commit_block rc"
        "block_number env - commit_block rc \<le> 100" "leaves s cm = None"
    using that by (auto simp: reveal_deposit_def capacity_fails_def get_next_leaf_index_def capacity_value ensure_def
        of_option_def saturating_sub_def MIN_COMMIT_DELAY_def MAX_COMMIT_DELAY_def Let_def)
  ultimately show ?thesis
    using entries_checked [of h "new env0 d" cs] entries_at_most_one [OF ink_new_tree, of h env0 d cs]
    by (simp add: Let_def)
qed

text \<open>A commit marked revealed stays so.\<close>

lemma revealed_stays:
  assumes "dispatch h s call = Ok s'" and "pending_commits s ch = Some rc" "revealed rc"
  shows "\<exists>rc'. pending_commits s' ch = Some rc' \<and> revealed rc'"
proof -
  obtain env msg where call: "call = (env, msg)" by (cases call)
  show ?thesis
    using assms by (cases msg) (auto simp: call drop_value_Ok same_pool_def two_outputs_frame elim!: ink_deposit_OkE
        ink_reveal_OkE ink_transfer_OkE ink_withdraw_OkE ink_commit_OkE ink_reclaim_OkE dest!: ink_governance_OkE)
qed

text \<open>
  C25: reclaiming an expired commit returns nothing and closes it for good: balance and payments are
  unchanged, and after any further messages neither a reveal nor a reclaim nor a new commit under
  the same hash goes through.
\<close>

theorem ink_reclaimed_commit_is_dead:
  assumes "reclaim_expired_commit env ch s = Ok (u, s1)"
  shows "let t = run (dispatch h) s1 cs
         in get_pool_balance s1 = get_pool_balance s \<and> payments s1 = payments s \<and>
            \<not> is_Ok (reveal_deposit h env' ch cm t) \<and> \<not> is_Ok (reclaim_expired_commit env' ch t) \<and>
            \<not> is_Ok (commit_deposit h env' ch t)"
proof -
  let ?I = "\<lambda>s. \<exists>rc. pending_commits s ch = Some rc \<and> revealed rc"
  from assms obtain rc where s1: "s1 = s\<lparr>pending_commits := (pending_commits s)(ch \<mapsto> rc\<lparr>revealed := True\<rparr>)\<rparr>"
    by (elim ink_reclaim_OkE)
  have "?I (run (dispatch h) s1 cs)"
    by (rule run_invariant [where I = ?I]) (use revealed_stays in \<open>auto simp: s1\<close>)
  then show ?thesis
    by (auto simp: Let_def s1 get_pool_balance_def is_Ok_iff elim!: ink_reveal_OkE ink_reclaim_OkE ink_commit_OkE)
qed

text \<open>
  C27: a fresh ink! pool accepts the zero root, and the envelope of a withdrawal can be computed by anyone: as
  soon as somebody has committed funds, any caller can withdraw all of them to any account with
  nullifiers of their own choice, although the tree holds no note at all.
\<close>

theorem ink_committed_funds_drained:
  assumes "commit_deposit h env1 ch (new env0 d) = Ok (u, s1)" and "v \<le> get_pool_balance s1"
    and "fst nuls \<noteq> snd nuls" "fst nuls \<noteq> 0" "snd nuls \<noteq> 0"
    and "fst outs \<noteq> snd outs" "fst outs \<noteq> 0" "snd outs \<noteq> 0"
    and "length body = 160" "list_ex (\<lambda>b. b \<noteq> 0) body" and "transfer_succeeds env2"
  shows "let inputs = h256_bytes (fst nuls) @ h256_bytes (snd nuls) @ h256_bytes (fst outs) @ h256_bytes (snd outs);
             pr = h256_bytes (keccak256 h (as_bytes ''Halo2-IPA-bind'' @ inputs @ body)) @ body
         in \<exists>s2. withdraw h env2 pr 0 nuls outs to v s1 = Ok ((), s2) \<and> payments s2 = [(to, v)] \<and>
              get_pool_balance s2 = get_pool_balance s1 - v"
proof -
  let ?inputs = "h256_bytes (fst nuls) @ h256_bytes (snd nuls) @ h256_bytes (fst outs) @ h256_bytes (snd outs)"
  let ?pr = "h256_bytes (keccak256 h (as_bytes ''Halo2-IPA-bind'' @ ?inputs @ body)) @ body"
  from assms(1) have s1: "\<not> paused s1" "current_root s1 = 0" "nullifiers s1 = Map.empty" "leaves s1 = Map.empty"
    "next_leaf_index s1 = 0" "payments s1 = []"
    by (auto elim!: ink_commit_OkE simp: new_def ZERO_VALUE_def)
  have verify: "verify_proof_structure h ?pr nuls outs = Ok ()"
    using assms(3-10) by (auto simp: verify_proof_structure_def list_all_iff list_ex_iff)
  obtain a where a: "insert_output h (fst outs) (mark_spent nuls s1) = Ok a" and a_facts:
    "leaves a = [fst outs \<mapsto> 0]" "next_leaf_index a = 1" "pool_balance a = pool_balance s1" "payments a = []"
    using s1 by (auto simp: insert_output_Ok mark_spent_def add_mode_iffs)
  obtain b where b: "insert_output h (snd outs) a = Ok b" "pool_balance b = pool_balance s1" "payments b = []"
    using a_facts assms(6) by (auto simp: insert_output_Ok add_mode_iffs)
  show ?thesis
    using s1 verify a b assms(2,7,8,11)
    by (simp add: withdraw_def is_known_root_def check_unspent_def insert_change_def ensure_def usub_def Let_def
        get_pool_balance_def)
qed

section \<open>Sample inputs\<close>

definition sample_host :: Host where
  "sample_host = \<lparr>keccak256 = (\<lambda>_. 0), overflow_checks = True\<rparr>"

definition sample_env :: Env where
  "sample_env = \<lparr>caller = 9, block_number = 1, transferred_value = 50, transfer_succeeds = True\<rparr>"

definition late_env :: Env where
  "late_env = \<lparr>caller = 8, block_number = 200, transferred_value = 0, transfer_succeeds = True\<rparr>"

definition sample_transfer :: call where
  "sample_transfer = (sample_env, Transfer (replicate 32 0 @ replicate 160 1) 0 (1, 2) (3, 4))"

lemma sample_transfer_ok: "is_Ok (dispatch sample_host (new sample_env 10) sample_transfer)"
proof -
  have "verify_proof_structure sample_host (replicate 32 0 @ replicate 160 1) (1, 2) (3, 4) = Ok ()"
    by (simp add: verify_proof_structure_def sample_host_def h256_bytes_0 list_all_iff)
  moreover have "\<not> paused (new sample_env 10)" "is_known_root 0 (new sample_env 10)"
    "check_unspent (1, 2) (new sample_env 10) = Ok ()"
    by (simp_all add: new_def is_known_root_def ZERO_VALUE_def check_unspent_def ensure_def)
  moreover obtain a where a: "insert_output sample_host 3 (mark_spent (1, 2) (new sample_env 10)) = Ok a"
    "leaves a = [3 \<mapsto> 0]" "next_leaf_index a = 1"
    by (auto simp: insert_output_Ok mark_spent_def add_mode_iffs new_def)
  moreover from a obtain b where "insert_output sample_host 4 a = Ok b"
    by (auto simp: insert_output_Ok add_mode_iffs)
  ultimately show ?thesis
    by (simp add: sample_transfer_def transfer_def drop_value_def ensure_def is_Ok_def Let_def)
qed

theorem ink_tree_refines_reference_witness:
  "let s = run (dispatch sample_host) (new sample_env 10) [sample_transfer]
   in get_next_leaf_index s = 2 \<and> leaves s 4 = Some 1 \<and>
      get_current_root s = sparse_root (hash_pair sample_host) 0 TREE_DEPTH [3, 4]"
proof -
  have c: "committed (dispatch sample_host) (new sample_env 10) [sample_transfer] = [sample_transfer]"
    using sample_transfer_ok by simp
  have l: "leaves_of sample_transfer = [3, 4]" by (simp add: sample_transfer_def)
  show ?thesis
    using ink_tree_refines_reference [of sample_host sample_env 10 "[sample_transfer]" 4 1]
    unfolding c by (simp add: l Let_def)
qed

definition sample_commit :: call where
  "sample_commit = (sample_env, CommitDeposit 5)"

definition committed_pool :: PrivacyPool where
  "committed_pool = emit_event (DepositCommitted 9 5) ((new sample_env 10)\<lparr>pool_balance := 50,
     pending_commits := [5 \<mapsto> \<lparr>depositor = 9, commit_block = 1, revealed = False\<rparr>]\<rparr>)"

lemma sample_commit_ok: "commit_deposit sample_host sample_env 5 (new sample_env 10) = Ok ((), committed_pool)"
  by (simp add: commit_deposit_def new_def sample_env_def sample_host_def add_mode_def ensure_def committed_pool_def)

theorem ink_value_conserved_witness:
  "overflow_checks sample_host \<and>
   get_pool_balance (run (dispatch sample_host) (new sample_env 10) [sample_commit]) +
     paid (run (dispatch sample_host) (new sample_env 10) [sample_commit]) = 50"
  using ink_value_conserved [of sample_host sample_env 10 "[sample_commit]"] sample_commit_ok
  by (simp add: sample_commit_def sample_host_def drop_value_def is_Ok_def sample_env_def)

theorem ink_reclaimed_commit_is_dead_witness:
  "\<exists>s1. reclaim_expired_commit late_env 5 committed_pool = Ok ((), s1) \<and> get_pool_balance s1 = 50 \<and>
     \<not> is_Ok (reveal_deposit sample_host sample_env 5 6 s1)"
proof -
  obtain s1 where s1: "reclaim_expired_commit late_env 5 committed_pool = Ok ((), s1)"
    by (simp add: reclaim_expired_commit_def committed_pool_def late_env_def of_option_def ensure_def
        saturating_sub_def MAX_COMMIT_DELAY_def)
  with ink_reclaimed_commit_is_dead [OF s1, of sample_host "[]" sample_env 6] show ?thesis
    by (auto simp: Let_def get_pool_balance_def committed_pool_def)
qed

theorem ink_capacity_check_overflows_witness:
  "deposit sample_host sample_env 7 (new sample_env 10) = Panic \<and>
   deposit (sample_host\<lparr>overflow_checks := False\<rparr>) sample_env 7 ((new sample_env 10)\<lparr>next_leaf_index := 1\<rparr>) = Err TreeFull"
  using ink_capacity_check_overflows [of sample_host "new sample_env 10" sample_env 7]
    ink_capacity_check_overflows [of "sample_host\<lparr>overflow_checks := False\<rparr>" "(new sample_env 10)\<lparr>next_leaf_index := 1\<rparr>" sample_env 7]
  by (simp add: sample_host_def sample_env_def new_def is_paused_def get_next_leaf_index_def capacity_fails_def)

theorem ink_committed_funds_drained_witness:
  "\<exists>pr s2. withdraw sample_host late_env pr 0 (1, 2) (3, 4) 8 50 committed_pool = Ok ((), s2) \<and>
     payments s2 = [(8, 50)]"
  using ink_committed_funds_drained [OF sample_commit_ok, of 50 "(1, 2)" "(3, 4)" "replicate 160 1" late_env 8]
  by (fastforce simp: committed_pool_def get_pool_balance_def late_env_def list_ex_iff Let_def)

end
