(* ===== verification/Relayer_Adapters.thy ===== *)
theory Relayer_Adapters
  imports Codec
begin

text \<open>
  The bridge adapters of the relayer (\<open>relayer/src/config.rs\<close>, \<open>relayer/src/adapters\<close>). The
  Ethereum client library is a parameter: parsing of URLs, keys and addresses, and what happens
  to a transaction, as a function of the transactions sent before it. The transactions handed to the
  library are kept as a list. An interface says what the relay engine relies on; all four adapters
  are shown to provide it.
\<close>

section \<open>Configuration\<close>

record ChainWatchConfig =
  chain_id :: nat
  name :: string
  ws_rpc_url :: string
  http_rpc_url :: string
  epoch_manager_address :: string
  privacy_pool_address :: string
  bridge_adapter_address :: "string option"
  signer_key :: string
  poll_interval_secs :: nat
  confirmation_blocks :: nat

record RegistryConfig =
  registry_chain_id :: nat
  address :: string
  rpc_url :: string
  registry_signer_key :: string

record MetadataResistanceConfig =
  jitter_enabled :: bool
  max_jitter_ms :: nat
  batching_enabled :: bool
  batch_size :: nat
  batch_timeout_ms :: nat
  dummy_padding_enabled :: bool
  target_messages_per_minute :: nat

record RelayerConfig =
  chains :: "ChainWatchConfig list"
  registry :: RegistryConfig
  metadata_resistance :: MetadataResistanceConfig
  metrics_port :: nat

definition default_metadata_resistance :: MetadataResistanceConfig where
  "default_metadata_resistance = \<lparr>jitter_enabled = True, max_jitter_ms = 5000, batching_enabled = True,
     batch_size = 10, batch_timeout_ms = 30000, dummy_padding_enabled = False, target_messages_per_minute = 0\<rparr>"

definition default_config :: RelayerConfig where
  "default_config = \<lparr>chains = [],
     registry = \<lparr>registry_chain_id = 43113, address = [], rpc_url = [], registry_signer_key = []\<rparr>,
     metadata_resistance = default_metadata_resistance, metrics_port = 9090\<rparr>"

section \<open>Messages, errors, transactions\<close>

datatype AdapterError = Rpc string | Signing string | Bridge string | UnsupportedChain nat

fun show_adapter_error :: "AdapterError \<Rightarrow> string" where
  "show_adapter_error (Rpc msg) = ''RPC error: '' @ msg"
| "show_adapter_error (Signing msg) = ''signing error: '' @ msg"
| "show_adapter_error (Bridge msg) = ''bridge error: '' @ msg"
| "show_adapter_error (UnsupportedChain n) = ''unsupported chain: '' @ dec n"

record EpochRootMessage =
  source_chain_id :: nat
  epoch_id :: nat
  nullifier_root :: h256
  nullifier_count :: nat

record Tx =
  tx_rpc :: string
  tx_to :: "u8 list"
  tx_data :: "u8 list"
  tx_gas :: "nat option"
  tx_value :: nat

text \<open>What the client library reports: an error on sending, an error while waiting, no receipt, or a
  receipt with its hash and, if present, its status.\<close>

datatype Reply = SendFailed string | WaitFailed string | NoReceipt | Receipt "u8 list" "nat option"

record Evm =
  try_provider :: "string \<Rightarrow> string option"
  parse_wallet :: "string \<Rightarrow> string option"
  parse_address :: "string \<Rightarrow> u8 list option"
  reply :: "Tx list \<Rightarrow> Tx \<Rightarrow> Reply"

type_synonym ('e, 'a) effect = "Tx list \<Rightarrow> ('e, 'a) result \<times> Tx list"

definition debug_hash :: "u8 list \<Rightarrow> string" where
  "debug_hash hash = ''0x'' @ lower_hex hash"

text \<open>The common body of the four submission functions; \<open>bad\<close> is the text for an unparsable address.\<close>

definition submit_tx ::
  "Evm \<Rightarrow> string \<Rightarrow> nat \<Rightarrow> string \<Rightarrow> string \<Rightarrow> string \<Rightarrow> u8 list \<Rightarrow> (AdapterError, string) effect" where
  "submit_tx evm bad gas rpc key to calldata sent =
     (case try_provider evm rpc of Some e \<Rightarrow> (Err (Rpc e), sent)
      | None \<Rightarrow> (case parse_wallet evm key of Some e \<Rightarrow> (Err (Signing e), sent)
      | None \<Rightarrow> (case parse_address evm to of None \<Rightarrow> (Err (Bridge (bad @ to)), sent)
      | Some to_addr \<Rightarrow>
          let tx = \<lparr>tx_rpc = rpc, tx_to = to_addr, tx_data = calldata, tx_gas = Some gas, tx_value = 0\<rparr>
          in (case reply evm sent tx of
                SendFailed e \<Rightarrow> (Err (Rpc e), sent @ [tx])
              | WaitFailed e \<Rightarrow> (Err (Rpc e), sent @ [tx])
              | NoReceipt \<Rightarrow> (Err (Rpc ''no receipt''), sent @ [tx])
              | Receipt hash status \<Rightarrow> (Ok (debug_hash hash), sent @ [tx])))))"

text \<open>A \<open>u64\<close> in the last eight bytes of a 32-byte word.\<close>

definition u64_word :: "nat \<Rightarrow> u8 list" where
  "u64_word n = replicate 24 0 @ be_bytes 8 n"

section \<open>Avalanche Warp Messaging\<close>

definition AVALANCHE_MAINNET :: nat where "AVALANCHE_MAINNET = 43114"

definition AVALANCHE_FUJI :: nat where "AVALANCHE_FUJI = 43113"

definition is_avalanche :: "nat \<Rightarrow> bool" where
  "is_avalanche n \<longleftrightarrow> n = AVALANCHE_MAINNET \<or> n = AVALANCHE_FUJI"

definition awm_selector :: "u8 list" where "awm_selector = [0x46, 0x4b, 0xe0, 0xfa]"

definition encode_receive_remote_root :: "nat \<Rightarrow> nat \<Rightarrow> h256 \<Rightarrow> u8 list" where
  "encode_receive_remote_root src epoch root =
     awm_selector @ u64_word src @ u64_word epoch @ h256_bytes root"

definition send_evm_transaction :: "Evm \<Rightarrow> string \<Rightarrow> string \<Rightarrow> string \<Rightarrow> u8 list \<Rightarrow> (AdapterError, string) effect" where
  "send_evm_transaction evm = submit_tx evm ''invalid address: '' 300000"

definition awm_send_epoch_root :: "Evm \<Rightarrow> ChainWatchConfig \<Rightarrow> EpochRootMessage \<Rightarrow> (AdapterError, string) effect" where
  "awm_send_epoch_root evm target m sent =
     (if \<not> is_avalanche (chain_id target) then (Err (UnsupportedChain (chain_id target)), sent)
      else case bridge_adapter_address target of
        None \<Rightarrow> (Err (Bridge ''no bridge adapter address configured''), sent)
      | Some bridge_addr \<Rightarrow>
          let calldata = encode_receive_remote_root (source_chain_id m) (epoch_id m) (nullifier_root m)
          in send_evm_transaction evm (http_rpc_url target) (signer_key target) bridge_addr calldata sent)"

definition awm_estimate_fee :: "ChainWatchConfig \<Rightarrow> (AdapterError, nat) result" where
  "awm_estimate_fee target = Ok 0"

section \<open>IBC\<close>

definition EVMOS_MAINNET :: nat where "EVMOS_MAINNET = 9001"

definition EVMOS_TESTNET :: nat where "EVMOS_TESTNET = 9000"

definition is_cosmos_chain :: "nat \<Rightarrow> bool" where
  "is_cosmos_chain n \<longleftrightarrow> n = EVMOS_MAINNET \<or> n = EVMOS_TESTNET"

definition ibc_selector :: "u8 list" where "ibc_selector = [0x8c, 0x87, 0xcb, 0xe6]"

definition encode_ibc_send_packet :: "nat \<Rightarrow> nat \<Rightarrow> h256 \<Rightarrow> u8 list" where
  "encode_ibc_send_packet src epoch root = ibc_selector @ u64_word src @ u64_word epoch @ h256_bytes root"

definition send_ibc_transaction :: "Evm \<Rightarrow> string \<Rightarrow> string \<Rightarrow> string \<Rightarrow> u8 list \<Rightarrow> (AdapterError, string) effect" where
  "send_ibc_transaction evm = submit_tx evm ''invalid address: '' 400000"

definition ibc_send_epoch_root :: "Evm \<Rightarrow> ChainWatchConfig \<Rightarrow> EpochRootMessage \<Rightarrow> (AdapterError, string) effect" where
  "ibc_send_epoch_root evm target m sent =
     (if \<not> is_cosmos_chain (chain_id target) then (Err (UnsupportedChain (chain_id target)), sent)
      else case bridge_adapter_address target of
        None \<Rightarrow> (Err (Bridge ''no IBC gateway address configured''), sent)
      | Some bridge_addr \<Rightarrow>
          let calldata = encode_ibc_send_packet (source_chain_id m) (epoch_id m) (nullifier_root m)
          in send_ibc_transaction evm (http_rpc_url target) (signer_key target) bridge_addr calldata sent)"

definition ibc_estimate_fee :: "ChainWatchConfig \<Rightarrow> (AdapterError, nat) result" where
  "ibc_estimate_fee target = Ok 1000000000000000"

section \<open>Rainbow Bridge\<close>

definition AURORA_MAINNET :: nat where "AURORA_MAINNET = 1313161554"

definition AURORA_TESTNET :: nat where "AURORA_TESTNET = 1313161555"

definition is_aurora :: "nat \<Rightarrow> bool" where
  "is_aurora n \<longleftrightarrow> n = AURORA_MAINNET \<or> n = AURORA_TESTNET"

definition rainbow_selector :: "u8 list" where "rainbow_selector = [0xf2, 0x86, 0xb6, 0xad]"

definition encode_rainbow_send :: "nat \<Rightarrow> nat \<Rightarrow> h256 \<Rightarrow> u8 list" where
  "encode_rainbow_send src epoch root = rainbow_selector @ u64_word src @ u64_word epoch @ h256_bytes root"

definition send_rainbow_transaction :: "Evm \<Rightarrow> string \<Rightarrow> string \<Rightarrow> string \<Rightarrow> u8 list \<Rightarrow> (AdapterError, string) effect" where
  "send_rainbow_transaction evm = submit_tx evm ''invalid address: '' 350000"

definition rainbow_send_epoch_root :: "Evm \<Rightarrow> ChainWatchConfig \<Rightarrow> EpochRootMessage \<Rightarrow> (AdapterError, string) effect" where
  "rainbow_send_epoch_root evm target m sent =
     (if \<not> is_aurora (chain_id target) then (Err (UnsupportedChain (chain_id target)), sent)
      else case bridge_adapter_address target of
        None \<Rightarrow> (Err (Bridge ''no Rainbow Bridge connector address configured''), sent)
      | Some bridge_addr \<Rightarrow>
          let calldata = encode_rainbow_send (source_chain_id m) (epoch_id m) (nullifier_root m)
          in send_rainbow_transaction evm (http_rpc_url target) (signer_key target) bridge_addr calldata sent)"

definition rainbow_estimate_fee :: "ChainWatchConfig \<Rightarrow> (AdapterError, nat) result" where
  "rainbow_estimate_fee target = Ok 10000000000000000"

section \<open>XCM\<close>

definition MOONBEAM_MAINNET :: nat where "MOONBEAM_MAINNET = 1284"

definition MOONBASE_ALPHA :: nat where "MOONBASE_ALPHA = 1287"

definition ASTAR_MAINNET :: nat where "ASTAR_MAINNET = 592"

definition ASTAR_SHIBUYA :: nat where "ASTAR_SHIBUYA = 81"

definition XCM_PRECOMPILE :: string where
  "XCM_PRECOMPILE = ''0x0000000000000000000000000000000000000805''"

definition is_polkadot_parachain :: "nat \<Rightarrow> bool" where
  "is_polkadot_parachain n \<longleftrightarrow>
     n = MOONBEAM_MAINNET \<or> n = MOONBASE_ALPHA \<or> n = ASTAR_MAINNET \<or> n = ASTAR_SHIBUYA"

definition xcm_selector :: "u8 list" where "xcm_selector = [0x62, 0x7d, 0x6f, 0xf6]"

definition encode_xcm_transact :: "nat \<Rightarrow> nat \<Rightarrow> h256 \<Rightarrow> u8 list" where
  "encode_xcm_transact src epoch root = xcm_selector @ u64_word src @ u64_word epoch @ h256_bytes root"

definition send_xcm_transaction :: "Evm \<Rightarrow> string \<Rightarrow> string \<Rightarrow> string \<Rightarrow> u8 list \<Rightarrow> (AdapterError, string) effect" where
  "send_xcm_transaction evm = submit_tx evm ''invalid precompile address: '' 500000"

definition xcm_send_epoch_root :: "Evm \<Rightarrow> ChainWatchConfig \<Rightarrow> EpochRootMessage \<Rightarrow> (AdapterError, string) effect" where
  "xcm_send_epoch_root evm target m sent =
     (if \<not> is_polkadot_parachain (chain_id target) then (Err (UnsupportedChain (chain_id target)), sent)
      else
        let calldata = encode_xcm_transact (source_chain_id m) (epoch_id m) (nullifier_root m)
        in send_xcm_transaction evm (http_rpc_url target) (signer_key target) XCM_PRECOMPILE calldata sent)"

definition xcm_estimate_fee :: "ChainWatchConfig \<Rightarrow> (AdapterError, nat) result" where
  "xcm_estimate_fee target = Ok 10000000000000000"

section \<open>The adapter trait\<close>

datatype Adapter = Awm | Xcm | Ibc | Rainbow

fun protocol_name :: "Adapter \<Rightarrow> string" where
  "protocol_name Awm = ''Avalanche Warp Messaging''"
| "protocol_name Xcm = ''XCM''"
| "protocol_name Ibc = ''IBC''"
| "protocol_name Rainbow = ''Rainbow Bridge''"

fun supports_chain :: "Adapter \<Rightarrow> nat \<Rightarrow> bool" where
  "supports_chain Awm n = is_avalanche n"
| "supports_chain Xcm n = is_polkadot_parachain n"
| "supports_chain Ibc n = is_cosmos_chain n"
| "supports_chain Rainbow n = is_aurora n"

fun send_epoch_root :: "Adapter \<Rightarrow> Evm \<Rightarrow> ChainWatchConfig \<Rightarrow> EpochRootMessage \<Rightarrow> (AdapterError, string) effect" where
  "send_epoch_root Awm evm target m = awm_send_epoch_root evm target m"
| "send_epoch_root Xcm evm target m = xcm_send_epoch_root evm target m"
| "send_epoch_root Ibc evm target m = ibc_send_epoch_root evm target m"
| "send_epoch_root Rainbow evm target m = rainbow_send_epoch_root evm target m"

fun estimate_fee :: "Adapter \<Rightarrow> ChainWatchConfig \<Rightarrow> (AdapterError, nat) result" where
  "estimate_fee Awm target = awm_estimate_fee target"
| "estimate_fee Xcm target = xcm_estimate_fee target"
| "estimate_fee Ibc target = ibc_estimate_fee target"
| "estimate_fee Rainbow target = rainbow_estimate_fee target"

section \<open>Reading a call back\<close>

text \<open>The arguments of a call with signature \<open>(uint256,uint256,bytes32)\<close>, as the receiving contract reads them.\<close>

definition decode_root_call :: "u8 list \<Rightarrow> (u8 list \<times> nat \<times> nat \<times> nat) option" where
  "decode_root_call bs =
     (if length bs = 100
      then Some (take 4 bs, from_be_bytes (take 32 (drop 4 bs)), from_be_bytes (take 32 (drop 36 bs)),
                 from_be_bytes (drop 68 bs))
      else None)"

lemma length_u64_word [simp, bytes_simps]: "length (u64_word n) = 32"
  by (simp add: u64_word_def)

lemma from_be_bytes_zeros: "from_be_bytes (replicate k 0 @ bs) = from_be_bytes bs"
proof -
  have "from_be_bytes (replicate k 0) = 0"
    using from_be_be_bytes [of k 0] by (simp add: be_bytes_0)
  then show ?thesis by (induction bs rule: rev_induct) (simp_all flip: append_assoc)
qed

lemma from_be_u64_word: "n < 2 ^ 64 \<Longrightarrow> from_be_bytes (u64_word n) = n"
  by (simp add: u64_word_def from_be_bytes_zeros from_be_be_bytes)

lemma decode_root_call_encoded:
  assumes "length sel = 4" "src < 2 ^ 64" "epoch < 2 ^ 64"
  shows "decode_root_call (sel @ u64_word src @ u64_word epoch @ h256_bytes root) = Some (sel, src, epoch, unat root)"
  using assms by (simp add: decode_root_call_def from_be_u64_word)

fun selector_of :: "Adapter \<Rightarrow> u8 list" where
  "selector_of Awm = awm_selector"
| "selector_of Xcm = xcm_selector"
| "selector_of Ibc = ibc_selector"
| "selector_of Rainbow = rainbow_selector"

definition calldata_of :: "Adapter \<Rightarrow> EpochRootMessage \<Rightarrow> u8 list" where
  "calldata_of a m = selector_of a @ u64_word (source_chain_id m) @ u64_word (epoch_id m) @ h256_bytes (nullifier_root m)"

section \<open>The interface of an adapter\<close>

locale bridge_adapter =
  fixes supports :: "nat \<Rightarrow> bool"
    and send :: "Evm \<Rightarrow> ChainWatchConfig \<Rightarrow> EpochRootMessage \<Rightarrow> (AdapterError, string) effect"
    and calldata :: "EpochRootMessage \<Rightarrow> u8 list"
    and sel :: "u8 list"
  assumes send_unsupported: "\<not> supports (chain_id t) \<Longrightarrow> send evm t m sent = (Err (UnsupportedChain (chain_id t)), sent)"
    and send_total: "fst (send evm t m sent) \<noteq> Panic"
    and send_at_most_one: "snd (send evm t m sent) = sent \<or>
      (\<exists>tx. snd (send evm t m sent) = sent @ [tx] \<and> tx_data tx = calldata m \<and> tx_rpc tx = http_rpc_url t)"
    and send_ok_sent: "is_Ok (fst (send evm t m sent)) \<Longrightarrow> snd (send evm t m sent) \<noteq> sent"
    and calldata_faithful: "source_chain_id m < 2 ^ 64 \<Longrightarrow> epoch_id m < 2 ^ 64 \<Longrightarrow>
      decode_root_call (calldata m) = Some (sel, source_chain_id m, epoch_id m, unat (nullifier_root m))"
begin

lemma calldata_binds:
  assumes "calldata m = calldata m'" "source_chain_id m < 2 ^ 64" "epoch_id m < 2 ^ 64"
    "source_chain_id m' < 2 ^ 64" "epoch_id m' < 2 ^ 64"
  shows "source_chain_id m = source_chain_id m' \<and> epoch_id m = epoch_id m' \<and> nullifier_root m = nullifier_root m'"
  using calldata_faithful [of m] calldata_faithful [of m'] assms by (simp add: word_unat_eq_iff)

lemma ok_supported: "is_Ok (fst (send evm t m sent)) \<Longrightarrow> supports (chain_id t)"
  using send_unsupported [of t evm m sent] by (cases "supports (chain_id t)") (auto simp: is_Ok_def)

end

lemma submit_tx_effect:
  "fst (submit_tx evm bad gas rpc key to data sent) \<noteq> Panic"
  "snd (submit_tx evm bad gas rpc key to data sent) = sent \<or>
     (\<exists>tx. snd (submit_tx evm bad gas rpc key to data sent) = sent @ [tx] \<and> tx_data tx = data \<and> tx_rpc tx = rpc)"
  "is_Ok (fst (submit_tx evm bad gas rpc key to data sent)) \<Longrightarrow> snd (submit_tx evm bad gas rpc key to data sent) \<noteq> sent"
  by (auto simp: submit_tx_def Let_def is_Ok_def split: option.splits Reply.splits)

lemmas send_defs =
  awm_send_epoch_root_def send_evm_transaction_def encode_receive_remote_root_def
  xcm_send_epoch_root_def send_xcm_transaction_def encode_xcm_transact_def
  ibc_send_epoch_root_def send_ibc_transaction_def encode_ibc_send_packet_def
  rainbow_send_epoch_root_def send_rainbow_transaction_def encode_rainbow_send_def

lemma send_cases:
  "(\<exists>e. \<forall>sent. send_epoch_root a evm t m sent = (Err e, sent)) \<or>
   supports_chain a (chain_id t) \<and>
     (\<exists>bad gas to. send_epoch_root a evm t m = submit_tx evm bad gas (http_rpc_url t) (signer_key t) to (calldata_of a m))"
  by (cases a; cases "bridge_adapter_address t")
    (auto simp: send_defs calldata_of_def fun_eq_iff Let_def)

interpretation adapter: bridge_adapter "supports_chain a" "send_epoch_root a" "calldata_of a" "selector_of a" for a
proof
  fix t evm m sent
  show "\<not> supports_chain a (chain_id t) \<Longrightarrow> send_epoch_root a evm t m sent = (Err (UnsupportedChain (chain_id t)), sent)"
    by (cases a) (auto simp: send_defs)
  show "fst (send_epoch_root a evm t m sent) \<noteq> Panic"
    using send_cases [of a evm t m] submit_tx_effect(1) by fastforce
  show "snd (send_epoch_root a evm t m sent) = sent \<or>
      (\<exists>tx. snd (send_epoch_root a evm t m sent) = sent @ [tx] \<and> tx_data tx = calldata_of a m \<and> tx_rpc tx = http_rpc_url t)"
    using send_cases [of a evm t m] submit_tx_effect(2) by fastforce
  show "is_Ok (fst (send_epoch_root a evm t m sent)) \<Longrightarrow> snd (send_epoch_root a evm t m sent) \<noteq> sent"
    using send_cases [of a evm t m] submit_tx_effect(3) by (fastforce simp: is_Ok_def)
  have "length (selector_of a) = 4"
    by (cases a) (simp_all add: awm_selector_def xcm_selector_def ibc_selector_def rainbow_selector_def)
  then show "source_chain_id m < 2 ^ 64 \<Longrightarrow> epoch_id m < 2 ^ 64 \<Longrightarrow> decode_root_call (calldata_of a m) =
      Some (selector_of a, source_chain_id m, epoch_id m, unat (nullifier_root m))"
    unfolding calldata_of_def by (rule decode_root_call_encoded)
qed

text \<open>Every chain is served by at most one adapter, and the four selectors differ.\<close>

lemma adapters_disjoint: "supports_chain a n \<Longrightarrow> supports_chain b n \<Longrightarrow> a = b"
  by (cases a; cases b) (auto simp: is_avalanche_def is_polkadot_parachain_def is_cosmos_chain_def is_aurora_def
      AVALANCHE_MAINNET_def AVALANCHE_FUJI_def MOONBEAM_MAINNET_def MOONBASE_ALPHA_def ASTAR_MAINNET_def
      ASTAR_SHIBUYA_def EVMOS_MAINNET_def EVMOS_TESTNET_def AURORA_MAINNET_def AURORA_TESTNET_def)

lemma selector_inj: "selector_of a = selector_of b \<longleftrightarrow> a = b"
  by (cases a; cases b) (simp_all add: awm_selector_def xcm_selector_def ibc_selector_def rainbow_selector_def)

text \<open>
  C28: what goes out is what the message says: an adapter either sends nothing or exactly one transaction, to the
  RPC endpoint of the target, whose call data reads back as the adapter's selector and the source chain,
  epoch and root of the message; success is reported only if a transaction was sent and the
  chain is one the adapter serves.
\<close>

theorem adapter_sends_message:
  assumes "source_chain_id m < 2 ^ 64" and "epoch_id m < 2 ^ 64"
    and "send_epoch_root a evm t m sent = (r, sent')"
  shows "(sent' = sent \<and> \<not> is_Ok r) \<or>
    supports_chain a (chain_id t) \<and>
    (\<exists>tx. sent' = sent @ [tx] \<and> tx_rpc tx = http_rpc_url t \<and>
      decode_root_call (tx_data tx) = Some (selector_of a, source_chain_id m, epoch_id m, unat (nullifier_root m)))"
  using adapter.send_at_most_one [of a evm t m sent] adapter.send_ok_sent [of a evm t m sent]
    adapter.calldata_faithful [OF assms(1,2), of a] adapter.send_unsupported [of a t evm m sent] assms(3)
  by (cases "supports_chain a (chain_id t)") (auto simp: is_Ok_def)

definition sample_chain :: ChainWatchConfig where
  "sample_chain = \<lparr>chain_id = 43113, name = ''fuji'', ws_rpc_url = ''ws'', http_rpc_url = ''http'',
     epoch_manager_address = ''em'', privacy_pool_address = ''pp'', bridge_adapter_address = Some ''ba'',
     signer_key = ''k'', poll_interval_secs = 5, confirmation_blocks = 3\<rparr>"

definition sample_evm :: Evm where
  "sample_evm = \<lparr>try_provider = (\<lambda>_. None), parse_wallet = (\<lambda>_. None), parse_address = (\<lambda>_. Some (replicate 20 1)),
     reply = (\<lambda>sent _. if length sent < 2 then NoReceipt else Receipt [1] (Some 1))\<rparr>"

definition sample_message :: EpochRootMessage where
  "sample_message = \<lparr>source_chain_id = 1284, epoch_id = 7, nullifier_root = 9, nullifier_count = 2\<rparr>"

lemma sample_evm_simps [simp]:
  "try_provider sample_evm u = None" "parse_wallet sample_evm u = None" "parse_address sample_evm u = Some (replicate 20 1)"
  "reply sample_evm sent tx = (if length sent < 2 then NoReceipt else Receipt [1] (Some 1))"
  by (simp_all add: sample_evm_def)

theorem adapter_sends_message_witness:
  "\<exists>tx. snd (send_epoch_root Awm sample_evm sample_chain sample_message []) = [tx] \<and>
     decode_root_call (tx_data tx) = Some (awm_selector, 1284, 7, 9)"
proof -
  let ?s = "send_epoch_root Awm sample_evm sample_chain sample_message []"
  have sent: "length (snd ?s) = 1"
    by (simp add: send_defs sample_chain_def is_avalanche_def AVALANCHE_FUJI_def submit_tx_def Let_def)
  have "(snd ?s = [] \<and> \<not> is_Ok (fst ?s)) \<or> supports_chain Awm (chain_id sample_chain) \<and>
    (\<exists>tx. snd ?s = [] @ [tx] \<and> tx_rpc tx = http_rpc_url sample_chain \<and>
      decode_root_call (tx_data tx) = Some (selector_of Awm, source_chain_id sample_message, epoch_id sample_message,
        unat (nullifier_root sample_message)))"
    by (rule adapter_sends_message) (simp_all add: sample_message_def)
  with sent show ?thesis by (auto simp: sample_message_def)
qed

end
