(* ===== verification/Relayer_Core.thy ===== *)
theory Relayer_Core
  imports Relayer_Adapters
begin

text \<open>
  The relay engine (\<open>relayer/src/core/mod.rs\<close>): nonces, choice of the adapter, the retry loop with
  exponential backoff, batches. The sleeps of the loop are kept as a list of milliseconds.
\<close>

section \<open>Types\<close>

definition MAX_RETRIES :: nat where "MAX_RETRIES = 5"

definition BASE_BACKOFF_MS :: nat where "BASE_BACKOFF_MS = 1000"

datatype TxState =
    Pending | Submitted string | Confirmed string nat | Finalized string | Failed string

record RelayTask =
  target_chain_id :: nat
  message :: EpochRootMessage
  state :: TxState
  retries :: nat

type_synonym NonceManager = "nat \<rightharpoonup> nat"

section \<open>Nonces\<close>

definition next_nonce :: "NonceManager \<Rightarrow> nat \<Rightarrow> ('e, nat \<times> NonceManager) result" where
  "next_nonce nonces chain =
     (let n = get 0 nonces chain in
      bind_result (uadd 64 n 1) (\<lambda>n'. Ok (n, nonces(chain \<mapsto> n'))))"

definition set_nonce :: "NonceManager \<Rightarrow> nat \<Rightarrow> nat \<Rightarrow> NonceManager" where
  "set_nonce nonces chain nonce = nonces(chain \<mapsto> nonce)"

fun next_nonces :: "NonceManager \<Rightarrow> nat list \<Rightarrow> ('e, nat list \<times> NonceManager) result" where
  "next_nonces nonces [] = Ok ([], nonces)"
| "next_nonces nonces (c # cs) =
     bind_result (next_nonce nonces c) (\<lambda>(n, nonces).
     bind_result (next_nonces nonces cs) (\<lambda>(ns, nonces). Ok (n # ns, nonces)))"

section \<open>The engine\<close>

record RelayEngine =
  adapters :: "Adapter list"
  nonce_mgr :: NonceManager
  config :: RelayerConfig

definition new_engine :: "RelayerConfig \<Rightarrow> RelayEngine" where
  "new_engine cfg = \<lparr>adapters = [Awm, Xcm, Ibc, Rainbow], nonce_mgr = Map.empty, config = cfg\<rparr>"

definition adapter_for :: "RelayEngine \<Rightarrow> nat \<Rightarrow> Adapter option" where
  "adapter_for eng chain = find (\<lambda>a. supports_chain a chain) (adapters eng)"

definition chain_config :: "RelayEngine \<Rightarrow> nat \<Rightarrow> ChainWatchConfig option" where
  "chain_config eng chain = find (\<lambda>c. chain_id c = chain) (chains (config eng))"

definition umul :: "nat \<Rightarrow> nat \<Rightarrow> nat \<Rightarrow> ('e, nat) result" where
  "umul w a b = (if a * b < 2 ^ w then Ok (a * b) else Panic)"

definition saturating_pow :: "nat \<Rightarrow> nat \<Rightarrow> nat \<Rightarrow> nat" where
  "saturating_pow w a n = min (2 ^ w - 1) (a ^ n)"

type_synonym loop_result = "(string, string) result \<times> RelayTask \<times> Tx list \<times> nat list"

text \<open>After a failed attempt: give up, or sleep and try again.\<close>

function dispatch_loop :: "(AdapterError, string) effect \<Rightarrow> RelayTask \<Rightarrow> Tx list \<Rightarrow> nat list \<Rightarrow> loop_result" where
  "dispatch_loop send task sent slept =
     (let task = task\<lparr>state := Pending\<rparr> in
      case send sent of
        (Ok tx_hash, sent) \<Rightarrow> (Ok tx_hash, task\<lparr>state := Submitted tx_hash\<rparr>, sent, slept)
      | (Panic, sent) \<Rightarrow> (Panic, task, sent, slept)
      | (Err e, sent) \<Rightarrow>
          (case (uadd 32 (retries task) 1 :: (string, nat) result) of
             Ok n \<Rightarrow>
               let task = task\<lparr>retries := n\<rparr> in
               if n \<ge> MAX_RETRIES
               then let reason = ''max retries ('' @ dec MAX_RETRIES @ '') exceeded: '' @ show_adapter_error e
                    in (Err reason, task\<lparr>state := Failed reason\<rparr>, sent, slept)
               else (case (umul 64 BASE_BACKOFF_MS (saturating_pow 64 2 (n - 1)) :: (string, nat) result) of
                       Ok backoff \<Rightarrow> dispatch_loop send task sent (slept @ [backoff])
                     | _ \<Rightarrow> (Panic, task, sent, slept))
           | _ \<Rightarrow> (Panic, task, sent, slept)))"
  by pat_completeness auto

termination
  by (relation "measure (\<lambda>(_, task, _, _). MAX_RETRIES - retries task)") (auto simp: uadd_iffs)

declare dispatch_loop.simps [simp del]

definition dispatch :: "RelayEngine \<Rightarrow> Evm \<Rightarrow> RelayTask \<Rightarrow> Tx list \<Rightarrow> loop_result" where
  "dispatch eng evm task sent =
     (case adapter_for eng (target_chain_id task) of
        None \<Rightarrow> (Err (''no adapter for chain '' @ dec (target_chain_id task)), task, sent, [])
      | Some adapter \<Rightarrow>
          (case chain_config eng (target_chain_id task) of
             None \<Rightarrow> (Err (''chain '' @ dec (target_chain_id task) @ '' not in config''), task, sent, [])
           | Some chain_cfg \<Rightarrow>
               dispatch_loop (send_epoch_root adapter evm chain_cfg (message task)) task sent []))"

fun process_batch :: "RelayEngine \<Rightarrow> Evm \<Rightarrow> RelayTask list \<Rightarrow> Tx list \<Rightarrow> (string, string) result list \<times> RelayTask list \<times> Tx list" where
  "process_batch eng evm [] sent = ([], [], sent)"
| "process_batch eng evm (task # tasks) sent =
     (let (r, task', sent, slept) = dispatch eng evm task sent;
          (rs, tasks', sent) = process_batch eng evm tasks sent
      in (r # rs, task' # tasks', sent))"

definition build_task :: "nat \<Rightarrow> nat \<Rightarrow> nat \<Rightarrow> h256 \<Rightarrow> nat \<Rightarrow> RelayTask" where
  "build_task src target epoch root count =
     \<lparr>target_chain_id = target,
      message = \<lparr>source_chain_id = src, epoch_id = epoch, nullifier_root = root, nullifier_count = count\<rparr>,
      state = Pending, retries = 0\<rparr>"

definition backoff_duration :: "nat \<Rightarrow> ('e, nat) result" where
  "backoff_duration attempt = umul 64 BASE_BACKOFF_MS (saturating_pow 64 2 (min attempt 5))"

section \<open>The retry loop\<close>

lemma backoff_value:
  "n \<le> 5 \<Longrightarrow> umul 64 BASE_BACKOFF_MS (saturating_pow 64 2 n) = Ok (1000 * 2 ^ n)"
proof -
  assume n: "n \<le> 5"
  have "(2 :: nat) ^ n \<le> 2 ^ 5" using n by (intro power_increasing) auto
  then show ?thesis by (simp add: umul_def saturating_pow_def BASE_BACKOFF_MS_def min_def)
qed

lemma backoff_duration_bounded: "\<exists>ms\<le>32000. backoff_duration attempt = Ok ms"
proof -
  have "(2 :: nat) ^ min attempt 5 \<le> 2 ^ 5" by (intro power_increasing) auto
  then show ?thesis unfolding backoff_duration_def by (simp add: backoff_value)
qed

text \<open>One round of the loop, for a send that does not panic.\<close>

lemma dispatch_loop_step:
  assumes "fst (send sent) \<noteq> Panic" and "retries task < MAX_RETRIES"
  shows "dispatch_loop send task sent slept =
    (case fst (send sent) of
       Ok h \<Rightarrow> (Ok h, task\<lparr>state := Submitted h\<rparr>, snd (send sent), slept)
     | Err e \<Rightarrow>
         (let task' = task\<lparr>state := Pending, retries := Suc (retries task)\<rparr>;
              reason = ''max retries ('' @ dec MAX_RETRIES @ '') exceeded: '' @ show_adapter_error e in
          if Suc (retries task) = MAX_RETRIES then (Err reason, task'\<lparr>state := Failed reason\<rparr>, snd (send sent), slept)
          else dispatch_loop send task' (snd (send sent)) (slept @ [1000 * 2 ^ retries task])))"
proof -
  have "uadd 32 (retries task) 1 = (Ok (Suc (retries task)) :: (string, nat) result)"
    using assms(2) by (simp add: uadd_def MAX_RETRIES_def)
  moreover have "umul 64 BASE_BACKOFF_MS (saturating_pow 64 2 (retries task)) = (Ok (1000 * 2 ^ retries task) :: (string, nat) result)"
    using assms(2) by (intro backoff_value) (simp add: MAX_RETRIES_def)
  ultimately show ?thesis
    using assms by (subst dispatch_loop.simps) (auto simp: Let_def split: prod.splits result.splits)
qed

context bridge_adapter
begin

text \<open>What the loop did in the end.\<close>

definition loop_done :: "EpochRootMessage \<Rightarrow> RelayTask \<Rightarrow> Tx list \<Rightarrow> nat list \<Rightarrow> loop_result \<Rightarrow> bool" where
  "loop_done m task sent slept res \<longleftrightarrow>
     (case res of (r, task', sent', slept') \<Rightarrow>
        message task' = message task \<and> target_chain_id task' = target_chain_id task \<and> retries task \<le> retries task' \<and>
        (\<exists>txs. sent' = sent @ txs \<and> length txs \<le> MAX_RETRIES - retries task \<and> (\<forall>tx\<in>set txs. tx_data tx = calldata m)) \<and>
        slept' = slept @ map (\<lambda>i. 1000 * 2 ^ i) [retries task..<min 4 (retries task')] \<and>
        ((\<exists>h. r = Ok h \<and> state task' = Submitted h \<and> retries task' < MAX_RETRIES) \<or>
         (\<exists>reason. r = Err reason \<and> state task' = Failed reason \<and> retries task' = MAX_RETRIES)))"

lemma loop_done_retry:
  assumes "loop_done m (task\<lparr>state := Pending, retries := Suc (retries task)\<rparr>) sent'
      (slept @ [1000 * 2 ^ retries task]) res"
    and "sent' = sent \<or> (\<exists>tx. sent' = sent @ [tx] \<and> tx_data tx = calldata m)" and "Suc (retries task) < MAX_RETRIES"
  shows "loop_done m task sent slept res"
proof -
  obtain r task' s' sl where res: "res = (r, task', s', sl)" by (cases res) auto
  from assms(1) obtain txs where txs: "s' = sent' @ txs" "length txs \<le> MAX_RETRIES - Suc (retries task)"
    "\<forall>tx\<in>set txs. tx_data tx = calldata m" and le: "Suc (retries task) \<le> retries task'"
    and sl: "sl = slept @ [1000 * 2 ^ retries task] @ map (\<lambda>i. 1000 * 2 ^ i) [Suc (retries task)..<min 4 (retries task')]"
    by (auto simp: loop_done_def res)
  have "retries task < min 4 (retries task')" using assms(3) le by (simp add: MAX_RETRIES_def)
  then have "sl = slept @ map (\<lambda>i. 1000 * 2 ^ i) [retries task..<min 4 (retries task')]"
    using sl by (simp add: upt_conv_Cons)
  moreover have "\<exists>txs. s' = sent @ txs \<and> length txs \<le> MAX_RETRIES - retries task \<and> (\<forall>tx\<in>set txs. tx_data tx = calldata m)"
  proof -
    from assms(2) obtain pre where "sent' = sent @ pre" "length pre \<le> 1" "\<forall>tx\<in>set pre. tx_data tx = calldata m"
      by force
    with txs assms(3) show ?thesis by (intro exI [of _ "pre @ txs"]) auto
  qed
  ultimately show ?thesis using assms(1) le by (simp add: loop_done_def res)
qed

lemma loop_finishes:
  assumes "retries task < MAX_RETRIES"
  shows "loop_done m task sent slept (dispatch_loop (send evm t m) task sent slept)"
  using assms
proof (induction "MAX_RETRIES - retries task" arbitrary: task sent slept)
  case (Suc n)
  let ?s = "send evm t m sent"
  have one: "snd ?s = sent \<or> (\<exists>tx. snd ?s = sent @ [tx] \<and> tx_data tx = calldata m)"
    using send_at_most_one [of evm t m sent] by blast
  then have sent': "\<exists>txs. snd ?s = sent @ txs \<and> length txs \<le> MAX_RETRIES - retries task \<and> (\<forall>tx\<in>set txs. tx_data tx = calldata m)"
    using Suc.prems by force
  note step = dispatch_loop_step [where send = "send evm t m" and sent = sent and slept = slept, OF send_total Suc.prems]
  show ?case
  proof (cases "fst ?s")
    case (Ok h)
    with sent' Suc.prems show ?thesis unfolding step by (simp add: loop_done_def MAX_RETRIES_def)
  next
    case (Err e)
    show ?thesis
    proof (cases "Suc (retries task) = MAX_RETRIES")
      case True
      with Err sent' show ?thesis unfolding step by (simp add: loop_done_def MAX_RETRIES_def Let_def)
    next
      case False
      then have lt: "Suc (retries task) < MAX_RETRIES" using Suc.prems by simp
      with False Err Suc.hyps show ?thesis
        unfolding step by (auto simp: Let_def intro!: loop_done_retry [OF _ one])
    qed
  qed (use send_total [of evm t m sent] in simp)
qed simp

text \<open>The transactions sent before the \<open>i\<close>-th further attempt.\<close>

definition after_attempts :: "Evm \<Rightarrow> ChainWatchConfig \<Rightarrow> EpochRootMessage \<Rightarrow> nat \<Rightarrow> Tx list \<Rightarrow> Tx list" where
  "after_attempts evm t m i sent = ((\<lambda>s. snd (send evm t m s)) ^^ i) sent"

lemma after_attempts_Suc: "after_attempts evm t m (Suc i) sent = after_attempts evm t m i (snd (send evm t m sent))"
  by (simp add: after_attempts_def funpow_Suc_right del: funpow.simps)

lemma loop_ok_iff:
  assumes "retries task < MAX_RETRIES"
  shows "is_Ok (fst (dispatch_loop (send evm t m) task sent slept)) \<longleftrightarrow>
    (\<exists>i<MAX_RETRIES - retries task. is_Ok (fst (send evm t m (after_attempts evm t m i sent))))"
  using assms
proof (induction "MAX_RETRIES - retries task" arbitrary: task sent slept)
  case (Suc n)
  let ?s = "send evm t m sent" and ?P = "\<lambda>i sent. is_Ok (fst (send evm t m (after_attempts evm t m i sent)))"
  have split: "(\<exists>i<Suc n. ?P i sent) \<longleftrightarrow> is_Ok (fst ?s) \<or> (\<exists>i<n. ?P i (snd ?s))"
    using after_attempts_Suc [of evm t m _ sent]
    by (auto simp: less_Suc_eq_0_disj after_attempts_def [of _ _ _ 0])
  note step = dispatch_loop_step [where send = "send evm t m" and sent = sent and slept = slept, OF send_total Suc.prems]
  show ?case
  proof (cases "fst ?s")
    case (Err e)
    show ?thesis
    proof (cases "Suc (retries task) = MAX_RETRIES")
      case True
      then have "n = 0" using Suc.hyps(2) by simp
      with Err True split show ?thesis
        unfolding step Suc.hyps(2) [symmetric] by (simp add: Let_def is_Ok_def)
    next
      case False
      then have lt: "Suc (retries task) < MAX_RETRIES" using Suc.prems by simp
      let ?task = "task\<lparr>state := Pending, retries := Suc (retries task)\<rparr>"
      have n: "n = MAX_RETRIES - Suc (retries task)" using Suc.hyps(2) by simp
      have "is_Ok (fst (dispatch_loop (send evm t m) ?task (snd ?s) (slept @ [1000 * 2 ^ retries task]))) \<longleftrightarrow>
          (\<exists>i<n. ?P i (snd ?s))"
        using Suc.hyps(1) [of ?task] lt by (simp add: n)
      with Err False split Suc.hyps(2) show ?thesis unfolding step by (simp add: Let_def is_Ok_def [of "Err e"])
    qed
  qed (use send_total [of evm t m sent] split Suc.hyps(2) in \<open>simp_all add: step is_Ok_def\<close>)
qed simp

end

section \<open>Properties\<close>

lemma adapter_for_new: "adapter_for (new_engine cfg) n = Some a \<longleftrightarrow> supports_chain a n"
proof -
  have "adapter_for (new_engine cfg) n = Some a \<Longrightarrow> supports_chain a n"
    by (auto simp: adapter_for_def find_Some_iff)
  moreover have "\<exists>b. adapter_for (new_engine cfg) n = Some b \<and> supports_chain b n" if "supports_chain a n"
    using that by (cases a) (auto simp: adapter_for_def new_engine_def)
  ultimately show ?thesis using adapters_disjoint by blast
qed

lemma backoff_schedule:
  "slept = take k [1000, 2000, 4000, 8000] \<Longrightarrow> map backoff_duration [0..<length slept] = map Ok slept"
proof -
  have "backoff_duration i = Ok (1000 * 2 ^ i)" if "i \<in> {0..<4}" for i
    using that by (simp add: backoff_duration_def backoff_value min_def)
  then have "map backoff_duration [0..<4] = map (\<lambda>i. Ok (1000 * 2 ^ i)) [0..<4]" by (intro map_cong) auto
  also have "\<dots> = map Ok [1000, 2000, 4000, 8000]" by (simp add: upt_rec)
  finally have "map backoff_duration [0..<4] = map Ok [1000, 2000, 4000, 8000]" .
  then have "take k (map backoff_duration [0..<4]) = take k (map Ok [1000, 2000, 4000, 8000])" by (rule arg_cong)
  then have eq: "map backoff_duration (take k [0..<4]) = map Ok (take k [1000, 2000, 4000, 8000])" by (simp only: take_map)
  assume slept: "slept = take k [1000, 2000, 4000, 8000]"
  then have "take k [0..<4] = [0..<length slept]" 
    by (cases "k \<le> 4") (simp add: take_upt del: upt_rec_numeral, simp add: upt_rec)
  with eq show ?thesis unfolding slept by simp
qed

text \<open>The outcome for an adapter that supports the chain and the configuration of that chain.\<close>

definition attempts_ended :: "Adapter \<Rightarrow> Evm \<Rightarrow> ChainWatchConfig \<Rightarrow> RelayTask \<Rightarrow> Tx list \<Rightarrow> loop_result \<Rightarrow> bool" where
  "attempts_ended a evm t task sent res \<longleftrightarrow> (case res of (r, task', sent', slept) \<Rightarrow>
    message task' = message task \<and> target_chain_id task' = target_chain_id task \<and>
    (\<exists>txs. sent' = sent @ txs \<and> length txs \<le> 5 \<and>
      (\<forall>tx\<in>set txs. decode_root_call (tx_data tx) = Some (selector_of a, source_chain_id (message task),
         epoch_id (message task), unat (nullifier_root (message task))))) \<and>
    slept = take (retries task') [1000, 2000, 4000, 8000] \<and>
    (is_Ok r \<longleftrightarrow> (\<exists>i<5. is_Ok (fst (send_epoch_root a evm t (message task)
       (((\<lambda>s. snd (send_epoch_root a evm t (message task) s)) ^^ i) sent))))) \<and>
    ((\<exists>h. r = Ok h \<and> state task' = Submitted h \<and> retries task' < 5) \<or>
     (\<exists>reason. r = Err reason \<and> state task' = Failed reason \<and> retries task' = 5)))"

lemma dispatch_supported:
  assumes "supports_chain a (target_chain_id task)" and "chain_config (new_engine cfg) (target_chain_id task) = Some t"
    and "retries task = 0" and "source_chain_id (message task) < 2 ^ 64" "epoch_id (message task) < 2 ^ 64"
    and "dispatch (new_engine cfg) evm task sent = (r, task', sent', slept)"
  shows "attempts_ended a evm t task sent (r, task', sent', slept)"
proof -
  let ?m = "message task"
  have eq: "dispatch_loop (send_epoch_root a evm t ?m) task sent [] = (r, task', sent', slept)"
    using assms(1,2,6) by (simp add: dispatch_def adapter_for_new [THEN iffD2])
  have lt: "retries task < MAX_RETRIES" using assms(3) by (simp add: MAX_RETRIES_def)
  have "adapter.loop_done a ?m task sent [] (r, task', sent', slept)"
    using adapter.loop_finishes [OF lt, of a ?m sent "[]" evm t] unfolding eq .
  note fin = this [unfolded adapter.loop_done_def prod.case assms(3) MAX_RETRIES_def]
  have "map (\<lambda>i. 1000 * 2 ^ i) [0..<min 4 k] = take k [1000, 2000, 4000, 8000 :: nat]" for k
  proof -
    have "[1000, 2000, 4000, 8000 :: nat] = map (\<lambda>i. 1000 * 2 ^ i) [0..<4]" by (simp add: upt_rec)
    then show ?thesis by (cases "k \<le> 4") (simp_all add: take_map min_def)
  qed
  moreover have "is_Ok r \<longleftrightarrow> (\<exists>i<5. is_Ok (fst (send_epoch_root a evm t ?m (adapter.after_attempts a evm t ?m i sent))))"
    using adapter.loop_ok_iff [OF lt, of a evm t ?m sent "[]"] unfolding eq by (simp add: assms(3) MAX_RETRIES_def)
  ultimately show ?thesis
    using fin adapter.calldata_faithful [OF assms(4,5), of a]
    unfolding adapter.after_attempts_def attempts_ended_def by auto
qed

text \<open>
  C29: dispatching a fresh task always comes to an end. If no adapter supports the target chain, or the chain is not configured,
  it reports just that and touches nothing: the task stays as it was, nothing is sent and nobody sleeps. Otherwise, after at
  most five attempts, the task is either submitted, exactly if one of the five attempts succeeded, or failed with five retries;
  every transaction sent on the way carries the task's own message; the task keeps target and message; and the pauses, of
  one, two, four and eight seconds, are those \<open>backoff_duration\<close> computes for the attempts.
\<close>

theorem relay_dispatch_outcome:
  assumes "retries task = 0" and "source_chain_id (message task) < 2 ^ 64" "epoch_id (message task) < 2 ^ 64"
    and "dispatch (new_engine cfg) evm task sent = (r, task', sent', slept)"
  shows "((\<forall>a. \<not> supports_chain a (target_chain_id task)) \<longrightarrow>
      r = Err (''no adapter for chain '' @ dec (target_chain_id task)) \<and> task' = task \<and> sent' = sent \<and> slept = []) \<and>
    ((\<exists>a. supports_chain a (target_chain_id task)) \<and> chain_config (new_engine cfg) (target_chain_id task) = None \<longrightarrow>
      r = Err (''chain '' @ dec (target_chain_id task) @ '' not in config'') \<and> task' = task \<and> sent' = sent \<and> slept = []) \<and>
    (supports_chain a (target_chain_id task) \<and> chain_config (new_engine cfg) (target_chain_id task) = Some t \<longrightarrow>
      attempts_ended a evm t task sent (r, task', sent', slept)) \<and>
    map backoff_duration [0..<length slept] = (map Ok slept :: (unit, nat) result list)"
proof -
  let ?n = "target_chain_id task"
  have early: "r = Err (''no adapter for chain '' @ dec ?n) \<and> task' = task \<and> sent' = sent \<and> slept = []"
    if "\<forall>a. \<not> supports_chain a ?n"
  proof -
    have "adapter_for (new_engine cfg) ?n = None" using that adapter_for_new by (metis option.exhaust)
    then show ?thesis using assms(4) by (auto simp: dispatch_def)
  qed
  have unconfigured: "r = Err (''chain '' @ dec ?n @ '' not in config'') \<and> task' = task \<and> sent' = sent \<and> slept = []"
    if "supports_chain b ?n" "chain_config (new_engine cfg) ?n = None" for b
    using that assms(4) by (auto simp: dispatch_def adapter_for_new [THEN iffD2])
  have ended: "attempts_ended b evm c task sent (r, task', sent', slept)"
    if "supports_chain b ?n" "chain_config (new_engine cfg) ?n = Some c" for b c
    by (rule dispatch_supported [OF that assms])
  have "\<exists>k. slept = take k [1000, 2000, 4000, 8000]"
  proof (cases "\<exists>b c. supports_chain b ?n \<and> chain_config (new_engine cfg) ?n = Some c")
    case True
    then show ?thesis using ended unfolding attempts_ended_def prod.case by blast
  next
    case False
    then have "slept = []" using early unconfigured by (cases "chain_config (new_engine cfg) ?n") blast+
    then show ?thesis by (intro exI [of _ 0]) simp
  qed
  with early unconfigured ended show ?thesis by (auto intro: backoff_schedule)
qed

definition sample_config :: RelayerConfig where
  "sample_config = default_config\<lparr>chains := [sample_chain]\<rparr>"

theorem relay_dispatch_outcome_witness:
  "\<exists>r task' sent' slept. dispatch (new_engine sample_config) sample_evm (build_task 1284 43113 7 9 2) []
       = (r, task', sent', slept) \<and> length sent' \<le> 5 \<and> is_Ok r"
proof -
  let ?task = "build_task 1284 43113 7 9 2"
  obtain r task' sent' slept where d: "dispatch (new_engine sample_config) sample_evm ?task [] = (r, task', sent', slept)"
    by (cases "dispatch (new_engine sample_config) sample_evm ?task []") auto
  have sup: "supports_chain Awm (target_chain_id ?task)"
    by (simp add: build_task_def is_avalanche_def AVALANCHE_FUJI_def)
  have cfg: "chain_config (new_engine sample_config) (target_chain_id ?task) = Some sample_chain"
    by (simp add: chain_config_def new_engine_def sample_config_def build_task_def sample_chain_def)
  have send: "send_epoch_root Awm sample_evm sample_chain (message ?task) s =
      (if length s < 2 then Err (Rpc ''no receipt'') else Ok (debug_hash [1]),
       s @ [\<lparr>tx_rpc = ''http'', tx_to = replicate 20 1, tx_data = calldata_of Awm (message ?task), tx_gas = Some 300000, tx_value = 0\<rparr>])" for s
    by (simp add: send_defs sample_chain_def is_avalanche_def AVALANCHE_FUJI_def submit_tx_def Let_def calldata_of_def)
  have third: "is_Ok (fst (send_epoch_root Awm sample_evm sample_chain (message ?task)
      (((\<lambda>s. snd (send_epoch_root Awm sample_evm sample_chain (message ?task) s)) ^^ 2) [])))"
    unfolding send by (simp add: numeral_2_eq_2 is_Ok_def)
  have "retries ?task = 0" "source_chain_id (message ?task) < 2 ^ 64" "epoch_id (message ?task) < 2 ^ 64"
    by (simp_all add: build_task_def)
  from relay_dispatch_outcome [OF this d, of Awm sample_chain] sup cfg third have "is_Ok r" "length sent' \<le> 5"
    by (auto simp: attempts_ended_def intro!: exI [of _ "2 :: nat"])
  with d show ?thesis by blast
qed

text \<open>
  The nonces handed out for a chain count up from the recorded one without gap or repetition, whatever is
  asked for other chains in between.
\<close>

lemma nonces_are_consecutive:
  assumes "next_nonces nonces cs = (Ok (ns, nonces') :: ('e, nat list \<times> NonceManager) result)"
  shows "map snd (filter (\<lambda>(c, _). c = chain) (zip cs ns)) = [get 0 nonces chain..<get 0 nonces' chain]"
  using assms
proof (induction cs arbitrary: nonces ns)
  case (Cons c cs)
  then obtain ns1 where ns: "ns = get 0 nonces c # ns1"
    and rest: "next_nonces (nonces(c \<mapsto> Suc (get 0 nonces c))) cs = (Ok (ns1, nonces') :: ('e, nat list \<times> NonceManager) result)"
    by (auto simp: next_nonce_def result_simps Let_def)
  have mono: "get 0 nonces x \<le> get 0 nonces' x"
    if "next_nonces nonces cs = (Ok (ns, nonces') :: ('e, nat list \<times> NonceManager) result)" for nonces ns x
    using that
  proof (induction cs arbitrary: nonces ns)
    case (Cons d ds)
    then obtain n1 nn where "next_nonce nonces d = (Ok (n1, nn) :: ('e, nat \<times> NonceManager) result)"
      "get 0 nn x \<le> get 0 nonces' x"
      by (auto simp: bind_result_Ok_iff)
    then show ?case by (auto simp: next_nonce_def result_simps Let_def split: if_splits)
  qed simp
  from Cons.IH [OF rest] mono [OF rest, of chain] show ?case
    unfolding ns by (cases "c = chain") (auto simp: upt_conv_Cons simp del: fun_upd_apply)
qed simp

end
