(* ===== verification/Relayer_Events.thy ===== *)
theory Relayer_Events
  imports Relayer_Adapters
begin

text \<open>
  From chain logs to relay commands: the event types (\<open>relayer/src/lib.rs\<close>), the watchers
  (\<open>watcher.rs\<close>) and the aggregator (\<open>aggregator.rs\<close>). A watcher is a function of what the RPC
  endpoint answers, round by round; the aggregator is a function of what it receives: events, batch
  timeouts, the closing of the channel. The random generator is a parameter. Log lines are left out.
\<close>

section \<open>Events and commands\<close>

record EpochEvent =
  event_chain_id :: nat
  chain_name :: string
  event_epoch_id :: nat
  event_root :: h256
  event_count :: nat
  event_block :: nat
  tx_hash :: string
  timestamp :: nat

datatype RelayCommand =
    SendToChain nat nat nat h256
  | SubmitToRegistry nat nat h256 nat

section \<open>Watchers\<close>

record Log =
  topics :: "h256 list"
  log_data :: "u8 list"
  block_number :: "nat option"
  transaction_hash :: "h256 option"

definition unwrap_or_default :: "nat option \<Rightarrow> nat" where
  "unwrap_or_default x = (case x of Some n \<Rightarrow> n | None \<Rightarrow> 0)"

text \<open>\<open>as_u64\<close> and \<open>as_u32\<close> of the 256-bit integer panic on overflow.\<close>

definition narrow :: "nat \<Rightarrow> nat \<Rightarrow> ('e, nat) result" where
  "narrow w n = (if n < 2 ^ w then Ok n else Panic)"

definition parse_epoch_finalized_log :: "ChainWatchConfig \<Rightarrow> nat \<Rightarrow> Log \<Rightarrow> (string, EpochEvent) result" where
  "parse_epoch_finalized_log config now log =
     bind_result (ensure (\<not> length (topics log) < 2) ''Missing topics in EpochFinalized log'') (\<lambda>_.
     bind_result (narrow 64 (unat (topics log ! 1))) (\<lambda>epoch.
     bind_result (ensure (\<not> length (log_data log) < 64) ''Insufficient data in EpochFinalized log'') (\<lambda>_.
     let root = of_nat (from_be_bytes (take 32 (log_data log))) in
     bind_result (narrow 32 (from_be_bytes (take 32 (drop 32 (log_data log))))) (\<lambda>count.
     Ok \<lparr>event_chain_id = chain_id config, chain_name = name config, event_epoch_id = epoch,
         event_root = root, event_count = count, event_block = unwrap_or_default (block_number log),
         tx_hash = (case transaction_hash log of Some h \<Rightarrow> ''0x'' @ lower_hex (h256_bytes h) | None \<Rightarrow> []),
         timestamp = now\<rparr>))))"

text \<open>The heads observed while waiting; \<open>None\<close> is a failed request. The result is what is left of
  them when the wait is over, or \<open>None\<close> if it is not over yet.\<close>

fun wait_for_confirmations :: "nat \<Rightarrow> nat \<Rightarrow> nat option list \<Rightarrow> nat option list option" where
  "wait_for_confirmations target_block confirmations [] = None"
| "wait_for_confirmations target_block confirmations (head # heads) =
     (case head of
        Some current \<Rightarrow> if current \<ge> target_block + confirmations then Some heads
                        else wait_for_confirmations target_block confirmations heads
      | None \<Rightarrow> wait_for_confirmations target_block confirmations heads)"

text \<open>The subscription: each log with the heads observed after it. A log that does not parse is skipped,
  a closed channel ends the watcher.\<close>

fun watch_via_ws ::
  "ChainWatchConfig \<Rightarrow> nat \<Rightarrow> bool \<Rightarrow> (Log \<times> nat option list) list \<Rightarrow> (string, EpochEvent list) result" where
  "watch_via_ws config now open [] = Ok []"
| "watch_via_ws config now open ((log, heads) # stream) =
     (case parse_epoch_finalized_log config now log of
        Ok event \<Rightarrow>
          if confirmation_blocks config > 0 \<and>
             wait_for_confirmations (unwrap_or_default (block_number log)) (confirmation_blocks config) heads = None
          then Ok []
          else if \<not> open then Ok []
          else bind_result (watch_via_ws config now open stream) (\<lambda>events. Ok (event # events))
      | Err e \<Rightarrow> watch_via_ws config now open stream
      | Panic \<Rightarrow> Panic)"

text \<open>The logs of one polling round; the result says whether the channel was found closed.\<close>

fun poll_logs :: "ChainWatchConfig \<Rightarrow> nat \<Rightarrow> bool \<Rightarrow> nat \<Rightarrow> Log list \<Rightarrow> (string, EpochEvent list \<times> bool) result" where
  "poll_logs config now open current_block [] = Ok ([], False)"
| "poll_logs config now open current_block (log # logs) =
     (case parse_epoch_finalized_log config now log of
        Ok event \<Rightarrow>
          if saturating_sub current_block (unwrap_or_default (block_number log)) \<ge> confirmation_blocks config
          then if \<not> open then Ok ([], True)
               else bind_result (poll_logs config now open current_block logs) (\<lambda>(events, closed).
                    Ok (event # events, closed))
          else poll_logs config now open current_block logs
      | Err e \<Rightarrow> poll_logs config now open current_block logs
      | Panic \<Rightarrow> Panic)"

text \<open>What the endpoint answers in a round: the head, the logs between two blocks.\<close>

record Round =
  head :: "nat option"
  get_logs :: "nat \<Rightarrow> nat \<Rightarrow> Log list option"
  chan_open :: bool
  now_secs :: nat

fun watch_via_polling :: "Evm \<Rightarrow> ChainWatchConfig \<Rightarrow> nat \<Rightarrow> Round list \<Rightarrow> (string, EpochEvent list) result" where
  "watch_via_polling evm config last_block [] = Ok []"
| "watch_via_polling evm config last_block (round # rounds) =
     (case head round of
        None \<Rightarrow> watch_via_polling evm config last_block rounds
      | Some current_block \<Rightarrow>
          if current_block \<le> last_block then watch_via_polling evm config last_block rounds
          else if parse_address evm (epoch_manager_address config) = None then Panic
          else
            bind_result (uadd 64 last_block 1) (\<lambda>from_block.
            case get_logs round from_block current_block of
              None \<Rightarrow> watch_via_polling evm config current_block rounds
            | Some logs \<Rightarrow>
                bind_result (poll_logs config (now_secs round) (chan_open round) current_block logs) (\<lambda>(events, closed).
                if closed then Ok events
                else bind_result (watch_via_polling evm config current_block rounds) (\<lambda>later.
                     Ok (events @ later)))))"

text \<open>The subscription first; if it could not be set up, polling from the head of the moment.\<close>

definition watch_chain ::
  "Evm \<Rightarrow> ChainWatchConfig \<Rightarrow> nat \<Rightarrow> (string, (Log \<times> nat option list) list) result \<Rightarrow> nat option \<Rightarrow> bool \<Rightarrow> Round list
     \<Rightarrow> (string, EpochEvent list) result" where
  "watch_chain evm config now subscription start_head open rounds =
     (case bind_result subscription (watch_via_ws config now open) of
        Ok events \<Rightarrow> Ok events
      | Panic \<Rightarrow> Panic
      | Err e \<Rightarrow>
          (case try_provider evm (http_rpc_url config) of
             Some e \<Rightarrow> Err e
           | None \<Rightarrow> (case start_head of
                        None \<Rightarrow> Err ''get_block_number''
                      | Some last_block \<Rightarrow> watch_via_polling evm config last_block rounds)))"

section \<open>Aggregator\<close>

definition rand_jitter :: "(nat \<Rightarrow> nat) \<Rightarrow> nat \<Rightarrow> ('e, nat) result" where
  "rand_jitter rng max_ms = (if max_ms = 0 then Panic else Ok (rng max_ms))"

definition dispatch_event :: "RelayerConfig \<Rightarrow> EpochEvent \<Rightarrow> RelayCommand list" where
  "dispatch_event config event =
     SubmitToRegistry (event_chain_id event) (event_epoch_id event) (event_root event) (event_count event) #
     concat (map (\<lambda>chain.
        if chain_id chain = event_chain_id event then []
        else if bridge_adapter_address chain = None then []
        else [SendToChain (chain_id chain) (event_chain_id event) (event_epoch_id event) (event_root event)])
       (chains config))"

fun flush_batch :: "RelayerConfig \<Rightarrow> (nat \<Rightarrow> nat) \<Rightarrow> EpochEvent list \<Rightarrow> ('e, RelayCommand list) result" where
  "flush_batch config rng [] = Ok []"
| "flush_batch config rng (event # batch) =
     (let mr = metadata_resistance config in
      bind_result (if jitter_enabled mr then rand_jitter rng (max_jitter_ms mr) else Ok 0) (\<lambda>_.
      bind_result (flush_batch config rng batch) (\<lambda>cmds. Ok (dispatch_event config event @ cmds))))"

datatype Input = Recv EpochEvent | Timeout | Closed

text \<open>Without batching the loop waits for events only, so a timeout means nothing there.\<close>

fun run_aggregator :: "RelayerConfig \<Rightarrow> (nat \<Rightarrow> nat) \<Rightarrow> EpochEvent list \<Rightarrow> Input list \<Rightarrow> ('e, RelayCommand list) result" where
  "run_aggregator config rng batch [] = Ok []"
| "run_aggregator config rng batch (Timeout # inputs) =
     (if batching_enabled (metadata_resistance config) \<and> batch \<noteq> []
      then bind_result (flush_batch config rng batch) (\<lambda>cmds.
           bind_result (run_aggregator config rng [] inputs) (\<lambda>later. Ok (cmds @ later)))
      else run_aggregator config rng batch inputs)"
| "run_aggregator config rng batch (Recv ev # inputs) =
     (let mr = metadata_resistance config in
      if batching_enabled mr
      then (let batch = batch @ [ev] in
            if length batch \<ge> batch_size mr
            then bind_result (flush_batch config rng batch) (\<lambda>cmds.
                 bind_result (run_aggregator config rng [] inputs) (\<lambda>later. Ok (cmds @ later)))
            else run_aggregator config rng batch inputs)
      else bind_result (if jitter_enabled mr \<and> max_jitter_ms mr > 0 then rand_jitter rng (max_jitter_ms mr) else Ok 0) (\<lambda>_.
           bind_result (run_aggregator config rng batch inputs) (\<lambda>later. Ok (dispatch_event config ev @ later))))"
| "run_aggregator config rng batch (Closed # inputs) =
     (if batch \<noteq> [] then flush_batch config rng batch else Ok [])"

section \<open>Properties of the aggregator\<close>

text \<open>The configuration for which the range of the random delay is empty.\<close>

definition empty_jitter :: "RelayerConfig \<Rightarrow> bool" where
  "empty_jitter config \<longleftrightarrow> jitter_enabled (metadata_resistance config) \<and> max_jitter_ms (metadata_resistance config) = 0"

lemma flush_batch_eq:
  "flush_batch config rng batch =
     (if empty_jitter config \<and> batch \<noteq> [] then Panic else Ok (concat (map (dispatch_event config) batch)))"
  by (induction batch) (auto simp: rand_jitter_def empty_jitter_def Let_def)

fun input_of :: "EpochEvent option \<Rightarrow> Input" where
  "input_of (Some ev) = Recv ev"
| "input_of None = Timeout"

definition events_of :: "EpochEvent option list \<Rightarrow> EpochEvent list" where
  "events_of xs = concat (map (\<lambda>x. case x of Some ev \<Rightarrow> [ev] | None \<Rightarrow> []) xs)"

lemma run_aggregator_batched:
  assumes "batching_enabled (metadata_resistance config)"
  shows "run_aggregator config rng batch (map input_of xs @ [Closed]) =
    (if empty_jitter config \<and> batch @ events_of xs \<noteq> [] then Panic
     else Ok (concat (map (dispatch_event config) (batch @ events_of xs))))"
proof (induction xs arbitrary: batch)
  case (Cons x xs)
  then show ?case using assms by (cases x) (auto simp: Let_def flush_batch_eq events_of_def)
qed (simp add: flush_batch_eq events_of_def)

lemma run_aggregator_immediate:
  assumes "\<not> batching_enabled (metadata_resistance config)"
  shows "run_aggregator config rng [] (map input_of xs @ [Closed]) = Ok (concat (map (dispatch_event config) (events_of xs)))"
proof (induction xs)
  case (Cons x xs)
  then show ?case using assms by (cases x) (auto simp: Let_def rand_jitter_def events_of_def)
qed (simp add: events_of_def)

text \<open>
  The aggregator relays every event it receives exactly once and in order, whatever the batch size and
  wherever batch timeouts fall, and forgets none when the watchers close. The only exception is a
  configuration with batching and jitter but a zero maximal jitter: there the first flush panics.
\<close>

lemma aggregator_relays_each_event_once:
  "run_aggregator config rng [] (map input_of xs @ [Closed]) =
     (if batching_enabled (metadata_resistance config) \<and> empty_jitter config \<and> events_of xs \<noteq> [] then Panic
      else Ok (concat (map (dispatch_event config) (events_of xs))))"
  by (cases "batching_enabled (metadata_resistance config)")
    (simp_all add: run_aggregator_batched run_aggregator_immediate)

section \<open>Properties of the polling watcher\<close>

lemma poll_logs_confirmed:
  assumes "poll_logs config now open cur logs = Ok (events, closed)" and "ev \<in> set events"
  shows "\<exists>l\<in>set logs. event_block ev = unwrap_or_default (block_number l) \<and>
    confirmation_blocks config \<le> cur - unwrap_or_default (block_number l)"
  using assms
proof (induction logs arbitrary: events closed)
  case (Cons l logs)
  show ?case
  proof (cases "parse_epoch_finalized_log config now l")
    case (Ok e)
    then have blk: "event_block e = unwrap_or_default (block_number l)"
      by (auto simp: parse_epoch_finalized_log_def result_simps Let_def)
    with Ok Cons show ?thesis
      by (auto simp: result_simps saturating_sub_def split: if_splits)
  qed (use Cons in auto)
qed simp

text \<open>As long as its sends succeed, the polling watcher goes on for ever: whatever further rounds come, it handles them after
  those it has seen.\<close>

lemma poll_logs_open: "poll_logs config now True cur logs = Ok (events, closed) \<Longrightarrow> \<not> closed"
  by (induction logs arbitrary: events) (auto simp: result_simps split: result.splits if_splits)

lemma polling_goes_on:
  assumes "watch_via_polling evm config lb rounds = Ok events" and "list_all chan_open rounds"
  shows "\<exists>lb'. \<forall>more. watch_via_polling evm config lb (rounds @ more) =
    bind_result (watch_via_polling evm config lb' more) (\<lambda>later. Ok (events @ later))"
  using assms
proof (induction rounds arbitrary: lb events)
  case Nil
  have "m = bind_result m Ok" for m :: "(string, EpochEvent list) result" by (cases m) auto
  with Nil show ?case by (intro exI [of _ lb]) auto
next
  case (Cons r rounds)
  show ?case
  proof (cases "\<exists>cur. head r = Some cur \<and> lb < cur")
    case False
    then have "watch_via_polling evm config lb (r # rs) = watch_via_polling evm config lb rs" for rs
      by (auto split: option.splits)
    with Cons show ?thesis by (simp del: watch_via_polling.simps)
  next
    case True
    then obtain cur where cur: "head r = Some cur" "lb < cur" by blast
    with Cons.prems(1) have ok: "parse_address evm (epoch_manager_address config) \<noteq> None"
      "uadd 64 lb 1 = (Ok (lb + 1) :: (string, nat) result)"
      by (auto simp: uadd_def bind_result_Ok_iff split: if_splits)
    show ?thesis
    proof (cases "get_logs r (lb + 1) cur")
      case None
      with cur ok have "watch_via_polling evm config lb (r # rs) = watch_via_polling evm config cur rs" for rs by auto
      with Cons show ?thesis by (simp del: watch_via_polling.simps)
    next
      case (Some logs)
      with Cons.prems(1) cur ok obtain es closed where
        p: "poll_logs config (now_secs r) (chan_open r) cur logs = Ok (es, closed)"
        by (auto simp: bind_result_Ok_iff)
      then have "\<not> closed" using Cons.prems(2) poll_logs_open [of config "now_secs r" cur logs es closed] by simp
      with Some p cur ok Cons.prems(1) obtain later where
        later: "watch_via_polling evm config cur rounds = Ok later" "events = es @ later"
        by (auto simp: bind_result_Ok_iff)
      with Cons.IH [of cur later] Cons.prems(2) obtain lb' where
        "\<forall>more. watch_via_polling evm config cur (rounds @ more) =
           bind_result (watch_via_polling evm config lb' more) (\<lambda>l. Ok (later @ l))" by auto
      with Some p cur ok \<open>\<not> closed\<close> later(2) show ?thesis
        by (intro exI [of _ lb']) (auto simp: bind_result_assoc)
    qed
  qed
qed

definition in_range :: "Round \<Rightarrow> bool" where
  "in_range r \<longleftrightarrow> (\<forall>from_b to_b logs. get_logs r from_b to_b = Some logs \<longrightarrow>
     list_all (\<lambda>l. from_b \<le> unwrap_or_default (block_number l) \<and> unwrap_or_default (block_number l) \<le> to_b) logs)"

lemma polling_starts_after:
  assumes "watch_via_polling evm config lb rounds = Ok events" and "\<forall>r\<in>set rounds. in_range r"
    and "ev \<in> set events"
  shows "lb < event_block ev"
  using assms
proof (induction rounds arbitrary: lb events)
  case (Cons r rounds)
  show ?case
  proof (cases "\<exists>cur. head r = Some cur \<and> lb < cur")
    case False
    with Cons show ?thesis by (auto split: option.splits)
  next
    case True
    then obtain cur where cur: "head r = Some cur" "lb < cur" by blast
    have later: "lb < event_block ev" if "watch_via_polling evm config cur rounds = Ok es" "ev \<in> set es" for es
      using Cons.IH [OF that(1) _ that(2)] Cons.prems(2) cur by auto
    show ?thesis
    proof (cases "get_logs r (lb + 1) cur")
      case None
      with Cons.prems(1,3) cur later show ?thesis by (auto simp: result_simps split: if_splits)
    next
      case (Some logs)
      with Cons.prems(1) cur obtain es closed rest where
        p: "poll_logs config (now_secs r) (chan_open r) cur logs = Ok (es, closed)"
        and e: "events = es \<or> watch_via_polling evm config cur rounds = Ok rest \<and> events = es @ rest"
        by (auto simp: result_simps split: if_splits)
      have "lb < event_block ev" if in_es: "ev \<in> set es"
      proof -
        obtain l where l: "l \<in> set logs" "event_block ev = unwrap_or_default (block_number l)"
          using poll_logs_confirmed [OF p in_es] by blast
        moreover have "lb + 1 \<le> unwrap_or_default (block_number l)"
          using Cons.prems(2) Some l(1) by (auto simp: in_range_def list_all_iff)
        ultimately show ?thesis by simp
      qed
      with e later Cons.prems(3) show ?thesis by auto
    qed
  qed
qed simp

text \<open>
  C32: the polling watcher looks at every block once. A log that is not yet confirmed when its block is first
  seen is skipped and never relayed, whatever happens in later rounds: no event of that block
  is ever sent.
\<close>

theorem polling_drops_unconfirmed_logs:
  assumes "watch_via_polling evm config lb (round # rounds) = Ok events" and "\<forall>r\<in>set (round # rounds). in_range r"
    and "head round = Some cur" and "lb < b" "b \<le> cur" and "cur < b + confirmation_blocks config"
  shows "b \<notin> event_block ` set events"
proof
  assume "b \<in> event_block ` set events"
  then obtain ev where ev: "ev \<in> set events" "event_block ev = b" by blast
  have later: False if "watch_via_polling evm config cur rounds = Ok es" "ev \<in> set es" for es
    using polling_starts_after [OF that(1) _ that(2)] assms(2,5) ev(2) by simp
  show False
  proof (cases "get_logs round (lb + 1) cur")
    case None
    with assms(1,3,4,5) ev(1) later show False by (auto simp: result_simps split: if_splits)
  next
    case (Some logs)
    with assms(1,3,4,5) obtain es closed rest where
      p: "poll_logs config (now_secs round) (chan_open round) cur logs = Ok (es, closed)"
      and e: "events = es \<or> watch_via_polling evm config cur rounds = Ok rest \<and> events = es @ rest"
      by (auto simp: result_simps split: if_splits)
    have "ev \<notin> set es"
      using poll_logs_confirmed [OF p, of ev] ev(2) assms(5,6) by auto
    with e ev(1) later show False by auto
  qed
qed

definition sample_log :: Log where
  "sample_log = \<lparr>topics = [0, 7], log_data = replicate 64 0, block_number = Some 10, transaction_hash = None\<rparr>"

definition sample_round :: "nat \<Rightarrow> Round" where
  "sample_round h = \<lparr>head = Some h, get_logs = (\<lambda>a b. Some (if a \<le> 10 \<and> 10 \<le> b then [sample_log] else [])),
     chan_open = True, now_secs = 0\<rparr>"

theorem polling_drops_unconfirmed_logs_witness:
  "\<exists>events. watch_via_polling sample_evm sample_chain 9 [sample_round 11, sample_round 20] = Ok events \<and>
     10 \<notin> event_block ` set events"
proof -
  have logs: "from_be_bytes (replicate k 0) = 0" for k
    using from_be_be_bytes [of k 0] by (simp add: be_bytes_0)
  have run: "\<exists>events. watch_via_polling sample_evm sample_chain 9 [sample_round 11, sample_round 20] = Ok events"
    by (simp add: sample_round_def sample_log_def uadd_def parse_epoch_finalized_log_def ensure_def narrow_def
        saturating_sub_def unwrap_or_default_def logs)
  then obtain events where ev: "watch_via_polling sample_evm sample_chain 9 [sample_round 11, sample_round 20] = Ok events"
    by blast
  have "10 \<notin> event_block ` set events"
    by (rule polling_drops_unconfirmed_logs [OF ev, of 11])
      (auto simp: sample_round_def in_range_def sample_log_def unwrap_or_default_def sample_chain_def)
  with ev show ?thesis by blast
qed

end
