(* ===== verification/Relayer_Dispatch.thy ===== *)
theory Relayer_Dispatch
  imports Relayer_Events
begin

text \<open>
  The end of the pipeline: the counters (\<open>relayer/src/metrics.rs\<close>), the dispatcher that turns commands
  into transactions (\<open>dispatcher.rs\<close>), the command loop of the daemon (\<open>lib.rs\<close>) and the
  health state (\<open>health.rs\<close>). ABI encoding and Keccak come from the client library and are
  parameters. Atomic counters wrap at 64 bits.
\<close>

section \<open>Metrics\<close>

record Metrics =
  epochs_received :: nat
  relays_dispatched :: nat
  relay_failures :: nat
  registry_submissions :: nat
  chain_epochs :: "nat list"

definition new_metrics :: Metrics where
  "new_metrics = \<lparr>epochs_received = 0, relays_dispatched = 0, relay_failures = 0, registry_submissions = 0,
                  chain_epochs = replicate 16 0\<rparr>"

definition fetch_add1 :: "nat \<Rightarrow> nat" where
  "fetch_add1 n = (n + 1) mod 2 ^ 64"

definition inc_epochs_received :: "Metrics \<Rightarrow> Metrics" where
  "inc_epochs_received mx = mx\<lparr>epochs_received := fetch_add1 (epochs_received mx)\<rparr>"

definition inc_relays_dispatched :: "Metrics \<Rightarrow> Metrics" where
  "inc_relays_dispatched mx = mx\<lparr>relays_dispatched := fetch_add1 (relays_dispatched mx)\<rparr>"

definition inc_relay_failures :: "Metrics \<Rightarrow> Metrics" where
  "inc_relay_failures mx = mx\<lparr>relay_failures := fetch_add1 (relay_failures mx)\<rparr>"

definition inc_registry_submissions :: "Metrics \<Rightarrow> Metrics" where
  "inc_registry_submissions mx = mx\<lparr>registry_submissions := fetch_add1 (registry_submissions mx)\<rparr>"

definition inc_chain_epoch :: "nat \<Rightarrow> Metrics \<Rightarrow> Metrics" where
  "inc_chain_epoch i mx =
     (if i < length (chain_epochs mx)
      then mx\<lparr>chain_epochs := (chain_epochs mx)[i := fetch_add1 (chain_epochs mx ! i)]\<rparr> else mx)"

definition newline :: string where "newline = [CHR 0x0A]"

definition quoted :: "string \<Rightarrow> string" where
  "quoted s = CHR 0x22 # s @ [CHR 0x22]"

definition counter_lines :: "string \<Rightarrow> string \<Rightarrow> nat \<Rightarrow> string" where
  "counter_lines metric help v =
     ''# HELP '' @ metric @ '' '' @ help @ newline @ ''# TYPE '' @ metric @ '' counter'' @ newline
       @ metric @ '' '' @ dec v @ newline"

definition render :: "Metrics \<Rightarrow> string" where
  "render mx =
     counter_lines ''relayer_epochs_received_total'' ''Total EpochFinalized events received.'' (epochs_received mx)
     @ counter_lines ''relayer_relays_dispatched_total'' ''Total relay commands dispatched.'' (relays_dispatched mx)
     @ counter_lines ''relayer_relay_failures_total'' ''Total relay failures.'' (relay_failures mx)
     @ counter_lines ''relayer_registry_submissions_total'' ''Total registry submissions.'' (registry_submissions mx)
     @ concat (map (\<lambda>(i, v). if v > 0
          then ''relayer_chain_epochs_total{chain_index='' @ quoted (dec i) @ ''} '' @ dec v @ newline else [])
         (enumerate 0 (chain_epochs mx)))"

section \<open>Dispatcher\<close>

datatype DispatchError = DRpc string | DSigning string | Reverted string | UnknownChain nat | NoBridgeAdapter nat

datatype Token = Uint nat | FixedBytes "u8 list" | Address "u8 list" | Bytes "u8 list"

record Client = Evm +
  get_chainid :: "string \<Rightarrow> string + nat"
  abi_encode :: "Token list \<Rightarrow> u8 list"
  keccak256 :: "u8 list \<Rightarrow> u8 list"

definition encode_receive_remote_root :: "Client \<Rightarrow> nat \<Rightarrow> nat \<Rightarrow> h256 \<Rightarrow> u8 list" where
  "encode_receive_remote_root cl src epoch root =
     take 4 (keccak256 cl (as_bytes ''receiveRemoteRoot(uint256,uint256,bytes32)''))
     @ abi_encode cl [Uint src, Uint epoch, FixedBytes (h256_bytes root)]"

definition encode_send_message :: "Client \<Rightarrow> nat \<Rightarrow> string \<Rightarrow> u8 list \<Rightarrow> nat \<Rightarrow> u8 list" where
  "encode_send_message cl destination_chain_id recipient payload gas_limit =
     (let recipient_addr = (case parse_address cl recipient of Some a \<Rightarrow> a | None \<Rightarrow> replicate 20 0)
      in take 4 (keccak256 cl (as_bytes ''sendMessage(uint256,address,bytes,uint256)''))
         @ abi_encode cl [Uint destination_chain_id, Address recipient_addr, Bytes payload, Uint gas_limit])"

definition encode_submit_epoch_root :: "Client \<Rightarrow> nat \<Rightarrow> nat \<Rightarrow> h256 \<Rightarrow> nat \<Rightarrow> u8 list" where
  "encode_submit_epoch_root cl chain epoch root count =
     take 4 (keccak256 cl (as_bytes ''submitEpochRoot(uint256,uint256,bytes32,uint32)''))
     @ abi_encode cl [Uint chain, Uint epoch, FixedBytes (h256_bytes root), Uint count]"

text \<open>The node answers the chain identifier with a 256-bit number, whose \<open>as_u64\<close> panics when it does not fit.\<close>

definition chainid_u64 :: "('a) Client_scheme \<Rightarrow> string \<Rightarrow> (string, nat) result" where
  "chainid_u64 cl rpc = (case get_chainid cl rpc of Inl e \<Rightarrow> Err e | Inr n \<Rightarrow> narrow 64 n)"

definition send_evm_tx ::
  "Client \<Rightarrow> string \<Rightarrow> string \<Rightarrow> string \<Rightarrow> u8 list \<Rightarrow> nat \<Rightarrow> (DispatchError, string) effect" where
  "send_evm_tx cl rpc key to calldata v sent =
     (case try_provider cl rpc of Some e \<Rightarrow> (Err (DRpc e), sent)
      | None \<Rightarrow> (case parse_wallet cl key of Some e \<Rightarrow> (Err (DSigning e), sent)
      | None \<Rightarrow> (case chainid_u64 cl rpc of Err e \<Rightarrow> (Err (DRpc e), sent) | Panic \<Rightarrow> (Panic, sent)
      | Ok _ \<Rightarrow> (case parse_address cl to of None \<Rightarrow> (Err (DRpc (''Invalid address: '' @ to)), sent)
      | Some to_addr \<Rightarrow>
          let tx = \<lparr>tx_rpc = rpc, tx_to = to_addr, tx_data = calldata, tx_gas = None, tx_value = v\<rparr>
          in (case reply cl sent tx of
                SendFailed e \<Rightarrow> (Err (DRpc e), sent @ [tx])
              | WaitFailed e \<Rightarrow> (Err (DRpc e), sent @ [tx])
              | NoReceipt \<Rightarrow> (Err (DRpc ''No receipt returned''), sent @ [tx])
              | Receipt hash status \<Rightarrow>
                  if status = Some 1 then (Ok (''0x'' @ lower_hex hash), sent @ [tx])
                  else (Err (Reverted (''0x'' @ lower_hex hash)), sent @ [tx]))))))"

definition find_chain :: "RelayerConfig \<Rightarrow> nat \<Rightarrow> ChainWatchConfig option" where
  "find_chain config chain = find (\<lambda>c. chain_id c = chain) (chains config)"

type_synonym dispatch_result = "(DispatchError, unit) result \<times> Metrics \<times> Tx list"

definition send_to_chain :: "Client \<Rightarrow> RelayerConfig \<Rightarrow> nat \<Rightarrow> nat \<Rightarrow> nat \<Rightarrow> h256 \<Rightarrow> Metrics \<Rightarrow> Tx list \<Rightarrow> dispatch_result" where
  "send_to_chain cl config target src epoch root mx sent =
     (case find_chain config target of
        None \<Rightarrow> (Err (UnknownChain target), mx, sent)
      | Some chain_cfg \<Rightarrow>
          (case bridge_adapter_address chain_cfg of
             None \<Rightarrow> (Err (NoBridgeAdapter target), mx, sent)
           | Some bridge_addr \<Rightarrow>
               let payload = encode_receive_remote_root cl src epoch root;
                   calldata = encode_send_message cl src (epoch_manager_address chain_cfg) payload 200000
               in (case send_evm_tx cl (http_rpc_url chain_cfg) (signer_key chain_cfg) bridge_addr calldata 0 sent of
                     (Ok _, sent) \<Rightarrow> (Ok (), inc_relays_dispatched mx, sent)
                   | (Err e, sent) \<Rightarrow> (Err e, mx, sent)
                   | (Panic, sent) \<Rightarrow> (Panic, mx, sent))))"

definition submit_to_registry :: "Client \<Rightarrow> RelayerConfig \<Rightarrow> nat \<Rightarrow> nat \<Rightarrow> h256 \<Rightarrow> nat \<Rightarrow> Metrics \<Rightarrow> Tx list \<Rightarrow> dispatch_result" where
  "submit_to_registry cl config src epoch root count mx sent =
     (let reg = registry config;
          calldata = encode_submit_epoch_root cl src epoch root count
      in (case send_evm_tx cl (rpc_url reg) (registry_signer_key reg) (address reg) calldata 0 sent of
            (Ok _, sent) \<Rightarrow> (Ok (), inc_registry_submissions mx, sent)
          | (Err e, sent) \<Rightarrow> (Err e, mx, sent)
          | (Panic, sent) \<Rightarrow> (Panic, mx, sent)))"

fun dispatch_command :: "Client \<Rightarrow> RelayerConfig \<Rightarrow> RelayCommand \<Rightarrow> Metrics \<Rightarrow> Tx list \<Rightarrow> dispatch_result" where
  "dispatch_command cl config (SendToChain target src epoch root) mx sent =
     send_to_chain cl config target src epoch root mx sent"
| "dispatch_command cl config (SubmitToRegistry src epoch root count) mx sent =
     submit_to_registry cl config src epoch root count mx sent"

text \<open>The command loop of the daemon: a failed command is counted and the loop goes on, a panic ends it.\<close>

fun process_commands :: "Client \<Rightarrow> RelayerConfig \<Rightarrow> RelayCommand list \<Rightarrow> Metrics \<Rightarrow> Tx list \<Rightarrow> dispatch_result" where
  "process_commands cl config [] mx sent = (Ok (), mx, sent)"
| "process_commands cl config (cmd # cmds) mx sent =
     (case dispatch_command cl config cmd mx sent of
        (Ok _, mx, sent) \<Rightarrow> process_commands cl config cmds mx sent
      | (Err _, mx, sent) \<Rightarrow> process_commands cl config cmds (inc_relay_failures mx) sent
      | (Panic, mx, sent) \<Rightarrow> (Panic, mx, sent))"

section \<open>Health\<close>

record HealthState =
  started_at :: nat
  configured_chains :: nat
  connected_chains :: nat
  ready :: bool
  last_relay_timestamp :: nat

definition new_health :: "nat \<Rightarrow> nat \<Rightarrow> HealthState" where
  "new_health now configured = \<lparr>started_at = now, configured_chains = configured, connected_chains = 0,
                                ready = False, last_relay_timestamp = 0\<rparr>"

definition uptime_secs :: "nat \<Rightarrow> HealthState \<Rightarrow> nat" where
  "uptime_secs now h = now - started_at h"

text \<open>Counter and flag are two atomics: each call first changes the counter and then, from the value it saw, may store the
  flag. Both halves are steps of their own; a call is one after the other.\<close>

definition count_connected :: "HealthState \<Rightarrow> nat \<times> HealthState" where
  "count_connected h = (connected_chains h, h\<lparr>connected_chains := fetch_add1 (connected_chains h)\<rparr>)"

definition flag_connected :: "nat \<Rightarrow> HealthState \<Rightarrow> ('e, HealthState) result" where
  "flag_connected prev h =
     bind_result (uadd 64 prev 1) (\<lambda>n. Ok (if n \<ge> configured_chains h then h\<lparr>ready := True\<rparr> else h))"

definition mark_chain_connected :: "HealthState \<Rightarrow> ('e, HealthState) result" where
  "mark_chain_connected h = (let (prev, h) = count_connected h in flag_connected prev h)"

definition count_disconnected :: "HealthState \<Rightarrow> nat \<times> HealthState" where
  "count_disconnected h = (connected_chains h, h\<lparr>connected_chains := (connected_chains h + (2 ^ 64 - 1)) mod 2 ^ 64\<rparr>)"

definition flag_disconnected :: "nat \<Rightarrow> HealthState \<Rightarrow> HealthState" where
  "flag_disconnected prev h = (if prev \<le> configured_chains h then h\<lparr>ready := False\<rparr> else h)"

definition mark_chain_disconnected :: "HealthState \<Rightarrow> HealthState" where
  "mark_chain_disconnected h = (let (prev, h) = count_disconnected h in flag_disconnected prev h)"

lemmas mark_defs = mark_chain_connected_def count_connected_def flag_connected_def
  mark_chain_disconnected_def count_disconnected_def flag_disconnected_def

definition record_relay :: "nat \<Rightarrow> HealthState \<Rightarrow> HealthState" where
  "record_relay ts h = h\<lparr>last_relay_timestamp := ts\<rparr>"

definition render_health :: "nat \<Rightarrow> HealthState \<Rightarrow> string" where
  "render_health now h =
     ''{'' @ quoted ''status'' @ '':'' @ quoted (if ready h then ''ok'' else ''starting'')
     @ '','' @ quoted ''uptime_secs'' @ '':'' @ dec (uptime_secs now h)
     @ '','' @ quoted ''configured_chains'' @ '':'' @ dec (configured_chains h)
     @ '','' @ quoted ''connected_chains'' @ '':'' @ dec (connected_chains h)
     @ '','' @ quoted ''last_relay_ts'' @ '':'' @ dec (last_relay_timestamp h)
     @ '','' @ quoted ''version'' @ '':'' @ quoted ''0.2.0'' @ ''}''"

definition starts_with :: "string \<Rightarrow> string \<Rightarrow> bool" where
  "starts_with p s \<longleftrightarrow> take (length p) s = p"

text \<open>The routes of the HTTP server: status line, content type, body.\<close>

definition route :: "nat \<Rightarrow> Metrics \<Rightarrow> HealthState \<Rightarrow> string \<Rightarrow> string \<times> string \<times> string" where
  "route now mx h first_line =
     (if starts_with ''GET /health'' first_line then (''200 OK'', ''application/json'', render_health now h)
      else if starts_with ''GET /ready'' first_line
      then (if ready h then (''200 OK'', ''text/plain'', ''ready'')
            else (''503 Service Unavailable'', ''text/plain'', ''not ready''))
      else if starts_with ''GET /metrics'' first_line then (''200 OK'', ''text/plain; version=0.0.4'', render mx)
      else (''404 Not Found'', ''text/plain'', ''not found''))"

section \<open>Every command is accounted for\<close>

text \<open>The three outcome counters together.\<close>

definition outcomes :: "Metrics \<Rightarrow> nat" where
  "outcomes mx = relays_dispatched mx + registry_submissions mx + relay_failures mx"

definition is_send :: "RelayCommand \<Rightarrow> bool" where
  "is_send cmd = (case cmd of SendToChain _ _ _ _ \<Rightarrow> True | _ \<Rightarrow> False)"

definition oversized_chainid :: "Client \<Rightarrow> bool" where
  "oversized_chainid cl \<longleftrightarrow> (\<exists>rpc n. get_chainid cl rpc = Inr n \<and> 2 ^ 64 \<le> n)"

lemma chainid_u64_Panic: "chainid_u64 cl rpc = Panic \<Longrightarrow> oversized_chainid cl" for cl :: Client
  by (force simp: chainid_u64_def narrow_def oversized_chainid_def not_less split: sum.splits if_splits)

lemma send_evm_tx_facts:
  assumes "send_evm_tx cl rpc key to data v sent = (r, sent')"
  shows "(r = Panic \<longrightarrow> oversized_chainid cl) \<and> (\<exists>txs. sent' = sent @ txs \<and> length txs \<le> 1)"
    and "is_Ok r \<longleftrightarrow> (\<exists>tx hash. sent' = sent @ [tx] \<and> tx_data tx = data \<and> reply cl sent tx = Receipt hash (Some 1))"
  using assms chainid_u64_Panic
  by (auto simp: send_evm_tx_def Let_def is_Ok_def split: option.splits Reply.splits result.splits if_splits)

lemma dispatch_command_effect:
  assumes "dispatch_command cl config cmd mx sent = (r, mx', sent')"
  shows "r = Panic \<Longrightarrow> oversized_chainid cl" "\<exists>txs. sent' = sent @ txs \<and> length txs \<le> 1"
    "mx' = (if is_Ok r then if is_send cmd then inc_relays_dispatched mx else inc_registry_submissions mx else mx)"
proof -
  have "(r = Panic \<longrightarrow> oversized_chainid cl) \<and> (\<exists>txs. sent' = sent @ txs \<and> length txs \<le> 1) \<and>
    mx' = (if is_Ok r then if is_send cmd then inc_relays_dispatched mx else inc_registry_submissions mx else mx)"
  proof (cases cmd)
    case (SendToChain target src epoch root)
    with assms show ?thesis
      by (auto simp: send_to_chain_def Let_def is_Ok_def is_send_def dest!: send_evm_tx_facts(1)
          split: option.splits prod.splits result.splits)
  next
    case (SubmitToRegistry src epoch root count)
    with assms show ?thesis
      by (auto simp: submit_to_registry_def Let_def is_Ok_def is_send_def dest!: send_evm_tx_facts(1)
          split: prod.splits result.splits)
  qed
  then show "r = Panic \<Longrightarrow> oversized_chainid cl" "\<exists>txs. sent' = sent @ txs \<and> length txs \<le> 1"
    "mx' = (if is_Ok r then if is_send cmd then inc_relays_dispatched mx else inc_registry_submissions mx else mx)"
    by blast+
qed

lemma outcomes_inc:
  "outcomes (inc_relays_dispatched mx) mod 2 ^ 64 = (outcomes mx + 1) mod 2 ^ 64"
  "outcomes (inc_registry_submissions mx) mod 2 ^ 64 = (outcomes mx + 1) mod 2 ^ 64"
  "outcomes (inc_relay_failures mx) mod 2 ^ 64 = (outcomes mx + 1) mod 2 ^ 64"
proof -
  have w: "(a + (b + 1) mod n + c) mod n = (a + b + c + 1) mod n" for a b c n :: nat
  proof -
    have "(a + (b + 1) mod n + c) mod n = ((b + 1) mod n + (a + c)) mod n" by (simp add: ac_simps)
    also have "\<dots> = (b + 1 + (a + c)) mod n" by (rule mod_add_left_eq)
    finally show ?thesis by (simp add: ac_simps)
  qed
  show "outcomes (inc_relays_dispatched mx) mod 2 ^ 64 = (outcomes mx + 1) mod 2 ^ 64"
    "outcomes (inc_registry_submissions mx) mod 2 ^ 64 = (outcomes mx + 1) mod 2 ^ 64"
    "outcomes (inc_relay_failures mx) mod 2 ^ 64 = (outcomes mx + 1) mod 2 ^ 64"
    using w [of 0 "relays_dispatched mx" "2 ^ 64" "registry_submissions mx + relay_failures mx"]
      w [of "relays_dispatched mx" "registry_submissions mx" "2 ^ 64" "relay_failures mx"]
      w [of "relays_dispatched mx + registry_submissions mx" "relay_failures mx" "2 ^ 64" 0]
    by (simp_all add: outcomes_def inc_relays_dispatched_def inc_registry_submissions_def inc_relay_failures_def
        fetch_add1_def add.assoc)
qed

lemma inc_frames:
  "epochs_received (inc_relays_dispatched mx) = epochs_received mx" "chain_epochs (inc_relays_dispatched mx) = chain_epochs mx"
  "epochs_received (inc_registry_submissions mx) = epochs_received mx"
  "chain_epochs (inc_registry_submissions mx) = chain_epochs mx"
  "epochs_received (inc_relay_failures mx) = epochs_received mx" "chain_epochs (inc_relay_failures mx) = chain_epochs mx"
  by (simp_all add: inc_relays_dispatched_def inc_registry_submissions_def inc_relay_failures_def)

lemma process_step:
  assumes "dispatch_command cl config cmd mx sent = (r, mx', sent')" and "r \<noteq> Panic"
  shows "\<exists>mx''. process_commands cl config (cmd # cmds) mx sent = process_commands cl config cmds mx'' sent' \<and>
    outcomes mx'' mod 2 ^ 64 = (outcomes mx + 1) mod 2 ^ 64 \<and>
    epochs_received mx'' = epochs_received mx \<and> chain_epochs mx'' = chain_epochs mx"
proof -
  let ?mx = "if is_Ok r then mx' else inc_relay_failures mx'"
  have "process_commands cl config (cmd # cmds) mx sent = process_commands cl config cmds ?mx sent'"
    using assms by (cases r) (auto simp: is_Ok_def)
  moreover have "outcomes ?mx mod 2 ^ 64 = (outcomes mx + 1) mod 2 ^ 64"
    "epochs_received ?mx = epochs_received mx" "chain_epochs ?mx = chain_epochs mx"
    unfolding dispatch_command_effect(3) [OF assms(1)] using outcomes_inc [of mx]
    by (auto simp: inc_frames simp del: One_nat_def)
  ultimately show ?thesis by blast
qed

text \<open>
  The command loop gets through every list of commands unless a node reports a chain identifier of more than 64 bits; an
  error never stops it: each command is counted exactly once, as a dispatched relay, a registry submission or a failure (the
  64-bit counters wrap), and sends at most one transaction. The counters of received epochs are never touched.
\<close>

lemma commands_accounted:
  assumes "process_commands cl config cmds mx sent = (Ok u, mx', sent')"
  shows "outcomes mx' mod 2 ^ 64 = (outcomes mx + length cmds) mod 2 ^ 64 \<and>
    (\<exists>txs. sent' = sent @ txs \<and> length txs \<le> length cmds) \<and>
    epochs_received mx' = epochs_received mx \<and> chain_epochs mx' = chain_epochs mx"
  using assms
proof (induction cmds arbitrary: mx sent)
  case (Cons cmd cmds)
  obtain r mx1 sent1 where d: "dispatch_command cl config cmd mx sent = (r, mx1, sent1)"
    by (cases "dispatch_command cl config cmd mx sent") auto
  with Cons.prems have np: "r \<noteq> Panic" by auto
  obtain mx2 where step: "process_commands cl config (cmd # cmds) mx sent = process_commands cl config cmds mx2 sent1"
    and o: "outcomes mx2 mod 2 ^ 64 = (outcomes mx + 1) mod 2 ^ 64"
    and f: "epochs_received mx2 = epochs_received mx" "chain_epochs mx2 = chain_epochs mx"
    using process_step [OF d np] by blast
  obtain txs where t: "sent1 = sent @ txs" "length txs \<le> 1" using dispatch_command_effect(2) [OF d] by blast
  from Cons.IH [of mx2 sent1] Cons.prems step
  have IH: "outcomes mx' mod 2 ^ 64 = (outcomes mx2 + length cmds) mod 2 ^ 64"
    "\<exists>us. sent' = sent1 @ us \<and> length us \<le> length cmds"
    "epochs_received mx' = epochs_received mx2" "chain_epochs mx' = chain_epochs mx2" by auto
  have "outcomes mx' mod 2 ^ 64 = (outcomes mx + length (cmd # cmds)) mod 2 ^ 64"
    using mod_add_cong [OF o refl, of "length cmds"] IH(1) by simp
  moreover from IH(2) t have "\<exists>us. sent' = sent @ us \<and> length us \<le> length (cmd # cmds)" by force
  ultimately show ?case using IH(3,4) f by simp
qed simp

lemma commands_frame:
  "process_commands cl config cmds mx sent = (r, mx', sent') \<Longrightarrow> epochs_received mx' = epochs_received mx"
proof (induction cmds arbitrary: mx sent)
  case (Cons cmd cmds)
  obtain r1 mx1 sent1 where d: "dispatch_command cl config cmd mx sent = (r1, mx1, sent1)"
    by (cases "dispatch_command cl config cmd mx sent") auto
  then have "epochs_received mx1 = epochs_received mx" by (simp add: dispatch_command_effect(3) [OF d] inc_frames)
  with Cons d show ?case by (cases r1) (auto simp: inc_frames)
qed simp

lemma commands_panic: "process_commands cl config cmds mx sent = (Panic, mx', sent') \<Longrightarrow> oversized_chainid cl"
proof (induction cmds arbitrary: mx sent)
  case (Cons cmd cmds)
  obtain r mx1 sent1 where d: "dispatch_command cl config cmd mx sent = (r, mx1, sent1)"
    by (cases "dispatch_command cl config cmd mx sent") auto
  with Cons dispatch_command_effect(1) [OF d] show ?case by (cases r) auto
qed simp

lemma commands_no_Err: "fst (process_commands cl config cmds mx sent) \<noteq> Err e"
  by (induction cmds arbitrary: mx sent) (auto split: prod.splits result.splits)

definition sample_client :: Client where
  "sample_client = \<lparr>try_provider = (\<lambda>_. None), parse_wallet = (\<lambda>_. None), parse_address = (\<lambda>_. Some (replicate 20 1)),
     reply = (\<lambda>sent _. Receipt [1] (if sent = [] then Some 1 else Some 0)), get_chainid = (\<lambda>_. Inr 1),
     abi_encode = (\<lambda>_. []), keccak256 = (\<lambda>_. [1, 2, 3, 4])\<rparr>"

section \<open>Readiness\<close>

text \<open>A history of connections (\<open>True\<close>) and disconnections, and the number of connected chains it leaves.\<close>

fun health_run :: "HealthState \<Rightarrow> bool list \<Rightarrow> ('e, HealthState) result" where
  "health_run h [] = Ok h"
| "health_run h (up # steps) =
     (if up then bind_result (mark_chain_connected h) (\<lambda>h. health_run h steps)
      else health_run (mark_chain_disconnected h) steps)"

fun plausible :: "nat \<Rightarrow> bool list \<Rightarrow> bool" where
  "plausible n [] = True"
| "plausible n (up # steps) = (if up then Suc n < 2 ^ 64 \<and> plausible (Suc n) steps else 0 < n \<and> plausible (n - 1) steps)"

fun connected_after :: "nat \<Rightarrow> bool list \<Rightarrow> nat" where
  "connected_after n [] = n"
| "connected_after n (up # steps) = connected_after (if up then Suc n else n - 1) steps"

lemma health_run_ready:
  assumes "0 < configured_chains h" "connected_chains h < 2 ^ 64" "ready h \<longleftrightarrow> configured_chains h \<le> connected_chains h"
    and "plausible (connected_chains h) steps"
  shows "\<exists>h'. health_run h steps = (Ok h' :: ('e, HealthState) result) \<and>
    connected_chains h' = connected_after (connected_chains h) steps \<and> configured_chains h' = configured_chains h \<and>
    (ready h' \<longleftrightarrow> configured_chains h' \<le> connected_chains h')"
  using assms
proof (induction steps arbitrary: h)
  case (Cons up steps)
  show ?case
  proof (cases up)
    case True
    with Cons.prems(4) have lt: "Suc (connected_chains h) < 2 ^ 64" by simp
    then obtain h1 where h1: "mark_chain_connected h = (Ok h1 :: ('e, HealthState) result)"
      "connected_chains h1 = Suc (connected_chains h)" "configured_chains h1 = configured_chains h"
      "ready h1 \<longleftrightarrow> configured_chains h \<le> Suc (connected_chains h)"
      using Cons.prems(3) by (auto simp: mark_defs uadd_def fetch_add1_def Let_def)
    with Cons.IH [of h1] Cons.prems True lt show ?thesis by simp
  next
    case False
    with Cons.prems(4) have pos: "0 < connected_chains h" by simp
    let ?h1 = "mark_chain_disconnected h"
    have "(connected_chains h + (2 ^ 64 - 1)) mod 2 ^ 64 = connected_chains h - 1"
    proof -
      have "connected_chains h + (2 ^ 64 - 1) = connected_chains h - 1 + 2 ^ 64" using pos by simp
      then show ?thesis using Cons.prems(2) by (simp only: mod_add_self2) simp
    qed
    then have h1: "connected_chains ?h1 = connected_chains h - 1" "configured_chains ?h1 = configured_chains h"
      "ready ?h1 \<longleftrightarrow> (if connected_chains h \<le> configured_chains h then False else ready h)"
      by (auto simp: mark_defs Let_def)
    have "ready ?h1 \<longleftrightarrow> configured_chains ?h1 \<le> connected_chains ?h1"
      using h1 Cons.prems(1,3) pos by auto
    with Cons.IH [of ?h1] h1 Cons.prems False pos show ?thesis by simp
  qed
qed simp

text \<open>
  Calls that overlap can leave counter and flag apart. A watcher counts a connection, another one disconnects the only chain
  in between, and the first then stores the flag: the service is ready with no chain connected.
\<close>

lemma overlapping_marks:
  "let (prev, h1) = count_connected (new_health now 1); h2 = mark_chain_disconnected h1
   in \<exists>h3. flag_connected prev h2 = (Ok h3 :: ('e, HealthState) result) \<and> ready h3 \<and> connected_chains h3 = 0"
  by (simp add: mark_defs new_health_def fetch_add1_def uadd_def)

text \<open>
  After any history in which no chain disconnects that was not connected, the health state counts the
  connected chains and is ready exactly if they are at least the configured ones.
\<close>

lemma health_ready_iff_connected:
  assumes "0 < configured" and "plausible 0 steps"
  shows "\<exists>h. health_run (new_health now configured) steps = (Ok h :: ('e, HealthState) result) \<and>
    connected_chains h = connected_after 0 steps \<and> (ready h \<longleftrightarrow> configured \<le> connected_after 0 steps)"
  using health_run_ready [of "new_health now configured" steps, where ?'e = 'e] assms by (auto simp: new_health_def)

end
