(* ===== verification/Relayer_Daemon.thy ===== *)
theory Relayer_Daemon
  imports Relayer_Dispatch "HOL-Library.Sublist" "HOL-Library.Multiset"
begin

text \<open>
  The daemon as concurrent tasks (\<open>run_relayer\<close> of \<open>relayer/src/lib.rs\<close>): one watcher per chain, the
  aggregator and the command loop, joined by two channels of 256 entries. A task that sends on a full channel or
  receives from an empty one waits. A scheduler picks the task that runs next, and every order it can pick is allowed.
  A watcher is the list of the events it still has to send, which the watchers of \<open>Relayer_Events\<close> compute from the logs of
  its chain, and whether it goes on watching afterwards. A polling watcher always does (\<open>polling_goes_on\<close>), as does a
  subscription that stays open; a watcher whose stream ends, that cannot reach its node or that panics leaves and drops its end
  of the channel, and so does one whose send fails because the aggregator is gone. Delays only influence the order. The HTTP
  server reads counters and health state at any time and changes nothing; times count from the start.
\<close>

section \<open>Tasks and channels\<close>

definition CHANNEL_CAPACITY :: nat where
  "CHANNEL_CAPACITY = 256"

text \<open>A running aggregator: its batch, the events of a flush in progress, the commands of an event being dispatched, and
  whether the watchers are gone.\<close>

datatype Aggregator = Running "EpochEvent list" "EpochEvent list" "RelayCommand list" bool | Stopped | Panicked

text \<open>\<open>run_relayer\<close> is running, has returned, or was ended by a panic of the command loop.\<close>

datatype Status = Active | Returned | Aborted

type_synonym Watcher = "EpochEvent list \<times> bool"

record Daemon =
  watchers :: "Watcher list"
  event_queue :: "EpochEvent list"
  aggregator :: Aggregator
  cmd_queue :: "RelayCommand list"
  metrics :: Metrics
  health :: HealthState
  sent :: "Tx list"
  status :: Status

definition run_relayer :: "RelayerConfig \<Rightarrow> (nat \<Rightarrow> Watcher) \<Rightarrow> Daemon" where
  "run_relayer cfg sends = \<lparr>watchers = map sends [0..<length (chains cfg)], event_queue = [],
     aggregator = Running [] [] [] False, cmd_queue = [], metrics = new_metrics,
     health = new_health 0 (length (chains cfg) mod 2 ^ 64), sent = [], status = Active\<rparr>"

definition leave :: "nat \<Rightarrow> Daemon \<Rightarrow> Daemon" where
  "leave i d = d\<lparr>watchers := take i (watchers d) @ drop (Suc i) (watchers d)\<rparr>"

definition watcher_step :: "nat \<Rightarrow> Daemon \<Rightarrow> Daemon option" where
  "watcher_step i d =
     (if i < length (watchers d)
      then (case watchers d ! i of
              ([], stays) \<Rightarrow> if stays then None else Some (leave i d)
            | (ev # evs, stays) \<Rightarrow>
                if aggregator d = Panicked then Some (leave i d)
                else if length (event_queue d) < CHANNEL_CAPACITY
                then Some (d\<lparr>watchers := (watchers d)[i := (evs, stays)], event_queue := event_queue d @ [ev]\<rparr>)
                else None)
      else None)"

text \<open>What the aggregator does next. A timeout that finds an empty batch changes nothing and is no step.\<close>

definition take_event :: "RelayerConfig \<Rightarrow> EpochEvent list \<Rightarrow> EpochEvent \<Rightarrow> Aggregator" where
  "take_event cfg batch ev =
     (let mr = metadata_resistance cfg in
      if batching_enabled mr
      then (if length (batch @ [ev]) \<ge> batch_size mr then Running [] (batch @ [ev]) [] False
            else Running (batch @ [ev]) [] [] False)
      else Running batch [] (dispatch_event cfg ev) False)"

fun aggregator_step :: "RelayerConfig \<Rightarrow> bool \<Rightarrow> Aggregator \<Rightarrow> Daemon \<Rightarrow> Daemon option" where
  "aggregator_step cfg timeout (Running batch flushing (cmd # cmds) closing) d =
     (if length (cmd_queue d) < CHANNEL_CAPACITY
      then Some (d\<lparr>aggregator := Running batch flushing cmds closing, cmd_queue := cmd_queue d @ [cmd]\<rparr>) else None)"
| "aggregator_step cfg timeout (Running batch (ev # evs) [] closing) d =
     (if empty_jitter cfg then Some (d\<lparr>aggregator := Panicked, event_queue := []\<rparr>)
      else Some (d\<lparr>aggregator := Running batch evs (dispatch_event cfg ev) closing\<rparr>))"
| "aggregator_step cfg timeout (Running batch [] [] True) d = Some (d\<lparr>aggregator := Stopped\<rparr>)"
| "aggregator_step cfg timeout (Running batch [] [] False) d =
     (if timeout
      then (if batching_enabled (metadata_resistance cfg) \<and> batch \<noteq> []
            then Some (d\<lparr>aggregator := Running [] batch [] False\<rparr>) else None)
      else (case event_queue d of
              ev # q \<Rightarrow> Some (d\<lparr>aggregator := take_event cfg batch ev, event_queue := q\<rparr>)
            | [] \<Rightarrow> if watchers d = [] then Some (d\<lparr>aggregator := Running [] batch [] True\<rparr>) else None))"
| "aggregator_step cfg timeout Stopped d = None"
| "aggregator_step cfg timeout Panicked d = None"

definition main_step :: "Client \<Rightarrow> RelayerConfig \<Rightarrow> Daemon \<Rightarrow> Daemon option" where
  "main_step cl cfg d =
     (case cmd_queue d of
        cmd # q \<Rightarrow> (case process_commands cl cfg [cmd] (metrics d) (sent d) of
                      (r, mx, txs) \<Rightarrow> Some (d\<lparr>cmd_queue := q, metrics := mx, sent := txs,
                                             status := if r = Panic then Aborted else Active\<rparr>))
      | [] \<Rightarrow> if aggregator d \<in> {Stopped, Panicked} then Some (d\<lparr>status := Returned\<rparr>) else None)"

datatype Task = Watch nat | Aggregate bool | MainLoop

fun task_step :: "Client \<Rightarrow> RelayerConfig \<Rightarrow> Task \<Rightarrow> Daemon \<Rightarrow> Daemon option" where
  "task_step cl cfg (Watch i) d = watcher_step i d"
| "task_step cl cfg (Aggregate timeout) d = aggregator_step cfg timeout (aggregator d) d"
| "task_step cl cfg MainLoop d = main_step cl cfg d"

inductive daemon_step :: "Client \<Rightarrow> RelayerConfig \<Rightarrow> Daemon \<Rightarrow> Daemon \<Rightarrow> bool" for cl cfg where
  watcher: "status d = Active \<Longrightarrow> watcher_step i d = Some d' \<Longrightarrow> daemon_step cl cfg d d'"
| aggregates: "status d = Active \<Longrightarrow> aggregator_step cfg timeout (aggregator d) d = Some d' \<Longrightarrow> daemon_step cl cfg d d'"
| main_loop: "status d = Active \<Longrightarrow> main_step cl cfg d = Some d' \<Longrightarrow> daemon_step cl cfg d d'"

inductive daemon_run :: "Client \<Rightarrow> RelayerConfig \<Rightarrow> (nat \<Rightarrow> Watcher) \<Rightarrow> nat \<Rightarrow> Daemon \<Rightarrow> bool" for cl cfg sends where
  started: "daemon_run cl cfg sends 0 (run_relayer cfg sends)"
| continued: "daemon_run cl cfg sends n d \<Longrightarrow> daemon_step cl cfg d d' \<Longrightarrow> daemon_run cl cfg sends (Suc n) d'"

text \<open>Running a given schedule; a task that cannot run is passed over.\<close>

fun run_schedule :: "Client \<Rightarrow> RelayerConfig \<Rightarrow> Task list \<Rightarrow> Daemon \<Rightarrow> Daemon" where
  "run_schedule cl cfg [] d = d"
| "run_schedule cl cfg (t # ts) d =
     run_schedule cl cfg ts (if status d \<noteq> Active then d else case task_step cl cfg t d of Some d' \<Rightarrow> d' | None \<Rightarrow> d)"

lemma task_step_daemon_step: "status d = Active \<Longrightarrow> task_step cl cfg t d = Some d' \<Longrightarrow> daemon_step cl cfg d d'"
  by (cases t) (auto intro: daemon_step.intros)

lemma run_schedule_reaches: "daemon_run cl cfg sends n d \<Longrightarrow> \<exists>m. daemon_run cl cfg sends m (run_schedule cl cfg ts d)"
proof (induction ts arbitrary: n d)
  case (Cons t ts)
  let ?d = "if status d \<noteq> Active then d else case task_step cl cfg t d of Some d' \<Rightarrow> d' | None \<Rightarrow> d"
  have "\<exists>n. daemon_run cl cfg sends n ?d"
    using Cons.prems continued [OF Cons.prems] task_step_daemon_step [of d cl cfg t] by (auto split: option.splits)
  then show ?case using Cons.IH by auto
qed auto

section \<open>Process start\<close>

text \<open>The command line, the file system and the TOML parser give the configuration, or the process ends with status one. It
  ends with status zero if \<open>run_relayer\<close> returns, which has no error to report once its tasks are running.\<close>

record Cli =
  config :: string
  log_format :: string

record Host =
  read_to_string :: "string \<Rightarrow> string option"
  toml_from_str :: "string \<Rightarrow> RelayerConfig option"

datatype Process = ExitFailure string | Launched RelayerConfig Daemon

definition relayer_main :: "Host \<Rightarrow> Cli \<Rightarrow> (nat \<Rightarrow> Watcher) \<Rightarrow> Process" where
  "relayer_main host cli sends =
     (case read_to_string host (config cli) of
        None \<Rightarrow> ExitFailure ''Error: failed to read config file''
      | Some config_contents \<Rightarrow>
          (case toml_from_str host config_contents of
             None \<Rightarrow> ExitFailure ''Error: invalid config file''
           | Some cfg \<Rightarrow> Launched cfg (run_relayer cfg sends)))"

section \<open>Order of the events\<close>

text \<open>The streams have been merged into \<open>evs\<close> so far, with \<open>ws\<close> still to come.\<close>

definition merged_into :: "'a list list \<Rightarrow> 'a list \<Rightarrow> 'a list list \<Rightarrow> bool" where
  "merged_into streams evs ws \<longleftrightarrow> mset evs + mset (concat ws) = mset (concat streams) \<and>
     (\<forall>s\<in>set streams. subseq s evs \<or> (\<exists>p. \<exists>w\<in>set ws. s = p @ w \<and> subseq p evs))"





lemma merged_end: "merged_into streams evs [] \<Longrightarrow> mset evs = mset (concat streams) \<and> (\<forall>s\<in>set streams. subseq s evs)"
  by (simp add: merged_into_def)

section \<open>Invariants\<close>


text \<open>The commands of the events an aggregator holds.\<close>

definition commands_of :: "RelayerConfig \<Rightarrow> EpochEvent list \<Rightarrow> RelayCommand list" where
  "commands_of cfg evs = concat (map (dispatch_event cfg) evs)"

lemma commands_of_simps [simp]:
  "commands_of cfg [] = []" "commands_of cfg (e # es) = dispatch_event cfg e @ commands_of cfg es"
  "commands_of cfg (xs @ ys) = commands_of cfg xs @ commands_of cfg ys"
  by (simp_all add: commands_of_def)



















section \<open>Bounded work and absence of deadlocks\<close>

text \<open>How many steps are left: an event in a watcher is sent, received, moved to a flush and taken up, and each of its commands
  is sent and handled.\<close>

definition cost :: "RelayerConfig \<Rightarrow> nat \<Rightarrow> EpochEvent list \<Rightarrow> nat" where
  "cost cfg n evs = sum_list (map (\<lambda>ev. n + 2 * length (dispatch_event cfg ev)) evs)"

lemma cost_simps [simp]:
  "cost cfg n [] = 0" "cost cfg n (ev # evs) = n + 2 * length (dispatch_event cfg ev) + cost cfg n evs"
  "cost cfg n (xs @ ys) = cost cfg n xs + cost cfg n ys"
  by (simp_all add: cost_def)
















section \<open>The daemon refines the sequential pipeline\<close>













end
