(* ===== verification/Relayer_Server.thy ===== *)
theory Relayer_Server
  imports Relayer_Dispatch
begin

text \<open>
  The HTTP servers of the relayer (\<open>serve_health\<close> of \<open>relayer/src/health.rs\<close> and \<open>serve_metrics\<close> of
  \<open>metrics.rs\<close>) from the bytes of a request to the text of the answer, with the lossy UTF-8 decoding and the line
  splitting of the standard library. A connection comes with what is read from it and with the state shared with the daemon at
  that time. A client that follows the protocol reads the answers back.
\<close>

section \<open>Lossy decoding\<close>

text \<open>A string is the list of its UTF-8 bytes. The conditions on the bytes after a first byte; \<open>None\<close> if no
  character starts with it.\<close>

definition between :: "nat \<Rightarrow> nat \<Rightarrow> u8 \<Rightarrow> bool" where
  "between lo hi b \<longleftrightarrow> lo \<le> unat b \<and> unat b \<le> hi"

definition continuation :: "u8 \<Rightarrow> (u8 \<Rightarrow> bool) list option" where
  "continuation b =
     (let cont = between 0x80 0xBF in
      if between 0 0x7F b then Some []
      else if between 0xC2 0xDF b then Some [cont]
      else if b = 0xE0 then Some [between 0xA0 0xBF, cont]
      else if b = 0xED then Some [between 0x80 0x9F, cont]
      else if between 0xE1 0xEF b then Some [cont, cont]
      else if b = 0xF0 then Some [between 0x90 0xBF, cont, cont]
      else if between 0xF1 0xF3 b then Some [cont, cont, cont]
      else if b = 0xF4 then Some [between 0x80 0x8F, cont, cont]
      else None)"

fun matched :: "('a \<Rightarrow> bool) list \<Rightarrow> 'a list \<Rightarrow> nat" where
  "matched (p # ps) (x # xs) = (if p x then Suc (matched ps xs) else 0)"
| "matched _ _ = 0"

definition REPLACEMENT_CHARACTER :: "u8 list" where
  "REPLACEMENT_CHARACTER = [0xEF, 0xBF, 0xBD]"

fun from_utf8_lossy :: "u8 list \<Rightarrow> u8 list" where
  "from_utf8_lossy [] = []"
| "from_utf8_lossy (b # bs) =
     (case continuation b of
        None \<Rightarrow> REPLACEMENT_CHARACTER @ from_utf8_lossy bs
      | Some ps \<Rightarrow>
          (let n = matched ps bs in
           (if n = length ps then b # take n bs else REPLACEMENT_CHARACTER) @ from_utf8_lossy (drop n bs)))"

text \<open>\<open>lines().next().unwrap_or("")\<close>: up to the first line feed, without a carriage return before it.\<close>

definition first_line :: "u8 list \<Rightarrow> u8 list" where
  "first_line s =
     (let l = takeWhile (\<lambda>b. b \<noteq> 10) s in if length l < length s \<and> l \<noteq> [] \<and> last l = 13 then butlast l else l)"

definition text_of :: "u8 list \<Rightarrow> string" where
  "text_of bs = map (\<lambda>b. char_of (unat b)) bs"

section \<open>Connections\<close>

definition crlf :: string where
  "crlf = [CHR 0x0D, CHR 0x0A]"

record Connection =
  at_time :: nat
  conn_metrics :: Metrics
  conn_health :: HealthState
  request :: "u8 list option"

definition health_response :: "string \<times> string \<times> string \<Rightarrow> string" where
  "health_response r =
     (case r of (status_code, content_type, body) \<Rightarrow>
        ''HTTP/1.1 '' @ status_code @ crlf @ ''Content-Type: '' @ content_type @ crlf @
        ''Content-Length: '' @ dec (length body) @ crlf @ ''Connection: close'' @ crlf @ crlf @ body)"

text \<open>At most 1024 bytes are read; an empty or failed read ends the connection without an answer.\<close>

definition handle_connection :: "Connection \<Rightarrow> string option" where
  "handle_connection c =
     (case request c of
        None \<Rightarrow> None
      | Some bytes \<Rightarrow>
          (if bytes = [] then None
           else Some (health_response (route (at_time c) (conn_metrics c) (conn_health c)
                  (text_of (first_line (from_utf8_lossy (take 1024 bytes))))))))"

text \<open>The loop over accepted connections; \<open>None\<close> is a failed accept, and without a listener there is none.\<close>

definition serve_health :: "bool \<Rightarrow> Connection option list \<Rightarrow> string option list" where
  "serve_health bound conns =
     (if bound then concat (map (\<lambda>conn. case conn of None \<Rightarrow> [] | Some c \<Rightarrow> [handle_connection c]) conns) else [])"

definition metrics_response :: "Metrics \<Rightarrow> string" where
  "metrics_response mx =
     (let body = render mx in
      ''HTTP/1.1 200 OK'' @ crlf @ ''Content-Type: text/plain; version=0.0.4'' @ crlf @
      ''Content-Length: '' @ dec (length body) @ crlf @ crlf @ body)"

definition serve_metrics :: "bool \<Rightarrow> Metrics option list \<Rightarrow> string list" where
  "serve_metrics bound conns =
     (if bound then concat (map (\<lambda>conn. case conn of None \<Rightarrow> [] | Some mx \<Rightarrow> [metrics_response mx]) conns) else [])"

section \<open>A client\<close>

definition read_line :: "string \<Rightarrow> string \<times> string" where
  "read_line s = (takeWhile (\<lambda>c. c \<noteq> CHR 0x0D) s, drop 2 (dropWhile (\<lambda>c. c \<noteq> CHR 0x0D) s))"

lemma read_line_shorter: "fst (read_line s) \<noteq> [] \<Longrightarrow> length (snd (read_line s)) < length s"
  by (cases s) (auto simp: read_line_def less_Suc_eq_le intro: diff_le_self le_trans length_dropWhile_le)

function read_headers :: "string \<Rightarrow> string list \<times> string" where
  "read_headers s =
     (let (l, rest) = read_line s in
      if l = [] then ([], rest) else (let (hs, body) = read_headers rest in (l # hs, body)))"
  by auto
termination
proof (relation "measure length")
  fix s x l rest
  assume "x = read_line s" "(l, rest) = x" "l \<noteq> []"
  then show "(rest, s) \<in> measure length" using read_line_shorter [of s] by (metis fst_conv in_measure snd_conv)
qed simp

declare read_headers.simps [simp del]

definition header_value :: "string \<Rightarrow> string list \<Rightarrow> string option" where
  "header_value key hs = map_option (drop (length key + 2)) (find (starts_with (key @ '': '')) hs)"

text \<open>Status, content type and body; \<open>None\<close> if a header is missing or the length is not that of the body.\<close>

definition read_response :: "string \<Rightarrow> (string \<times> string \<times> string) option" where
  "read_response s =
     (let (status_line, rest) = read_line s; (hs, body) = read_headers rest in
      case (header_value ''Content-Type'' hs, header_value ''Content-Length'' hs) of
        (Some ct, Some n) \<Rightarrow> if undec n = length body then Some (drop 9 status_line, ct, body) else None
      | _ \<Rightarrow> None)"

section \<open>Requests\<close>

definition requests :: "string \<Rightarrow> u8 list \<Rightarrow> bool" where
  "requests q bytes \<longleftrightarrow> take (length q) bytes = as_bytes q"

lemma lossy_prefix:
  "list_all (\<lambda>b. unat b \<le> 0x7F) p \<Longrightarrow> take (length p) (from_utf8_lossy bs) = p \<longleftrightarrow> take (length p) bs = p"
proof (induction p arbitrary: bs)
  case (Cons a p)
  show ?case
  proof (cases bs)
    case (Cons b bs')
    show ?thesis
    proof (cases "unat b \<le> 0x7F")
      case True
      then have "from_utf8_lossy bs = b # from_utf8_lossy bs'"
        using Cons by (simp add: continuation_def between_def)
      then show ?thesis using Cons.IH Cons.prems Cons by simp
    next
      case False
      then have "b \<noteq> a" "a \<noteq> 0xEF" using Cons.prems by auto
      moreover have "\<exists>x xs. from_utf8_lossy bs = x # xs \<and> (x = b \<or> x = 0xEF)"
        using Cons by (auto simp: Let_def REPLACEMENT_CHARACTER_def split: option.splits)
      ultimately show ?thesis using Cons by auto
    qed
  qed simp
qed simp

lemma takeWhile_prefix: "list_all P p \<Longrightarrow> take (length p) (takeWhile P s) = p \<longleftrightarrow> take (length p) s = p"
proof (induction p arbitrary: s)
  case (Cons a p)
  then show ?case by (cases s) auto
qed simp

lemma first_line_prefix:
  assumes "10 \<notin> set p" and "13 \<notin> set p"
  shows "take (length p) (first_line s) = p \<longleftrightarrow> take (length p) s = p"
proof -
  let ?l = "takeWhile (\<lambda>b. b \<noteq> 10) s"
  have "take (length p) ?l = p \<longleftrightarrow> take (length p) s = p"
    using assms(1) by (intro takeWhile_prefix) (auto simp: list_all_iff)
  moreover have "take (length p) (butlast ?l) = p \<longleftrightarrow> take (length p) ?l = p" if "?l \<noteq> []" "last ?l = 13"
  proof (cases "length p < length ?l")
    case True
    then show ?thesis by (simp add: take_butlast)
  next
    case False
    then have "take (length p) ?l \<noteq> p" using that assms(2) by (metis last_in_set not_less take_all)
    moreover have "length (take (length p) (butlast ?l)) \<noteq> length p"
      using False that(1) by (cases ?l) auto
    ultimately show ?thesis by metis
  qed
  ultimately show ?thesis by (auto simp: first_line_def Let_def)
qed

lemma char_of_u8: "char_of (unat b) = c \<longleftrightarrow> b = of_char c" for b :: u8
proof
  assume "char_of (unat b) = c"
  then have "of_char c = unat b mod 256" by (metis of_char_of)
  moreover have "unat b < 256" using unsigned_less [of b, where ?'a = nat] by simp
  ultimately have "of_nat (of_char c) = b" by simp
  then show "b = of_char c" by (simp add: of_nat_of_char)
next
  assume "b = of_char c"
  then have "b = of_nat (of_char c)" by (simp add: of_nat_of_char)
  then show "char_of (unat b) = c" by (simp add: unat_of_nat_u8)
qed

lemma text_of_prefix: "starts_with q (text_of bs) \<longleftrightarrow> requests q bs"
proof -
  have "text_of bs = q \<longleftrightarrow> bs = as_bytes q" for bs q
  proof (induction q arbitrary: bs)
    case (Cons c q)
    then show ?case by (cases bs) (auto simp: text_of_def as_bytes_def char_of_u8)
  qed (simp add: text_of_def)
  then show ?thesis by (simp add: starts_with_def requests_def take_map text_of_def)
qed

lemma route_request:
  assumes "list_all (\<lambda>c. of_char c \<le> (0x7F :: nat) \<and> c \<noteq> CHR 0x0A \<and> c \<noteq> CHR 0x0D) q" and "length q \<le> 1024"
  shows "starts_with q (text_of (first_line (from_utf8_lossy (take 1024 bytes)))) \<longleftrightarrow> requests q bytes"
proof -
  have small: "unat (of_char c :: u8) \<le> 0x7F" if "c \<in> set q" for c
  proof -
    have "unat (of_nat (of_char c) :: u8) = of_char c mod 256" by (rule unat_of_nat_u8)
    then show ?thesis using assms(1) that by (auto simp: list_all_iff of_nat_of_char)
  qed
  have "(of_char (CHR 0x0A) :: u8) = 10" "(of_char (CHR 0x0D) :: u8) = 13" by simp_all
  then have ends: "(10 :: u8) = of_char c \<Longrightarrow> c = CHR 0x0A" "(13 :: u8) = of_char c \<Longrightarrow> c = CHR 0x0D" for c
    using of_char_u8_eq_iff by metis+
  have "list_all (\<lambda>b. unat b \<le> 0x7F) (as_bytes q)"
    using small by (simp add: as_bytes_def list_all_iff)
  moreover have "10 \<notin> set (as_bytes q)" "13 \<notin> set (as_bytes q)"
    using assms(1) ends by (fastforce simp: as_bytes_def list_all_iff)+
  ultimately have "take (length (as_bytes q)) (first_line (from_utf8_lossy (take 1024 bytes))) = as_bytes q \<longleftrightarrow>
      take (length (as_bytes q)) (take 1024 bytes) = as_bytes q"
    using first_line_prefix lossy_prefix by blast
  then show ?thesis using assms(2) by (simp add: text_of_prefix requests_def min_def)
qed

lemma route_bytes:
  "route t mx h (text_of (first_line (from_utf8_lossy (take 1024 bytes)))) =
     (if requests ''GET /health'' bytes then (''200 OK'', ''application/json'', render_health t h)
      else if requests ''GET /ready'' bytes
      then (if ready h then (''200 OK'', ''text/plain'', ''ready'') else (''503 Service Unavailable'', ''text/plain'', ''not ready''))
      else if requests ''GET /metrics'' bytes then (''200 OK'', ''text/plain; version=0.0.4'', render mx)
      else (''404 Not Found'', ''text/plain'', ''not found''))"
  using route_request [of "''GET /health''" bytes] route_request [of "''GET /ready''" bytes]
    route_request [of "''GET /metrics''" bytes]
  by (simp add: route_def)

section \<open>Answers\<close>

lemma read_line_append: "CHR 0x0D \<notin> set l \<Longrightarrow> read_line (l @ crlf @ rest) = (l, rest)"
  by (induction l) (auto simp: read_line_def crlf_def)

lemma read_headers_append:
  "CHR 0x0D \<notin> set l \<Longrightarrow> l \<noteq> [] \<Longrightarrow>
     read_headers (l @ crlf @ rest) = (let (hs, body) = read_headers rest in (l # hs, body))"
  "read_headers (crlf @ rest) = ([], rest)"
  by (subst read_headers.simps, simp add: read_line_append Let_def case_prod_unfold)
    (subst read_headers.simps, simp add: read_line_append [of "[]", simplified])

lemma read_health_response:
  assumes "CHR 0x0D \<notin> set status" and "CHR 0x0D \<notin> set ct"
  shows "read_response (health_response (status, ct, body)) = Some (status, ct, body)"
proof -
  have n: "CHR 0x0D \<notin> set (dec n)" for n by (rule dec_no_separator) simp
  have line: "read_line (health_response (status, ct, body)) = (''HTTP/1.1 '' @ status,
      (''Content-Type: '' @ ct) @ crlf @ (''Content-Length: '' @ dec (length body)) @ crlf @ ''Connection: close'' @ crlf @ crlf @ body)"
    using read_line_append [of "''HTTP/1.1 '' @ status"] assms(1) by (simp add: health_response_def)
  have "read_headers ((''Content-Type: '' @ ct) @ crlf @ (''Content-Length: '' @ dec (length body)) @ crlf @
      ''Connection: close'' @ crlf @ crlf @ body) =
      ([''Content-Type: '' @ ct, ''Content-Length: '' @ dec (length body), ''Connection: close''], body)"
    using assms(2) n [of "length body"] read_headers_append(1) [of "''Content-Type: '' @ ct"]
      read_headers_append(1) [of "''Content-Length: '' @ dec (length body)"] read_headers_append(1) [of "''Connection: close''"]
      read_headers_append(2) [of body]
    by (simp add: Let_def)
  with line show ?thesis
    by (simp add: read_response_def header_value_def starts_with_def undec_dec)
qed

lemma read_metrics_response: "read_response (metrics_response mx) = Some (''200 OK'', ''text/plain; version=0.0.4'', render mx)"
proof -
  let ?n = "''Content-Length: '' @ dec (length (render mx))"
  have n: "CHR 0x0D \<notin> set ?n" using dec_no_separator [of "CHR 0x0D"] by simp
  have line: "read_line (metrics_response mx) = (''HTTP/1.1 200 OK'',
      ''Content-Type: text/plain; version=0.0.4'' @ crlf @ ?n @ crlf @ crlf @ render mx)"
    using read_line_append [of "''HTTP/1.1 200 OK''"] by (simp add: metrics_response_def Let_def)
  have "read_headers (''Content-Type: text/plain; version=0.0.4'' @ crlf @ ?n @ crlf @ crlf @ render mx) =
      ([''Content-Type: text/plain; version=0.0.4'', ?n], render mx)"
    using n read_headers_append(1) [of "''Content-Type: text/plain; version=0.0.4''"] read_headers_append(1) [of ?n]
      read_headers_append(2) [of "render mx"]
    by (simp add: Let_def)
  with line show ?thesis
    by (simp add: read_response_def header_value_def starts_with_def undec_dec)
qed

text \<open>
  C33: what the health endpoint tells a client. After any history in which no chain disconnects that was not connected, every
  connection that sends at least one byte gets an answer whose length header matches its body, so that a client reads back
  status, type and body; which answer it is depends only on the first bytes of the request, whatever undecodable bytes
  follow: the health document, ready exactly if the connected chains are at least the configured ones, the metrics, or not
  found.
\<close>

theorem health_endpoint_answers:
  assumes "0 < configured" and "plausible 0 steps" and "bytes \<noteq> []"
  shows "\<exists>h s. health_run (new_health now configured) steps = (Ok h :: ('e, HealthState) result) \<and>
    connected_chains h = connected_after 0 steps \<and>
    handle_connection \<lparr>at_time = t, conn_metrics = mx, conn_health = h, request = Some bytes\<rparr> = Some s \<and>
    read_response s = Some
      (if requests ''GET /health'' bytes then (''200 OK'', ''application/json'', render_health t h)
       else if requests ''GET /ready'' bytes
       then (if configured \<le> connected_after 0 steps then (''200 OK'', ''text/plain'', ''ready'')
             else (''503 Service Unavailable'', ''text/plain'', ''not ready''))
       else if requests ''GET /metrics'' bytes then (''200 OK'', ''text/plain; version=0.0.4'', render mx)
       else (''404 Not Found'', ''text/plain'', ''not found''))"
proof -
  obtain h where h: "health_run (new_health now configured) steps = (Ok h :: ('e, HealthState) result)"
    "connected_chains h = connected_after 0 steps" "ready h \<longleftrightarrow> configured \<le> connected_after 0 steps"
    using health_ready_iff_connected [OF assms(1,2), of now, where ?'e = 'e] by blast
  with assms(3) show ?thesis
    by (simp add: handle_connection_def route_bytes read_health_response)
qed

theorem health_endpoint_answers_witness:
  "\<exists>h s. handle_connection \<lparr>at_time = 3, conn_metrics = new_metrics, conn_health = h,
       request = Some (as_bytes ''GET /ready'' @ [0xFF, 0xC3])\<rparr> = Some s \<and>
     read_response s = Some (''503 Service Unavailable'', ''text/plain'', ''not ready'')"
proof -
  let ?q = "as_bytes ''GET /ready'' @ [0xFF, 0xC3]"
  have q: "\<not> requests ''GET /health'' ?q" "requests ''GET /ready'' ?q" "?q \<noteq> []"
    by (simp_all add: requests_def as_bytes_def)
  show ?thesis
    using health_endpoint_answers [of 2 "[True]" ?q 0 3 new_metrics, where ?'e = unit] q by auto
qed

end
