(* ===== verification/Lumora_Coprocessor.thy ===== *)
theory Lumora_Coprocessor
  imports Relayer_Dispatch
begin

text \<open>
  The proof coprocessor (\<open>lumora-coprocessor/src\<close>: \<open>types.rs\<close>, \<open>chains.rs\<close>, \<open>proof.rs\<close>,
  \<open>submitter.rs\<close>): target chains and their registry, the assembly of public inputs and proof envelopes,
  and the transactions that submit them. The Poseidon library, the random generator and the Ethereum
  client are parameters.
\<close>

section \<open>Chains\<close>

datatype TargetChain =
    AvalancheFuji | AvalancheMainnet | MoonbaseAlpha | Moonbeam | AstarShibuya | Astar
  | EvmosTestnet | Evmos | AuroraTestnet | Aurora

fun target_id :: "TargetChain \<Rightarrow> nat" where
  "target_id AvalancheFuji = 43113"
| "target_id AvalancheMainnet = 43114"
| "target_id MoonbaseAlpha = 1287"
| "target_id Moonbeam = 1284"
| "target_id AstarShibuya = 81"
| "target_id Astar = 592"
| "target_id EvmosTestnet = 9000"
| "target_id Evmos = 9001"
| "target_id AuroraTestnet = 1313161555"
| "target_id Aurora = 1313161554"

definition is_testnet :: "TargetChain \<Rightarrow> bool" where
  "is_testnet c \<longleftrightarrow> c \<in> {AvalancheFuji, MoonbaseAlpha, AstarShibuya, EvmosTestnet, AuroraTestnet}"

datatype Ecosystem = Avalanche | Polkadot | Cosmos | Near

fun ecosystem :: "TargetChain \<Rightarrow> Ecosystem" where
  "ecosystem AvalancheFuji = Avalanche"
| "ecosystem AvalancheMainnet = Avalanche"
| "ecosystem MoonbaseAlpha = Polkadot"
| "ecosystem Moonbeam = Polkadot"
| "ecosystem AstarShibuya = Polkadot"
| "ecosystem Astar = Polkadot"
| "ecosystem EvmosTestnet = Cosmos"
| "ecosystem Evmos = Cosmos"
| "ecosystem AuroraTestnet = Near"
| "ecosystem Aurora = Near"

datatype ProofType = Transfer | Withdraw | Aggregated

record GeneratedProof =
  raw_proof :: "u8 list"
  snark_wrapper :: "u8 list option"
  public_inputs :: "h256 list"
  proof_type :: ProofType

record OutputNote =
  recipient_pk :: h256
  note_value :: nat
  blinding :: h256

record MerklePath =
  siblings :: "h256 list"
  indices :: "u8 list"

record TransferRequest =
  input_notes :: "h256 \<times> h256"
  spending_keys :: "h256 \<times> h256"
  output_notes :: "OutputNote \<times> OutputNote"
  merkle_paths :: "MerklePath \<times> MerklePath"
  merkle_root :: h256
  target_chain :: TargetChain
  app_id :: nat

record WithdrawRequest =
  w_input_notes :: "h256 \<times> h256"
  w_spending_keys :: "h256 \<times> h256"
  change_note :: OutputNote
  exit_value :: nat
  w_merkle_paths :: "MerklePath \<times> MerklePath"
  w_merkle_root :: h256
  w_target_chain :: TargetChain
  w_app_id :: nat

record SubmissionResult =
  sub_tx_hash :: string
  sub_block_number :: "nat option"
  gas_used :: "nat option"
  success :: bool

record ChainContracts =
  privacy_pool :: string
  epoch_manager :: string
  bridge_adapter :: "string option"
  verifier :: "string option"

record ChainConfig =
  cfg_rpc_url :: string
  contracts :: ChainContracts
  cfg_signer_key :: string

record CoprocessorConfig =
  cop_chains :: "(TargetChain \<times> ChainConfig) list"
  cop_batch_size :: nat
  cop_batch_timeout_ms :: nat

datatype ChainError = NotConfigured TargetChain | RpcFailed string

type_synonym ChainRegistry = "TargetChain \<rightharpoonup> ChainConfig"

definition new_registry :: ChainRegistry where
  "new_registry = Map.empty"

text \<open>Collecting into a hash map: a later pair overwrites an earlier one.\<close>

definition from_config :: "CoprocessorConfig \<Rightarrow> ChainRegistry" where
  "from_config config = fold (\<lambda>(c, cfg) m. m(c \<mapsto> cfg)) (cop_chains config) Map.empty"

definition register :: "TargetChain \<Rightarrow> ChainConfig \<Rightarrow> ChainRegistry \<Rightarrow> ChainRegistry" where
  "register c cfg m = m(c \<mapsto> cfg)"

definition get_chain :: "ChainRegistry \<Rightarrow> TargetChain \<Rightarrow> (ChainError, ChainConfig) result" where
  "get_chain m c = of_option (NotConfigured c) (m c)"

definition supported_chains :: "ChainRegistry \<Rightarrow> TargetChain set" where
  "supported_chains m = dom m"

definition default_testnet_rpcs :: "(TargetChain \<times> string) list" where
  "default_testnet_rpcs =
     [(AvalancheFuji, ''https://api.avax-test.network/ext/bc/C/rpc''),
      (MoonbaseAlpha, ''https://rpc.api.moonbase.moonbeam.network''),
      (AstarShibuya, ''https://evm.shibuya.astar.network''),
      (EvmosTestnet, ''https://eth.bd.evmos.dev:8545''),
      (AuroraTestnet, ''https://testnet.aurora.dev'')]"

section \<open>Proof generation\<close>

datatype ProofError = InvalidInput string | MerklePathInvalid | ProverFailed string | SnarkWrapFailed string

record Prover =
  light_poseidon :: "u8 list list \<Rightarrow> h256 option"
  fill_bytes :: "nat \<Rightarrow> u8 list"

record ProofGenerator =
  transfer_pk :: "u8 list"
  withdraw_pk :: "u8 list"
  snark_wrapper_pk :: "u8 list option"

fun chunks31 :: "u8 list \<Rightarrow> u8 list list" where
  "chunks31 [] = []"
| "chunks31 (b # bs) = take 31 (b # bs) # chunks31 (drop 31 (b # bs))"

definition poseidon_hash :: "Prover \<Rightarrow> u8 list \<Rightarrow> ('e, h256) result" where
  "poseidon_hash p data =
     (let inputs = map (\<lambda>chunk. replicate (32 - length chunk) 0 @ chunk) (chunks31 data)
      in unwrap (light_poseidon p inputs))"

definition validate_path :: "MerklePath \<Rightarrow> (ProofError, unit) result" where
  "validate_path path =
     bind_result (ensure (length (siblings path) = length (indices path)) MerklePathInvalid) (\<lambda>_.
     ensure (siblings path \<noteq> []) MerklePathInvalid)"

definition validate_merkle_paths :: "MerklePath \<times> MerklePath \<Rightarrow> (ProofError, unit) result" where
  "validate_merkle_paths paths = bind_result (validate_path (fst paths)) (\<lambda>_. validate_path (snd paths))"

definition compute_nullifier :: "Prover \<Rightarrow> h256 \<Rightarrow> h256 \<Rightarrow> u8 list \<Rightarrow> (ProofError, h256) result" where
  "compute_nullifier p sk cm domain_bytes =
     bind_result (poseidon_hash p (h256_bytes sk @ h256_bytes cm)) (\<lambda>inner.
     poseidon_hash p (h256_bytes inner @ domain_bytes))"

definition compute_nullifiers_v2 ::
  "Prover \<Rightarrow> h256 \<times> h256 \<Rightarrow> h256 \<times> h256 \<Rightarrow> nat \<Rightarrow> nat \<Rightarrow> (ProofError, h256 \<times> h256) result" where
  "compute_nullifiers_v2 p sks cms chain app =
     (let domain_bytes = be_bytes 4 chain @ be_bytes 4 app in
      bind_result (compute_nullifier p (fst sks) (fst cms) domain_bytes) (\<lambda>n0.
      bind_result (compute_nullifier p (snd sks) (snd cms) domain_bytes) (\<lambda>n1. Ok (n0, n1))))"

definition compute_single_commitment :: "Prover \<Rightarrow> OutputNote \<Rightarrow> (ProofError, h256) result" where
  "compute_single_commitment p note =
     poseidon_hash p (h256_bytes (recipient_pk note) @ be_bytes 16 (note_value note) @ h256_bytes (blinding note))"

definition compute_output_commitments :: "Prover \<Rightarrow> OutputNote \<times> OutputNote \<Rightarrow> (ProofError, h256 \<times> h256) result" where
  "compute_output_commitments p notes =
     bind_result (compute_single_commitment p (fst notes)) (\<lambda>c0.
     bind_result (compute_single_commitment p (snd notes)) (\<lambda>c1. Ok (c0, c1)))"

definition padded_proof_envelope :: "Prover \<Rightarrow> u8 list \<Rightarrow> nat \<Rightarrow> u8 list" where
  "padded_proof_envelope p proof_bytes total_size =
     (let proof_len = length proof_bytes mod 2 ^ 32;
          envelope = be_bytes 4 proof_len @ proof_bytes;
          remaining = saturating_sub total_size (length envelope);
          envelope = (if remaining > 0 then envelope @ fill_bytes p remaining else envelope)
      in take total_size envelope)"

definition wrap_snark :: "Prover \<Rightarrow> ProofGenerator \<Rightarrow> h256 \<Rightarrow> (ProofError, u8 list option) result" where
  "wrap_snark p gen nullifier =
     (if snark_wrapper_pk gen \<noteq> None
      then bind_result (poseidon_hash p (h256_bytes nullifier)) (\<lambda>snark_body.
           Ok (Some (padded_proof_envelope p (h256_bytes snark_body) 256)))
      else Ok None)"

definition generate_transfer :: "Prover \<Rightarrow> ProofGenerator \<Rightarrow> TransferRequest \<Rightarrow> (ProofError, GeneratedProof) result" where
  "generate_transfer p gen request =
     bind_result (validate_merkle_paths (merkle_paths request)) (\<lambda>_.
     let chain = target_id (target_chain request) in
     bind_result (compute_nullifiers_v2 p (spending_keys request) (input_notes request)
                    (chain mod 2 ^ 32) (app_id request)) (\<lambda>nullifiers.
     bind_result (compute_output_commitments p (output_notes request)) (\<lambda>outs.
     bind_result (poseidon_hash p (h256_bytes (fst outs))) (\<lambda>proof_body.
     let raw = padded_proof_envelope p (h256_bytes proof_body) 2048 in
     bind_result (wrap_snark p gen (fst nullifiers)) (\<lambda>wrapper.
     Ok \<lparr>raw_proof = raw, snark_wrapper = wrapper,
         public_inputs = [merkle_root request, fst nullifiers, snd nullifiers, fst outs, snd outs],
         proof_type = Transfer\<rparr>)))))"

definition generate_withdraw :: "Prover \<Rightarrow> ProofGenerator \<Rightarrow> WithdrawRequest \<Rightarrow> (ProofError, GeneratedProof) result" where
  "generate_withdraw p gen request =
     bind_result (validate_merkle_paths (w_merkle_paths request)) (\<lambda>_.
     let chain = target_id (w_target_chain request) in
     bind_result (compute_nullifiers_v2 p (w_spending_keys request) (w_input_notes request)
                    (chain mod 2 ^ 32) (w_app_id request)) (\<lambda>nullifiers.
     bind_result (compute_single_commitment p (change_note request)) (\<lambda>change_commitment.
     let zero_commitment = 0 in
     bind_result (poseidon_hash p (h256_bytes change_commitment)) (\<lambda>proof_body.
     let raw = padded_proof_envelope p (h256_bytes proof_body) 2048 in
     bind_result (wrap_snark p gen (fst nullifiers)) (\<lambda>wrapper.
     let exit_bytes = of_nat (exit_value request) in
     Ok \<lparr>raw_proof = raw, snark_wrapper = wrapper,
         public_inputs = [w_merkle_root request, fst nullifiers, snd nullifiers, change_commitment,
                          zero_commitment, exit_bytes],
         proof_type = Withdraw\<rparr>)))))"

section \<open>Submission\<close>

datatype SubmitError =
    SReverted string | RpcError string | SigningFailed string | UnsupportedTarget TargetChain | ProofFormatError string

record SubmitClient = Client +
  receipt_block :: "u8 list \<Rightarrow> nat option"
  receipt_gas :: "u8 list \<Rightarrow> nat option"

definition encode_transfer_call :: "SubmitClient \<Rightarrow> u8 list \<Rightarrow> h256 \<Rightarrow> h256 \<times> h256 \<Rightarrow> h256 \<times> h256 \<Rightarrow> u8 list" where
  "encode_transfer_call cl proof root nuls outs =
     (let selector = take 4 (keccak256 cl (as_bytes ''transfer(bytes,bytes32,bytes32[2],bytes32[2])''));
          offset = 32 * 5
      in selector @ abi_encode cl [Uint offset] @ h256_bytes root
         @ h256_bytes (fst nuls) @ h256_bytes (snd nuls) @ h256_bytes (fst outs) @ h256_bytes (snd outs)
         @ abi_encode cl [Bytes proof])"

definition encode_withdraw_call ::
  "SubmitClient \<Rightarrow> u8 list \<Rightarrow> h256 \<Rightarrow> h256 \<times> h256 \<Rightarrow> h256 \<times> h256 \<Rightarrow> u8 list \<Rightarrow> nat \<Rightarrow> u8 list" where
  "encode_withdraw_call cl proof root nuls outs recipient v =
     (let selector = take 4 (keccak256 cl (as_bytes ''withdraw(bytes,bytes32,bytes32[2],bytes32[2],address,uint256)''));
          offset = 32 * 7
      in selector @ abi_encode cl [Uint offset] @ h256_bytes root
         @ h256_bytes (fst nuls) @ h256_bytes (snd nuls) @ h256_bytes (fst outs) @ h256_bytes (snd outs)
         @ abi_encode cl [Address recipient] @ abi_encode cl [Uint v] @ abi_encode cl [Bytes proof])"

text \<open>Connecting and signing, then, with the parsed pool address, the transaction and its receipt. \<open>as_u64\<close> of the chain
  identifier and \<open>as_u128\<close> of the gas panic on numbers that do not fit.\<close>

definition with_pool :: "SubmitClient \<Rightarrow> ChainConfig \<Rightarrow> (u8 list \<Rightarrow> (SubmitError, 'a) effect) \<Rightarrow> (SubmitError, 'a) effect" where
  "with_pool cl config f sent =
     (case try_provider cl (cfg_rpc_url config) of Some e \<Rightarrow> (Err (RpcError e), sent)
      | None \<Rightarrow> (case parse_wallet cl (cfg_signer_key config) of Some e \<Rightarrow> (Err (SigningFailed e), sent)
      | None \<Rightarrow> (case chainid_u64 cl (cfg_rpc_url config) of Err e \<Rightarrow> (Err (RpcError e), sent) | Panic \<Rightarrow> (Panic, sent)
      | Ok _ \<Rightarrow> (case parse_address cl (privacy_pool (contracts config)) of
                  None \<Rightarrow> (Err (ProofFormatError ''Invalid pool address''), sent)
                | Some pool \<Rightarrow> f pool sent))))"

definition submit_call :: "SubmitClient \<Rightarrow> ChainConfig \<Rightarrow> nat \<Rightarrow> u8 list \<Rightarrow> u8 list \<Rightarrow> (SubmitError, SubmissionResult) effect" where
  "submit_call cl config gas call_data pool sent =
     (let tx = \<lparr>tx_rpc = cfg_rpc_url config, tx_to = pool, tx_data = call_data, tx_gas = Some gas, tx_value = 0\<rparr>
      in (case reply cl sent tx of
            SendFailed e \<Rightarrow> (Err (RpcError e), sent @ [tx])
          | WaitFailed e \<Rightarrow> (Err (RpcError e), sent @ [tx])
          | NoReceipt \<Rightarrow> (Err (RpcError ''No receipt returned''), sent @ [tx])
          | Receipt hash status \<Rightarrow>
              if receipt_gas cl hash \<noteq> None \<and> 2 ^ 128 \<le> the (receipt_gas cl hash) then (Panic, sent @ [tx])
              else (Ok \<lparr>sub_tx_hash = ''0x'' @ lower_hex hash, sub_block_number = receipt_block cl hash,
                        gas_used = receipt_gas cl hash, success = (status = Some 1)\<rparr>, sent @ [tx])))"

definition proof_bytes :: "GeneratedProof \<Rightarrow> u8 list" where
  "proof_bytes proof = (case snark_wrapper proof of Some w \<Rightarrow> w | None \<Rightarrow> raw_proof proof)"

definition submit_evm_transfer ::
  "SubmitClient \<Rightarrow> ChainConfig \<Rightarrow> GeneratedProof \<Rightarrow> h256 \<Rightarrow> h256 \<times> h256 \<Rightarrow> h256 \<times> h256 \<Rightarrow> (SubmitError, SubmissionResult) effect" where
  "submit_evm_transfer cl config proof root nuls outs =
     with_pool cl config (submit_call cl config 500000 (encode_transfer_call cl (proof_bytes proof) root nuls outs))"

definition submit_evm_withdraw ::
  "SubmitClient \<Rightarrow> ChainConfig \<Rightarrow> GeneratedProof \<Rightarrow> h256 \<Rightarrow> h256 \<times> h256 \<Rightarrow> h256 \<times> h256 \<Rightarrow> string \<Rightarrow> nat
     \<Rightarrow> (SubmitError, SubmissionResult) effect" where
  "submit_evm_withdraw cl config proof root nuls outs recipient v =
     with_pool cl config (\<lambda>pool sent.
       case parse_address cl recipient of
         None \<Rightarrow> (Err (ProofFormatError ''Invalid recipient address''), sent)
       | Some recipient_addr \<Rightarrow>
           submit_call cl config 600000
             (encode_withdraw_call cl (proof_bytes proof) root nuls outs recipient_addr v) pool sent)"

definition get_config :: "(TargetChain \<times> ChainConfig) list \<Rightarrow> TargetChain \<Rightarrow> (SubmitError, ChainConfig) result" where
  "get_config configs chain =
     of_option (UnsupportedTarget chain) (map_option snd (find (\<lambda>(c, _). c = chain) configs))"

definition submit_transfer ::
  "SubmitClient \<Rightarrow> (TargetChain \<times> ChainConfig) list \<Rightarrow> TargetChain \<Rightarrow> GeneratedProof \<Rightarrow> h256 \<Rightarrow> h256 \<times> h256 \<Rightarrow> h256 \<times> h256
     \<Rightarrow> (SubmitError, SubmissionResult) effect" where
  "submit_transfer cl configs chain proof root nuls outs sent =
     (case get_config configs chain of
        Ok config \<Rightarrow> submit_evm_transfer cl config proof root nuls outs sent
      | Err e \<Rightarrow> (Err e, sent)
      | Panic \<Rightarrow> (Panic, sent))"

definition submit_withdraw ::
  "SubmitClient \<Rightarrow> (TargetChain \<times> ChainConfig) list \<Rightarrow> TargetChain \<Rightarrow> GeneratedProof \<Rightarrow> h256 \<Rightarrow> h256 \<times> h256 \<Rightarrow> h256 \<times> h256
     \<Rightarrow> string \<Rightarrow> nat \<Rightarrow> (SubmitError, SubmissionResult) effect" where
  "submit_withdraw cl configs chain proof root nuls outs recipient v sent =
     (case get_config configs chain of
        Ok config \<Rightarrow> submit_evm_withdraw cl config proof root nuls outs recipient v sent
      | Err e \<Rightarrow> (Err e, sent)
      | Panic \<Rightarrow> (Panic, sent))"

section \<open>Properties\<close>

lemma target_id_inj: "target_id a = target_id b \<longleftrightarrow> a = b"
  by (cases a; cases b) simp_all

text \<open>Every target chain is one the relayer has an adapter for, of the matching kind.\<close>

fun adapter_of :: "Ecosystem \<Rightarrow> Adapter" where
  "adapter_of Avalanche = Awm" | "adapter_of Polkadot = Xcm" | "adapter_of Cosmos = Ibc" | "adapter_of Near = Rainbow"

lemma target_has_adapter: "supports_chain a (target_id c) \<longleftrightarrow> a = adapter_of (ecosystem c)"
proof -
  have "supports_chain (adapter_of (ecosystem c)) (target_id c)"
    by (cases c) (simp_all add: is_avalanche_def is_polkadot_parachain_def is_cosmos_chain_def is_aurora_def
      AVALANCHE_MAINNET_def AVALANCHE_FUJI_def MOONBEAM_MAINNET_def MOONBASE_ALPHA_def ASTAR_MAINNET_def
      ASTAR_SHIBUYA_def EVMOS_MAINNET_def EVMOS_TESTNET_def AURORA_MAINNET_def AURORA_TESTNET_def)
  then show ?thesis using adapters_disjoint by blast
qed

lemma from_config_last:
  "from_config config c = map_of (rev (cop_chains config)) c"
proof -
  have "fold (\<lambda>(c, cfg) m. m(c \<mapsto> cfg)) xs m = m ++ map_of (rev xs)" for xs and m :: ChainRegistry
    by (induction xs arbitrary: m) (auto simp: map_add_upd_left fun_eq_iff map_add_def split: option.splits)
  then show ?thesis by (simp add: from_config_def)
qed

text \<open>The envelope: exactly the requested size, and the length prefix recovers the body.\<close>

lemma envelope_roundtrip:
  assumes "\<And>n. length (fill_bytes p n) = n" and "length body + 4 \<le> size_n" "length body < 2 ^ 32"
  shows "length (padded_proof_envelope p body size_n) = size_n \<and>
    from_be_bytes (take 4 (padded_proof_envelope p body size_n)) = length body \<and>
    take (length body) (drop 4 (padded_proof_envelope p body size_n)) = body"
  using assms by (auto simp: padded_proof_envelope_def saturating_sub_def from_be_be_bytes Let_def)

lemma generate_withdraw_inputs:
  assumes "generate_withdraw p gen request = Ok g"
  shows "length (public_inputs g) = 6 \<and> public_inputs g ! 0 = w_merkle_root request \<and> public_inputs g ! 4 = 0 \<and>
    (\<exists>body. raw_proof g = padded_proof_envelope p (h256_bytes body) 2048)"
  using assms by (auto simp: generate_withdraw_def result_simps Let_def)

lemma generate_transfer_inputs:
  assumes "generate_transfer p gen request = Ok g"
  shows "length (public_inputs g) = 5 \<and> public_inputs g ! 0 = merkle_root request \<and>
    (\<exists>body. raw_proof g = padded_proof_envelope p (h256_bytes body) 2048)"
  using assms by (auto simp: generate_transfer_def result_simps Let_def)

text \<open>How a contract finds a dynamic argument: at the offset its head word gives, a length and then the bytes.\<close>

definition abi_bytes_length :: "u8 list \<Rightarrow> nat" where
  "abi_bytes_length args = from_be_bytes (take 32 (drop (from_be_bytes (take 32 args)) args))"

definition encodes_uint :: "SubmitClient \<Rightarrow> bool" where
  "encodes_uint cl \<longleftrightarrow> (\<forall>n < 2 ^ 256. abi_encode cl [Uint n] = be_bytes 32 n)"

definition encodes_address :: "SubmitClient \<Rightarrow> bool" where
  "encodes_address cl \<longleftrightarrow> (\<forall>a. length a = 20 \<longrightarrow> abi_encode cl [Address a] = replicate 12 0 @ a)"

text \<open>
  C34: the head of the submitted call has one word more than its offset accounts for: the word the contract takes
  as the length of the proof is the second output commitment in a transfer and the exit value in a
  withdrawal, whatever the proof is.
\<close>

theorem submitted_call_misplaces_proof:
  assumes "encodes_uint cl" and "encodes_address cl" and "v < 2 ^ 128" and "length recipient = 20"
    and "length (keccak256 cl (as_bytes ''transfer(bytes,bytes32,bytes32[2],bytes32[2])'')) = 32"
    and "length (keccak256 cl (as_bytes ''withdraw(bytes,bytes32,bytes32[2],bytes32[2],address,uint256)'')) = 32"
  shows "abi_bytes_length (drop 4 (encode_transfer_call cl proof root nuls outs)) = unat (snd outs) \<and>
    abi_bytes_length (drop 4 (encode_withdraw_call cl proof root nuls outs recipient v)) = v"
proof -
  have v: "v < 2 ^ 256" using assms(3) by (rule less_trans) simp
  have u: "abi_encode cl [Uint n] = be_bytes 32 n" if "n < 2 ^ 256" for n
    using assms(1) that by (simp add: encodes_uint_def)
  have a: "abi_encode cl [Address recipient] = replicate 12 0 @ recipient"
    using assms(2,4) by (simp add: encodes_address_def)
  have "from_be_bytes (be_bytes 32 160) = 160" "from_be_bytes (be_bytes 32 224) = 224" "from_be_bytes (be_bytes 32 v) = v"
    using v by (simp_all add: from_be_be_bytes)
  then show ?thesis
    using assms(4,5,6) by (simp add: abi_bytes_length_def encode_transfer_call_def encode_withdraw_call_def u u [OF v] a Let_def)
qed

definition abi_sample :: "Token list \<Rightarrow> u8 list" where
  "abi_sample ts = (case ts of [Uint n] \<Rightarrow> be_bytes 32 n | [Address a] \<Rightarrow> replicate 12 0 @ a | _ \<Rightarrow> [])"

definition sample_submit :: SubmitClient where
  "sample_submit = \<lparr>try_provider = (\<lambda>_. None), parse_wallet = (\<lambda>_. None), parse_address = (\<lambda>_. Some (replicate 20 1)),
     reply = (\<lambda>sent _. NoReceipt), get_chainid = (\<lambda>_. Inr 1), abi_encode = abi_sample,
     keccak256 = (\<lambda>_. replicate 32 1), receipt_block = (\<lambda>_. None), receipt_gas = (\<lambda>_. None)\<rparr>"

theorem submitted_call_misplaces_proof_witness:
  "abi_bytes_length (drop 4 (encode_transfer_call sample_submit [1, 2, 3] 5 (1, 2) (3, 4))) = 4"
proof -
  have "encodes_uint sample_submit" "encodes_address sample_submit"
    by (simp_all add: encodes_uint_def encodes_address_def sample_submit_def abi_sample_def)
  from submitted_call_misplaces_proof [OF this, of 0 "replicate 20 0" "[1, 2, 3]" 5 "(1, 2)" "(3, 4)"]
  show ?thesis by (simp add: sample_submit_def)
qed

end
