(* ===== verification/Lumora_Service.thy ===== *)
theory Lumora_Service
  imports Lumora_Coprocessor
begin

text \<open>
  The coprocessor as a program (\<open>lumora-coprocessor/src/main.rs\<close>): loading of keys, the HTTP handlers and the \<open>prove\<close>
  command. The file system, the JSON parser and the derived deserialisers are parameters; a JSON object is the list of its
  entries in the order the code writes them. A panic of a worker becomes an answer of the service and the end of the command.
\<close>

section \<open>JSON\<close>

datatype Json = JNull | JString string | JArray "Json list" | JObject "(string \<times> Json) list"

fun get_field :: "string \<Rightarrow> Json \<Rightarrow> Json option" where
  "get_field key (JObject entries) = map_of entries key"
| "get_field key _ = None"

fun as_str :: "Json \<Rightarrow> string option" where
  "as_str (JString s) = Some s"
| "as_str _ = None"

record Host =
  read_file :: "string \<Rightarrow> u8 list option"
  read_to_string :: "string \<Rightarrow> string option"
  write_file :: "string \<Rightarrow> Json \<Rightarrow> bool"
  from_str :: "string \<Rightarrow> Json option"
  transfer_from_value :: "Json \<Rightarrow> TransferRequest option"
  withdraw_from_value :: "Json \<Rightarrow> WithdrawRequest option"
  panic_text :: string

section \<open>Keys\<close>

definition load_key_or_placeholder :: "Host \<Rightarrow> string \<Rightarrow> nat \<Rightarrow> u8 list" where
  "load_key_or_placeholder h path placeholder_size =
     (case read_file h path of Some bytes \<Rightarrow> bytes | None \<Rightarrow> replicate placeholder_size 0)"

definition load_key_optional :: "Host \<Rightarrow> string \<Rightarrow> u8 list option" where
  "load_key_optional h path = read_file h path"

definition new_generator :: "u8 list \<Rightarrow> u8 list \<Rightarrow> u8 list option \<Rightarrow> ProofGenerator" where
  "new_generator t w s = \<lparr>transfer_pk = t, withdraw_pk = w, snark_wrapper_pk = s\<rparr>"

definition load_generator :: "Host \<Rightarrow> ProofGenerator" where
  "load_generator h = new_generator (load_key_or_placeholder h ''keys/transfer.pk'' 32)
     (load_key_or_placeholder h ''keys/withdraw.pk'' 32) (load_key_optional h ''keys/snark_wrapper.pk'')"

section \<open>Handlers\<close>

fun show_proof_error :: "ProofError \<Rightarrow> string" where
  "show_proof_error (InvalidInput s) = ''Invalid input note: '' @ s"
| "show_proof_error MerklePathInvalid = ''Merkle path verification failed''"
| "show_proof_error (ProverFailed s) = ''Prover circuit failed: '' @ s"
| "show_proof_error (SnarkWrapFailed s) = ''SNARK wrapper failed: '' @ s"

definition proof_json :: "GeneratedProof \<Rightarrow> Json" where
  "proof_json g = JObject
     [(''status'', JString ''success''),
      (''proof'', JString (lower_hex (raw_proof g))),
      (''snarkWrapper'', case snark_wrapper g of Some w \<Rightarrow> JString (lower_hex w) | None \<Rightarrow> JNull),
      (''publicInputs'', JArray (map (\<lambda>x. JString (lower_hex (h256_bytes x))) (public_inputs g))),
      (''provingSystem'', JString ''halo2-groth16-wrapper''),
      (''circuitVersion'', JString ''0.1.0'')]"

datatype Response = Success Json | BadRequest string | InternalServerError string

definition respond :: "Host \<Rightarrow> (ProofError, GeneratedProof) result \<Rightarrow> Response" where
  "respond h r = (case r of
     Panic \<Rightarrow> InternalServerError (''Worker panic: '' @ panic_text h)
   | Err e \<Rightarrow> BadRequest (''Proof generation failed: '' @ show_proof_error e)
   | Ok g \<Rightarrow> Success (proof_json g))"

definition handle_prove_transfer :: "Host \<Rightarrow> Prover \<Rightarrow> ProofGenerator \<Rightarrow> TransferRequest \<Rightarrow> Response" where
  "handle_prove_transfer h p gen request = respond h (generate_transfer p gen request)"

definition handle_prove_withdraw :: "Host \<Rightarrow> Prover \<Rightarrow> ProofGenerator \<Rightarrow> WithdrawRequest \<Rightarrow> Response" where
  "handle_prove_withdraw h p gen request = respond h (generate_withdraw p gen request)"

definition handle_health :: Json where
  "handle_health = JObject [(''status'', JString ''ok''), (''prover'', JString ''halo2''),
     (''snarkWrapper'', JString ''groth16''), (''circuitVersion'', JString ''0.1.0'')]"

datatype Handler = HandleHealth | HandleProveTransfer | HandleProveWithdraw

definition build_router :: "(string \<times> string) \<rightharpoonup> Handler" where
  "build_router = [(''GET'', ''/health'') \<mapsto> HandleHealth, (''POST'', ''/prove/transfer'') \<mapsto> HandleProveTransfer,
     (''POST'', ''/prove/withdraw'') \<mapsto> HandleProveWithdraw]"

section \<open>The prove command\<close>

text \<open>The command ends with the file written, with exit code one, or by a panic.\<close>

datatype Exit = Written string Json | Failure | Aborted

definition finish :: "Host \<Rightarrow> string \<Rightarrow> (ProofError, GeneratedProof) result \<Rightarrow> Exit" where
  "finish h out r = (case r of
     Ok g \<Rightarrow> if write_file h out (proof_json g) then Written out (proof_json g) else Failure
   | Err e \<Rightarrow> Failure
   | Panic \<Rightarrow> Aborted)"

definition prove_command :: "Host \<Rightarrow> Prover \<Rightarrow> string \<Rightarrow> string \<Rightarrow> Exit" where
  "prove_command h p input out =
     (case read_to_string h input of None \<Rightarrow> Failure
      | Some request_str \<Rightarrow>
     (case from_str h request_str of None \<Rightarrow> Failure
      | Some request \<Rightarrow>
     (let generator = load_generator h;
          proof_type = (case Option.bind (get_field ''type'' request) as_str of Some s \<Rightarrow> s | None \<Rightarrow> ''transfer'') in
      if proof_type = ''transfer''
      then (case transfer_from_value h request of None \<Rightarrow> Failure
            | Some req \<Rightarrow> finish h out (generate_transfer p generator req))
      else if proof_type = ''withdraw''
      then (case withdraw_from_value h request of None \<Rightarrow> Failure
            | Some req \<Rightarrow> finish h out (generate_withdraw p generator req))
      else Failure)))"

section \<open>The command line\<close>

datatype Commands = Serve nat string nat | Prove string string | Health

record Cli =
  log_format :: string
  command :: Commands

text \<open>What the process does: it ends with the prove command, prints lines, listens with a router and its generator until it is
  interrupted, or panics because the address cannot be bound.\<close>

datatype Process =
    Ended Exit
  | Printed "string list"
  | Listening string "(string \<times> string) \<rightharpoonup> Handler" ProofGenerator
  | BindFailed string

definition serve_command :: "Host \<Rightarrow> (string \<Rightarrow> bool) \<Rightarrow> nat \<Rightarrow> string \<Rightarrow> nat \<Rightarrow> Process" where
  "serve_command h bindable port bind workers =
     (let generator = load_generator h;
          app = build_router;
          addr = bind @ '':'' @ dec port
      in if bindable addr then Listening addr app generator else BindFailed addr)"

definition health_command :: "string list" where
  "health_command = [''status: ok'', ''prover: halo2'', ''snark_wrapper: groth16'', ''circuit_version: 0.1.0'']"

definition coprocessor_main :: "Host \<Rightarrow> Prover \<Rightarrow> (string \<Rightarrow> bool) \<Rightarrow> Cli \<Rightarrow> Process" where
  "coprocessor_main h p bindable cli =
     (case command cli of
        Serve port bind workers \<Rightarrow> serve_command h bindable port bind workers
      | Prove input out \<Rightarrow> Ended (prove_command h p input out)
      | Health \<Rightarrow> Printed health_command)"

section \<open>Properties\<close>

text \<open>What the documentation of the hash library promises for the number of inputs the code uses.\<close>

definition poseidon_total :: "Prover \<Rightarrow> bool" where
  "poseidon_total p \<longleftrightarrow> (\<forall>inputs. inputs \<noteq> [] \<and> length inputs \<le> 12 \<and> list_all (\<lambda>x. length x = 32 \<and> hd x = 0) inputs
     \<longrightarrow> light_poseidon p inputs \<noteq> None)"

definition path_ok :: "MerklePath \<Rightarrow> bool" where
  "path_ok path \<longleftrightarrow> length (siblings path) = length (indices path) \<and> siblings path \<noteq> []"

lemma length_chunks31: "31 * length (chunks31 xs) \<le> length xs + 30"
proof (induction xs rule: chunks31.induct)
  case (2 b bs)
  then show ?case by simp presburger
qed simp

lemma chunks31_lengths: "c \<in> set (chunks31 xs) \<Longrightarrow> 0 < length c \<and> length c \<le> 31"
  by (induction xs rule: chunks31.induct) auto

lemma poseidon_hash_Ok:
  assumes "poseidon_total p" and "0 < length xs" and "length xs \<le> 372"
  shows "\<exists>h. poseidon_hash p xs = (Ok h :: ('e, h256) result)"
proof -
  let ?in = "map (\<lambda>c. replicate (32 - length c) 0 @ c) (chunks31 xs)"
  have "?in \<noteq> []" using assms(2) by (cases xs) auto
  moreover have "length ?in \<le> 12" using assms(3) length_chunks31 [of xs] by simp
  moreover have "list_all (\<lambda>x. length x = 32 \<and> hd x = 0) ?in"
    using chunks31_lengths by (fastforce simp: list_all_iff hd_append)
  ultimately have "light_poseidon p ?in \<noteq> None" using assms(1) unfolding poseidon_total_def by blast
  then show ?thesis by (auto simp: poseidon_hash_def Let_def unwrap_def)
qed

lemma validate_paths: "validate_merkle_paths ps =
  (if path_ok (fst ps) \<and> path_ok (snd ps) then Ok () else Err MerklePathInvalid)"
  by (auto simp: validate_merkle_paths_def validate_path_def path_ok_def ensure_def)

lemma nullifiers_Ok:
  assumes "poseidon_total p"
  shows "\<exists>ns. compute_nullifiers_v2 p sks cms c a = Ok ns"
proof -
  have "\<exists>n. compute_nullifier p sk cm (be_bytes 4 c @ be_bytes 4 a) = Ok n" for sk cm
  proof -
    obtain i where "poseidon_hash p (h256_bytes sk @ h256_bytes cm) = (Ok i :: (ProofError, h256) result)"
      using poseidon_hash_Ok [OF assms, of "h256_bytes sk @ h256_bytes cm"] by auto
    moreover have "\<exists>n. poseidon_hash p (h256_bytes i @ be_bytes 4 c @ be_bytes 4 a) = (Ok n :: (ProofError, h256) result)"
      by (rule poseidon_hash_Ok [OF assms]) auto
    ultimately show ?thesis by (auto simp: compute_nullifier_def)
  qed
  then show ?thesis unfolding compute_nullifiers_v2_def Let_def by (metis bind_result.simps(1))
qed

lemma commitment_Ok:
  assumes "poseidon_total p"
  shows "\<exists>c. compute_single_commitment p note = Ok c" and "\<exists>d. poseidon_hash p (h256_bytes x) = (Ok d :: (ProofError, h256) result)"
  unfolding compute_single_commitment_def
  by (rule poseidon_hash_Ok [OF assms]; simp)+

lemma wrap_Ok: "poseidon_total p \<Longrightarrow> \<exists>w. wrap_snark p gen n = Ok w"
  using commitment_Ok(2) [of p n] by (auto simp: wrap_snark_def)

lemma generators_total:
  assumes "poseidon_total p"
  shows "path_ok (fst (merkle_paths r)) \<and> path_ok (snd (merkle_paths r)) \<Longrightarrow> \<exists>g. generate_transfer p gen r = Ok g"
    and "path_ok (fst (w_merkle_paths w)) \<and> path_ok (snd (w_merkle_paths w)) \<Longrightarrow> \<exists>g. generate_withdraw p gen w = Ok g"
proof -
  obtain ns where ns: "compute_nullifiers_v2 p (spending_keys r) (input_notes r) (target_id (target_chain r) mod 2 ^ 32) (app_id r) = Ok ns"
    using nullifiers_Ok [OF assms] by blast
  obtain c0 c1 where c: "compute_single_commitment p (fst (output_notes r)) = Ok c0" "compute_single_commitment p (snd (output_notes r)) = Ok c1"
    using commitment_Ok(1) [OF assms] by meson
  obtain d where d: "poseidon_hash p (h256_bytes c0) = (Ok d :: (ProofError, h256) result)" using commitment_Ok(2) [OF assms] by blast
  obtain x where x: "wrap_snark p gen (fst ns) = Ok x" using wrap_Ok [OF assms] by blast
  show "\<exists>g. generate_transfer p gen r = Ok g" if "path_ok (fst (merkle_paths r)) \<and> path_ok (snd (merkle_paths r))"
    using that by (simp add: generate_transfer_def validate_paths compute_output_commitments_def Let_def ns [simplified] c d x)
  obtain ws where ws: "compute_nullifiers_v2 p (w_spending_keys w) (w_input_notes w) (target_id (w_target_chain w) mod 2 ^ 32) (w_app_id w) = Ok ws"
    using nullifiers_Ok [OF assms] by blast
  obtain e where e: "compute_single_commitment p (change_note w) = Ok e" using commitment_Ok(1) [OF assms] by blast
  obtain f where f: "poseidon_hash p (h256_bytes e) = (Ok f :: (ProofError, h256) result)" using commitment_Ok(2) [OF assms] by blast
  obtain y where y: "wrap_snark p gen (fst ws) = Ok y" using wrap_Ok [OF assms] by blast
  show "\<exists>g. generate_withdraw p gen w = Ok g" if "path_ok (fst (w_merkle_paths w)) \<and> path_ok (snd (w_merkle_paths w))"
    using that by (simp add: generate_withdraw_def validate_paths Let_def ws [simplified] e f y)
qed

text \<open>The public inputs a client reads from an answer.\<close>

fun decode_input :: "Json \<Rightarrow> h256 option" where
  "decode_input (JString s) = (case (hex_to_32 s :: (unit, u8 list) result) of Ok bs \<Rightarrow> Some (of_nat (from_be_bytes bs)) | _ \<Rightarrow> None)"
| "decode_input _ = None"

definition answered_inputs :: "Json \<Rightarrow> h256 option list" where
  "answered_inputs j = (case get_field ''publicInputs'' j of Some (JArray xs) \<Rightarrow> map decode_input xs | _ \<Rightarrow> [])"

lemma answered_proof: "answered_inputs (proof_json g) = map Some (public_inputs g)"
  by (simp add: answered_inputs_def proof_json_def hex_to_32_lower_hex)

text \<open>
  C40: as long as the hash library accepts up to twelve inputs, the service never fails internally: it answers a transfer or
  withdrawal request with a proof exactly if both Merkle paths are non-empty and as long as their index lists, and refuses it
  otherwise with the path error. The hexadecimal public inputs of the answer decode to those of the generated proof, the first
  of which is the requested root, and the envelope has 2048 bytes whenever the random generator fills what it is asked to.
\<close>

theorem prove_service_answers:
  assumes "poseidon_total p" and "\<forall>n. length (fill_bytes p n) = n"
  shows "(if path_ok (fst (merkle_paths r)) \<and> path_ok (snd (merkle_paths r))
      then \<exists>g. generate_transfer p gen r = Ok g \<and> handle_prove_transfer h p gen r = Success (proof_json g) \<and>
             answered_inputs (proof_json g) = map Some (public_inputs g) \<and> hd (public_inputs g) = merkle_root r \<and>
             length (public_inputs g) = 5 \<and> length (raw_proof g) = 2048
      else handle_prove_transfer h p gen r = BadRequest ''Proof generation failed: Merkle path verification failed'') \<and>
    (if path_ok (fst (w_merkle_paths w)) \<and> path_ok (snd (w_merkle_paths w))
      then \<exists>g. generate_withdraw p gen w = Ok g \<and> handle_prove_withdraw h p gen w = Success (proof_json g) \<and>
             answered_inputs (proof_json g) = map Some (public_inputs g) \<and> hd (public_inputs g) = w_merkle_root w \<and>
             length (public_inputs g) = 6 \<and> length (raw_proof g) = 2048
      else handle_prove_withdraw h p gen w = BadRequest ''Proof generation failed: Merkle path verification failed'')" (is "?T \<and> ?W")
proof -
  have env: "length (padded_proof_envelope p (h256_bytes d) 2048) = 2048" for d
    using assms(2) by (simp add: padded_proof_envelope_def Let_def saturating_sub_def)
  have ?T
  proof (cases "path_ok (fst (merkle_paths r)) \<and> path_ok (snd (merkle_paths r))")
    case True
    then obtain g where g: "generate_transfer p gen r = Ok g" using generators_total(1) [OF assms(1)] by blast
    then have "hd (public_inputs g) = merkle_root r" "length (public_inputs g) = 5" "length (raw_proof g) = 2048"
      unfolding generate_transfer_def Let_def by (auto simp: result_simps env)
    with g True show ?thesis by (auto simp: handle_prove_transfer_def respond_def answered_proof)
  next
    case False
    then show ?thesis by (auto simp: handle_prove_transfer_def respond_def generate_transfer_def validate_paths)
  qed
  moreover have ?W
  proof (cases "path_ok (fst (w_merkle_paths w)) \<and> path_ok (snd (w_merkle_paths w))")
    case True
    then obtain g where g: "generate_withdraw p gen w = Ok g" using generators_total(2) [OF assms(1)] by blast
    then have "hd (public_inputs g) = w_merkle_root w" "length (public_inputs g) = 6" "length (raw_proof g) = 2048"
      unfolding generate_withdraw_def Let_def by (auto simp: result_simps env)
    with g True show ?thesis by (auto simp: handle_prove_withdraw_def respond_def answered_proof)
  next
    case False
    then show ?thesis by (auto simp: handle_prove_withdraw_def respond_def generate_withdraw_def validate_paths)
  qed
  ultimately show ?thesis by blast
qed

definition toy_prover :: Prover where
  "toy_prover = \<lparr>light_poseidon = (\<lambda>xs. Some (of_nat (length xs))), fill_bytes = (\<lambda>n. replicate n 7)\<rparr>"

definition toy_transfer :: TransferRequest where
  "toy_transfer = \<lparr>input_notes = (1, 2), spending_keys = (3, 4),
     output_notes = (\<lparr>recipient_pk = 5, note_value = 6, blinding = 7\<rparr>, \<lparr>recipient_pk = 5, note_value = 1, blinding = 8\<rparr>),
     merkle_paths = (\<lparr>siblings = [1], indices = [0]\<rparr>, \<lparr>siblings = [1], indices = [1]\<rparr>),
     merkle_root = 8, target_chain = AstarShibuya, app_id = 1\<rparr>"

definition toy_host :: Host where
  "toy_host = \<lparr>read_file = (\<lambda>_. None), read_to_string = (\<lambda>_. None), write_file = (\<lambda>_ _. True), from_str = (\<lambda>_. None),
     transfer_from_value = (\<lambda>_. None), withdraw_from_value = (\<lambda>_. None), panic_text = []\<rparr>"

theorem prove_service_answers_witness:
  "\<exists>g. handle_prove_transfer toy_host toy_prover (load_generator toy_host) toy_transfer = Success (proof_json g) \<and>
     length (raw_proof g) = 2048 \<and> hd (public_inputs g) = 8"
proof -
  have "poseidon_total toy_prover" "\<forall>n. length (fill_bytes toy_prover n) = n"
    by (simp_all add: poseidon_total_def toy_prover_def)
  from prove_service_answers [OF this, of toy_transfer "load_generator toy_host" toy_host] show ?thesis
    by (auto simp: toy_transfer_def path_ok_def)
qed

text \<open>
  The command line tool writes exactly the answer that the service started on the same machine gives to the request of the
  file, for both kinds of request, and panics where the service reports a panic.
\<close>

definition exit_of :: "Host \<Rightarrow> string \<Rightarrow> Response \<Rightarrow> Exit" where
  "exit_of h out r = (case r of
     Success j \<Rightarrow> if write_file h out j then Written out j else Failure
   | BadRequest _ \<Rightarrow> Failure
   | InternalServerError _ \<Rightarrow> Aborted)"

lemma finish_respond: "finish h out r = exit_of h out (respond h r)"
  by (cases r) (simp_all add: finish_def exit_of_def respond_def)

lemma prove_command_matches_service:
  assumes "read_to_string h input = Some text" "from_str h text = Some request"
    and "coprocessor_main h p bindable \<lparr>log_format = fmt, command = Serve port bind workers\<rparr> = Listening addr app gen"
  shows "Option.bind (get_field ''type'' request) as_str \<in> {None, Some ''transfer''} \<Longrightarrow> transfer_from_value h request = Some tr \<Longrightarrow>
      coprocessor_main h p bindable \<lparr>log_format = fmt, command = Prove input out\<rparr>
        = Ended (exit_of h out (handle_prove_transfer h p gen tr))"
    and "Option.bind (get_field ''type'' request) as_str = Some ''withdraw'' \<Longrightarrow> withdraw_from_value h request = Some wr \<Longrightarrow>
      coprocessor_main h p bindable \<lparr>log_format = fmt, command = Prove input out\<rparr>
        = Ended (exit_of h out (handle_prove_withdraw h p gen wr))"
  using assms
  by (auto simp: coprocessor_main_def serve_command_def prove_command_def handle_prove_transfer_def handle_prove_withdraw_def
      finish_respond Let_def split: if_splits)

end
