(* ===== verification/Lumora_Circuits.thy ===== *)
theory Lumora_Circuits
  imports Pool_Prelude "HOL-Library.State_Monad"
begin

text \<open>
  The Halo2 circuits of the coprocessor (\<open>lumora-coprocessor/src/circuits.rs\<close>). The code only calls the proving
  library, so a run of \<open>configure\<close> is the list of columns, selectors and gates it declares, and a run of
  \<open>synthesize\<close> the list of cells it assigns, selectors it enables, cells it copies and cells it exposes.
  Both are programs of the state monad over these records. A cell is named by its region, advice column
  and offset: the floor planner of the library gives every region rows of its own in the columns it uses.
  The field is a type parameter. What a verifier checks of such a record is defined in the second half,
  followed by the conditions under which the three circuits are satisfied.
\<close>

section \<open>Expressions and constraint systems\<close>

datatype 'f Expression =
    Constant 'f | SelectorQ nat | AdviceQ nat nat | FixedQ nat nat
  | Negated "'f Expression" | Sum "'f Expression" "'f Expression" | Product "'f Expression" "'f Expression"

instantiation Expression :: (type) "{plus, minus, times}"
begin

definition plus_Expression :: "'a Expression \<Rightarrow> 'a Expression \<Rightarrow> 'a Expression" where
  "plus_Expression a b = Sum a b"

definition minus_Expression :: "'a Expression \<Rightarrow> 'a Expression \<Rightarrow> 'a Expression" where
  "minus_Expression a b = Sum a (Negated b)"

definition times_Expression :: "'a Expression \<Rightarrow> 'a Expression \<Rightarrow> 'a Expression" where
  "times_Expression a b = Product a b"

instance ..

end

lemmas expression_ops = plus_Expression_def minus_Expression_def times_Expression_def

datatype Column = Advice nat | Fixed nat | Instance nat

record 'f ConstraintSystem =
  num_advice :: nat
  num_fixed :: nat
  num_instance :: nat
  num_selectors :: nat
  equality :: "Column list"
  gates :: "(string \<times> 'f Expression list) list"

definition new_cs :: "'f ConstraintSystem" where
  "new_cs = \<lparr>num_advice = 0, num_fixed = 0, num_instance = 0, num_selectors = 0, equality = [], gates = []\<rparr>"

definition advice_column :: "('f ConstraintSystem, nat) state" where
  "advice_column = State (\<lambda>cs. (num_advice cs, cs\<lparr>num_advice := Suc (num_advice cs)\<rparr>))"

definition fixed_column :: "('f ConstraintSystem, nat) state" where
  "fixed_column = State (\<lambda>cs. (num_fixed cs, cs\<lparr>num_fixed := Suc (num_fixed cs)\<rparr>))"

definition instance_column :: "('f ConstraintSystem, nat) state" where
  "instance_column = State (\<lambda>cs. (num_instance cs, cs\<lparr>num_instance := Suc (num_instance cs)\<rparr>))"

definition selector :: "('f ConstraintSystem, nat) state" where
  "selector = State (\<lambda>cs. (num_selectors cs, cs\<lparr>num_selectors := Suc (num_selectors cs)\<rparr>))"

definition enable_equality :: "Column \<Rightarrow> ('f ConstraintSystem, unit) state" where
  "enable_equality c = State (\<lambda>cs. ((), cs\<lparr>equality := c # equality cs\<rparr>))"

definition create_gate :: "string \<Rightarrow> 'f Expression list \<Rightarrow> ('f ConstraintSystem, unit) state" where
  "create_gate name ps = State (\<lambda>cs. ((), cs\<lparr>gates := (name, ps) # gates cs\<rparr>))"

text \<open>\<open>Rotation::cur()\<close> and \<open>Rotation::next()\<close>.\<close>

definition cur :: nat where "cur = 0"

definition nxt :: nat where "nxt = 1"

section \<open>The Poseidon chip\<close>

record PoseidonConfig =
  state_cols :: "nat list"
  round_constants :: "nat list"
  mds_matrix :: "nat list list"
  s_full :: nat
  s_partial :: nat

definition FULL_ROUNDS :: nat where "FULL_ROUNDS = 8"

definition PARTIAL_ROUNDS :: nat where "PARTIAL_ROUNDS = 57"

definition full_round_gate :: "nat list \<Rightarrow> nat list \<Rightarrow> nat \<Rightarrow> 'f Expression list" where
  "full_round_gate st rc sel =
     map (\<lambda>i. let s = SelectorQ sel;
                  x = AdviceQ (st ! i) cur + FixedQ (rc ! i) cur;
                  state_next = AdviceQ (st ! i) nxt;
                  x2 = x * x; x4 = x2 * x2; x5 = x4 * x
              in s * (state_next - x5)) [0, 1, 2]"

definition partial_round_gate :: "nat list \<Rightarrow> nat list \<Rightarrow> nat \<Rightarrow> 'f Expression list" where
  "partial_round_gate st rc sel =
     [let s = SelectorQ sel;
          x = AdviceQ (st ! 0) cur + FixedQ (rc ! 0) cur;
          state_0_next = AdviceQ (st ! 0) nxt;
          x2 = x * x; x4 = x2 * x2; x5 = x4 * x
      in s * (state_0_next - x5)]"

definition poseidon_configure :: "('f ConstraintSystem, PoseidonConfig) state" where
  "poseidon_configure = do {
     a0 \<leftarrow> advice_column; a1 \<leftarrow> advice_column; a2 \<leftarrow> advice_column;
     r0 \<leftarrow> fixed_column; r1 \<leftarrow> fixed_column; r2 \<leftarrow> fixed_column;
     m00 \<leftarrow> fixed_column; m01 \<leftarrow> fixed_column; m02 \<leftarrow> fixed_column;
     m10 \<leftarrow> fixed_column; m11 \<leftarrow> fixed_column; m12 \<leftarrow> fixed_column;
     m20 \<leftarrow> fixed_column; m21 \<leftarrow> fixed_column; m22 \<leftarrow> fixed_column;
     full \<leftarrow> selector; part \<leftarrow> selector;
     enable_equality (Advice a0); enable_equality (Advice a1); enable_equality (Advice a2);
     create_gate ''poseidon_full_round'' (full_round_gate [a0, a1, a2] [r0, r1, r2] full);
     create_gate ''poseidon_partial_round'' (partial_round_gate [a0, a1, a2] [r0, r1, r2] part);
     State_Monad.return \<lparr>state_cols = [a0, a1, a2], round_constants = [r0, r1, r2],
       mds_matrix = [[m00, m01, m02], [m10, m11, m12], [m20, m21, m22]], s_full = full, s_partial = part\<rparr> }"

section \<open>Layouts\<close>

text \<open>A cell is its region, advice column and offset; \<open>Value\<close> is an option, and an assigned cell carries its value.\<close>

type_synonym cell = "nat \<times> nat \<times> nat"

type_synonym 'f AssignedCell = "cell \<times> 'f option"

record 'f Layout =
  next_region :: nat
  assigned :: "(cell \<times> 'f option) list"
  enabled :: "(nat \<times> nat \<times> nat) list"
  copies :: "(cell \<times> cell) list"
  exposed :: "(cell \<times> nat \<times> nat) list"

definition new_layout :: "'f Layout" where
  "new_layout = \<lparr>next_region = 0, assigned = [], enabled = [], copies = [], exposed = []\<rparr>"

definition assign_region :: "(nat \<Rightarrow> ('f Layout, 'a) state) \<Rightarrow> ('f Layout, 'a) state" where
  "assign_region body = State (\<lambda>l. run_state (body (next_region l)) (l\<lparr>next_region := Suc (next_region l)\<rparr>))"

definition assign_advice :: "nat \<Rightarrow> nat \<Rightarrow> nat \<Rightarrow> 'f option \<Rightarrow> ('f Layout, 'f AssignedCell) state" where
  "assign_advice region col off v =
     State (\<lambda>l. (((region, col, off), v), l\<lparr>assigned := ((region, col, off), v) # assigned l\<rparr>))"

definition enable :: "nat \<Rightarrow> nat \<Rightarrow> nat \<Rightarrow> ('f Layout, unit) state" where
  "enable sel region off = State (\<lambda>l. ((), l\<lparr>enabled := (sel, region, off) # enabled l\<rparr>))"

definition copy_advice :: "'f AssignedCell \<Rightarrow> nat \<Rightarrow> nat \<Rightarrow> nat \<Rightarrow> ('f Layout, 'f AssignedCell) state" where
  "copy_advice src region col off =
     State (\<lambda>l. (((region, col, off), snd src),
       l\<lparr>assigned := ((region, col, off), snd src) # assigned l, copies := (fst src, (region, col, off)) # copies l\<rparr>))"

definition constrain_instance :: "'f AssignedCell \<Rightarrow> nat \<Rightarrow> nat \<Rightarrow> ('f Layout, unit) state" where
  "constrain_instance c col row = State (\<lambda>l. ((), l\<lparr>exposed := (fst c, col, row) # exposed l\<rparr>))"

primrec enable_all :: "nat \<Rightarrow> nat \<Rightarrow> nat list \<Rightarrow> ('f Layout, unit) state" where
  "enable_all sel region [] = State_Monad.return ()"
| "enable_all sel region (off # offs) = do { enable sel region off; enable_all sel region offs }"

definition poseidon_chip_hash :: "PoseidonConfig \<Rightarrow> 'f::zero AssignedCell \<Rightarrow> 'f AssignedCell \<Rightarrow> ('f Layout, 'f AssignedCell) state" where
  "poseidon_chip_hash config left right = assign_region (\<lambda>region. do {
     zero \<leftarrow> assign_advice region (state_cols config ! 0) 0 (Some 0);
     l \<leftarrow> copy_advice left region (state_cols config ! 1) 0;
     r \<leftarrow> copy_advice right region (state_cols config ! 2) 0;
     let offset = 0;
     enable_all (s_full config) region [offset ..< offset + FULL_ROUNDS div 2];
     let offset = offset + FULL_ROUNDS div 2;
     enable_all (s_partial config) region [offset ..< offset + PARTIAL_ROUNDS];
     let offset = offset + PARTIAL_ROUNDS;
     enable_all (s_full config) region [offset ..< offset + FULL_ROUNDS div 2];
     let offset = offset + FULL_ROUNDS div 2;
     assign_advice region (state_cols config ! 1) offset (Some 0) })"

section \<open>The Merkle gadget\<close>

definition TREE_DEPTH :: nat where "TREE_DEPTH = 32"

record MerkleConfig =
  m_poseidon :: PoseidonConfig
  path_bits :: nat
  s_merkle :: nat

definition merkle_configure :: "PoseidonConfig \<Rightarrow> ('f::one ConstraintSystem, MerkleConfig) state" where
  "merkle_configure poseidon = do {
     bits \<leftarrow> advice_column;
     sel \<leftarrow> selector;
     create_gate ''merkle_path_bit''
       [SelectorQ sel * (AdviceQ bits cur * (AdviceQ bits cur - Constant 1))];
     State_Monad.return \<lparr>m_poseidon = poseidon, path_bits = bits, s_merkle = sel\<rparr> }"

text \<open>One level of a path: sibling and direction, both hashes, and the selected one.\<close>

definition merkle_level :: "PoseidonConfig \<Rightarrow> MerkleConfig \<Rightarrow> nat \<Rightarrow> 'f::zero option \<Rightarrow> 'f option \<Rightarrow> 'f AssignedCell
    \<Rightarrow> ('f Layout, 'f AssignedCell) state" where
  "merkle_level poseidon merkle adv0 sibling direction current = do {
     (path_elem, path_bit) \<leftarrow> assign_region (\<lambda>region. do {
       enable (s_merkle merkle) region 0;
       elem \<leftarrow> assign_advice region adv0 0 sibling;
       bit \<leftarrow> assign_advice region (path_bits merkle) 0 direction;
       State_Monad.return (elem, bit) });
     hash_lr \<leftarrow> poseidon_chip_hash poseidon current path_elem;
     hash_rl \<leftarrow> poseidon_chip_hash poseidon path_elem current;
     assign_region (\<lambda>region. assign_advice region adv0 0
       (Option.bind (snd path_bit) (\<lambda>b. if b = 0 then snd hash_lr else snd hash_rl))) }"

fun merkle_path :: "PoseidonConfig \<Rightarrow> MerkleConfig \<Rightarrow> nat \<Rightarrow> (nat \<Rightarrow> 'f::zero option) \<Rightarrow> (nat \<Rightarrow> 'f option) \<Rightarrow> nat list
    \<Rightarrow> 'f AssignedCell \<Rightarrow> ('f Layout, 'f AssignedCell) state" where
  "merkle_path poseidon merkle adv0 path bits [] current = State_Monad.return current"
| "merkle_path poseidon merkle adv0 path bits (i # is) current = do {
     current \<leftarrow> merkle_level poseidon merkle adv0 (path i) (bits i) current;
     merkle_path poseidon merkle adv0 path bits is current }"

section \<open>Parts shared by the circuits\<close>

definition assign_note :: "nat list \<Rightarrow> 'f option \<Rightarrow> 'f option \<Rightarrow> 'f option
    \<Rightarrow> ('f Layout, 'f AssignedCell \<times> 'f AssignedCell \<times> 'f AssignedCell) state" where
  "assign_note advice secret nonce val = assign_region (\<lambda>region. do {
     s \<leftarrow> assign_advice region (advice ! 0) 0 secret;
     n \<leftarrow> assign_advice region (advice ! 1) 0 nonce;
     v \<leftarrow> assign_advice region (advice ! 2) 0 val;
     State_Monad.return (s, n, v) })"

definition assign_pair :: "nat list \<Rightarrow> 'f option \<Rightarrow> 'f option \<Rightarrow> ('f Layout, 'f AssignedCell \<times> 'f AssignedCell) state" where
  "assign_pair advice a b = assign_region (\<lambda>region. do {
     x \<leftarrow> assign_advice region (advice ! 0) 0 a;
     y \<leftarrow> assign_advice region (advice ! 1) 0 b;
     State_Monad.return (x, y) })"

text \<open>\<open>Poseidon(Poseidon(a, b), c)\<close>, as commitments and nullifiers are computed.\<close>

definition hash3 :: "PoseidonConfig \<Rightarrow> 'f::zero AssignedCell \<Rightarrow> 'f AssignedCell \<Rightarrow> 'f AssignedCell \<Rightarrow> ('f Layout, 'f AssignedCell) state" where
  "hash3 poseidon a b c = do {
     inner \<leftarrow> poseidon_chip_hash poseidon a b;
     poseidon_chip_hash poseidon inner c }"

section \<open>The transfer circuit\<close>

record 'f TransferCircuit =
  in_secret_0 :: "'f option"
  in_nonce_0 :: "'f option"
  in_value_0 :: "'f option"
  in_path_0 :: "nat \<Rightarrow> 'f option"
  in_bits_0 :: "nat \<Rightarrow> 'f option"
  in_secret_1 :: "'f option"
  in_nonce_1 :: "'f option"
  in_value_1 :: "'f option"
  in_path_1 :: "nat \<Rightarrow> 'f option"
  in_bits_1 :: "nat \<Rightarrow> 'f option"
  out_secret_0 :: "'f option"
  out_nonce_0 :: "'f option"
  out_value_0 :: "'f option"
  out_secret_1 :: "'f option"
  out_nonce_1 :: "'f option"
  out_value_1 :: "'f option"
  t_chain_id :: "'f option"
  t_app_id :: "'f option"

record TransferConfig =
  t_poseidon :: PoseidonConfig
  t_merkle :: MerkleConfig
  t_instance :: nat
  t_advice :: "nat list"
  s_value_check :: nat

definition value_conservation_gate :: "nat list \<Rightarrow> nat \<Rightarrow> 'f Expression list" where
  "value_conservation_gate advice sel =
     [let s = SelectorQ sel;
          in_0 = AdviceQ (advice ! 0) cur; in_1 = AdviceQ (advice ! 1) cur;
          out_0 = AdviceQ (advice ! 2) cur; out_1 = AdviceQ (advice ! 3) cur
      in s * ((in_0 + in_1) - (out_0 + out_1))]"

definition transfer_configure :: "('f::one ConstraintSystem, TransferConfig) state" where
  "transfer_configure = do {
     poseidon \<leftarrow> poseidon_configure;
     merkle \<leftarrow> merkle_configure poseidon;
     inst \<leftarrow> instance_column;
     enable_equality (Instance inst);
     a0 \<leftarrow> advice_column; a1 \<leftarrow> advice_column; a2 \<leftarrow> advice_column; a3 \<leftarrow> advice_column;
     enable_equality (Advice a0); enable_equality (Advice a1); enable_equality (Advice a2); enable_equality (Advice a3);
     sel \<leftarrow> selector;
     create_gate ''value_conservation'' (value_conservation_gate [a0, a1, a2, a3] sel);
     State_Monad.return \<lparr>t_poseidon = poseidon, t_merkle = merkle, t_instance = inst,
       t_advice = [a0, a1, a2, a3], s_value_check = sel\<rparr> }"

definition value_conservation :: "TransferConfig \<Rightarrow> 'f AssignedCell \<Rightarrow> 'f AssignedCell \<Rightarrow> 'f AssignedCell \<Rightarrow> 'f option
    \<Rightarrow> ('f Layout, 'f AssignedCell) state" where
  "value_conservation config in_0 in_1 out_0 out_1 = assign_region (\<lambda>region. do {
     enable (s_value_check config) region 0;
     copy_advice in_0 region (t_advice config ! 0) 0;
     copy_advice in_1 region (t_advice config ! 1) 0;
     copy_advice out_0 region (t_advice config ! 2) 0;
     assign_advice region (t_advice config ! 3) 0 out_1 })"

text \<open>The four stages of \<open>synthesize\<close>: notes, nullifiers, Merkle paths, public inputs.\<close>

definition transfer_notes :: "'f::zero TransferCircuit \<Rightarrow> TransferConfig
    \<Rightarrow> ('f Layout, ('f AssignedCell \<times> 'f AssignedCell) \<times> ('f AssignedCell \<times> 'f AssignedCell) \<times> 'f AssignedCell \<times> 'f AssignedCell) state" where
  "transfer_notes self config = do {
     (secret_0, nonce_0, value_0) \<leftarrow> assign_note (t_advice config) (in_secret_0 self) (in_nonce_0 self) (in_value_0 self);
     in_commitment_0 \<leftarrow> hash3 (t_poseidon config) secret_0 nonce_0 value_0;
     (secret_1, nonce_1, value_1) \<leftarrow> assign_note (t_advice config) (in_secret_1 self) (in_nonce_1 self) (in_value_1 self);
     in_commitment_1 \<leftarrow> hash3 (t_poseidon config) secret_1 nonce_1 value_1;
     (o_secret_0, o_nonce_0, o_value_0) \<leftarrow> assign_note (t_advice config) (out_secret_0 self) (out_nonce_0 self) (out_value_0 self);
     out_commitment_0 \<leftarrow> hash3 (t_poseidon config) o_secret_0 o_nonce_0 o_value_0;
     out_value_1_cell \<leftarrow> value_conservation config value_0 value_1 o_value_0 (out_value_1 self);
     (o_secret_1, o_nonce_1) \<leftarrow> assign_pair (t_advice config) (out_secret_1 self) (out_nonce_1 self);
     out_commitment_1 \<leftarrow> hash3 (t_poseidon config) o_secret_1 o_nonce_1 out_value_1_cell;
     State_Monad.return ((secret_0, in_commitment_0), (secret_1, in_commitment_1), out_commitment_0, out_commitment_1) }"

definition transfer_nullifiers :: "'f::zero TransferCircuit \<Rightarrow> TransferConfig \<Rightarrow> 'f AssignedCell \<times> 'f AssignedCell
    \<Rightarrow> 'f AssignedCell \<times> 'f AssignedCell \<Rightarrow> ('f Layout, 'f AssignedCell \<times> 'f AssignedCell) state" where
  "transfer_nullifiers self config note_0 note_1 = do {
     (chain_id_cell, app_id_cell) \<leftarrow> assign_pair (t_advice config) (t_chain_id self) (t_app_id self);
     domain_hash \<leftarrow> poseidon_chip_hash (t_poseidon config) chain_id_cell app_id_cell;
     nullifier_0 \<leftarrow> hash3 (t_poseidon config) (fst note_0) (snd note_0) domain_hash;
     nullifier_1 \<leftarrow> hash3 (t_poseidon config) (fst note_1) (snd note_1) domain_hash;
     State_Monad.return (nullifier_0, nullifier_1) }"

definition transfer_expose :: "TransferConfig \<Rightarrow> 'f AssignedCell \<Rightarrow> 'f AssignedCell \<Rightarrow> 'f AssignedCell \<times> 'f AssignedCell
    \<Rightarrow> 'f AssignedCell \<Rightarrow> 'f AssignedCell \<Rightarrow> ('f Layout, unit) state" where
  "transfer_expose config root_0 root_1 nuls out_0 out_1 = do {
     constrain_instance root_0 (t_instance config) 0;
     constrain_instance root_1 (t_instance config) 0;
     constrain_instance (fst nuls) (t_instance config) 1;
     constrain_instance (snd nuls) (t_instance config) 2;
     constrain_instance out_0 (t_instance config) 3;
     constrain_instance out_1 (t_instance config) 4 }"

definition transfer_synthesize :: "'f::zero TransferCircuit \<Rightarrow> TransferConfig \<Rightarrow> ('f Layout, unit) state" where
  "transfer_synthesize self config = do {
     (note_0, note_1, out_commitment_0, out_commitment_1) \<leftarrow> transfer_notes self config;
     nuls \<leftarrow> transfer_nullifiers self config note_0 note_1;
     root_0 \<leftarrow> merkle_path (t_poseidon config) (t_merkle config) (t_advice config ! 0) (in_path_0 self) (in_bits_0 self)
       [0 ..< TREE_DEPTH] (snd note_0);
     root_1 \<leftarrow> merkle_path (t_poseidon config) (t_merkle config) (t_advice config ! 0) (in_path_1 self) (in_bits_1 self)
       [0 ..< TREE_DEPTH] (snd note_1);
     transfer_expose config root_0 root_1 nuls out_commitment_0 out_commitment_1 }"

section \<open>The withdraw circuit\<close>

record 'f WithdrawCircuit =
  in_secret :: "'f option"
  in_nonce :: "'f option"
  in_value :: "'f option"
  in_path :: "nat \<Rightarrow> 'f option"
  in_bits :: "nat \<Rightarrow> 'f option"
  withdraw_value :: "'f option"
  change_secret :: "'f option"
  change_nonce :: "'f option"
  change_value :: "'f option"
  w_chain_id :: "'f option"
  w_app_id :: "'f option"

record WithdrawConfig =
  w_poseidon :: PoseidonConfig
  w_merkle :: MerkleConfig
  w_instance :: nat
  w_advice :: "nat list"
  s_value_split :: nat

definition withdraw_configure :: "('f::one ConstraintSystem, WithdrawConfig) state" where
  "withdraw_configure = do {
     poseidon \<leftarrow> poseidon_configure;
     merkle \<leftarrow> merkle_configure poseidon;
     inst \<leftarrow> instance_column;
     enable_equality (Instance inst);
     a0 \<leftarrow> advice_column; a1 \<leftarrow> advice_column; a2 \<leftarrow> advice_column;
     enable_equality (Advice a0); enable_equality (Advice a1); enable_equality (Advice a2);
     sel \<leftarrow> selector;
     create_gate ''value_split''
       [SelectorQ sel * (AdviceQ a0 cur - (AdviceQ a1 cur + AdviceQ a2 cur))];
     State_Monad.return \<lparr>w_poseidon = poseidon, w_merkle = merkle, w_instance = inst,
       w_advice = [a0, a1, a2], s_value_split = sel\<rparr> }"

definition value_split :: "WithdrawConfig \<Rightarrow> 'f AssignedCell \<Rightarrow> 'f option \<Rightarrow> 'f option
    \<Rightarrow> ('f Layout, 'f AssignedCell \<times> 'f AssignedCell) state" where
  "value_split config input w c = assign_region (\<lambda>region. do {
     enable (s_value_split config) region 0;
     copy_advice input region (w_advice config ! 0) 0;
     x \<leftarrow> assign_advice region (w_advice config ! 1) 0 w;
     y \<leftarrow> assign_advice region (w_advice config ! 2) 0 c;
     State_Monad.return (x, y) })"

definition withdraw_synthesize :: "'f::zero WithdrawCircuit \<Rightarrow> WithdrawConfig \<Rightarrow> ('f Layout, unit) state" where
  "withdraw_synthesize self config = do {
     (secret, nonce, val) \<leftarrow> assign_note (w_advice config) (in_secret self) (in_nonce self) (in_value self);
     commitment \<leftarrow> hash3 (w_poseidon config) secret nonce val;
     (withdraw_cell, change_cell) \<leftarrow> value_split config val (withdraw_value self) (change_value self);
     (chain_id_cell, app_id_cell) \<leftarrow> assign_pair (w_advice config) (w_chain_id self) (w_app_id self);
     domain_hash \<leftarrow> poseidon_chip_hash (w_poseidon config) chain_id_cell app_id_cell;
     nullifier \<leftarrow> hash3 (w_poseidon config) secret commitment domain_hash;
     (c_secret, c_nonce) \<leftarrow> assign_pair (w_advice config) (change_secret self) (change_nonce self);
     change_commitment \<leftarrow> hash3 (w_poseidon config) c_secret c_nonce change_cell;
     merkle_root \<leftarrow> merkle_path (w_poseidon config) (w_merkle config) (w_advice config ! 0) (in_path self) (in_bits self)
       [0 ..< TREE_DEPTH] commitment;
     constrain_instance merkle_root (w_instance config) 0;
     constrain_instance nullifier (w_instance config) 1;
     constrain_instance withdraw_cell (w_instance config) 2;
     constrain_instance change_commitment (w_instance config) 3 }"

section \<open>The epoch root circuit\<close>

definition EPOCH_BATCH_SIZE :: nat where "EPOCH_BATCH_SIZE = 64"

definition EPOCH_TREE_DEPTH :: nat where "EPOCH_TREE_DEPTH = 6"

record 'f EpochRootCircuit =
  e_nullifiers :: "nat \<Rightarrow> 'f option"
  prev_epoch_root :: "'f option"
  epoch_number :: "'f option"
  e_nullifier_count :: "'f option"

record EpochRootConfig =
  e_poseidon :: PoseidonConfig
  e_instance :: nat
  e_advice :: "nat list"
  s_chain :: nat

definition epoch_configure :: "('f ConstraintSystem, EpochRootConfig) state" where
  "epoch_configure = do {
     poseidon \<leftarrow> poseidon_configure;
     inst \<leftarrow> instance_column;
     enable_equality (Instance inst);
     a0 \<leftarrow> advice_column; a1 \<leftarrow> advice_column; a2 \<leftarrow> advice_column;
     enable_equality (Advice a0); enable_equality (Advice a1); enable_equality (Advice a2);
     sel \<leftarrow> selector;
     create_gate ''epoch_chain''
       [SelectorQ sel * (AdviceQ a2 cur - (AdviceQ a0 cur + AdviceQ a1 cur))];
     State_Monad.return \<lparr>e_poseidon = poseidon, e_instance = inst, e_advice = [a0, a1, a2], s_chain = sel\<rparr> }"

primrec assign_leaves :: "nat \<Rightarrow> (nat \<Rightarrow> 'f option) \<Rightarrow> nat list \<Rightarrow> ('f Layout, 'f AssignedCell list) state" where
  "assign_leaves adv0 nuls [] = State_Monad.return []"
| "assign_leaves adv0 nuls (idx # idxs) = do {
     c \<leftarrow> assign_region (\<lambda>region. assign_advice region adv0 0 (nuls idx));
     leaves \<leftarrow> assign_leaves adv0 nuls idxs;
     State_Monad.return (c # leaves) }"

text \<open>One layer of the tree: consecutive pairs are hashed, an odd last cell is dropped.\<close>

fun next_layer :: "PoseidonConfig \<Rightarrow> 'f::zero AssignedCell list \<Rightarrow> ('f Layout, 'f AssignedCell list) state" where
  "next_layer poseidon (left # right # layer) = do {
     parent \<leftarrow> poseidon_chip_hash poseidon left right;
     parents \<leftarrow> next_layer poseidon layer;
     State_Monad.return (parent # parents) }"
| "next_layer poseidon _ = State_Monad.return []"

primrec build_tree :: "PoseidonConfig \<Rightarrow> nat \<Rightarrow> 'f::zero AssignedCell list \<Rightarrow> ('f Layout, 'f AssignedCell list) state" where
  "build_tree poseidon 0 layer = State_Monad.return layer"
| "build_tree poseidon (Suc depth) layer = do {
     layer \<leftarrow> next_layer poseidon layer;
     build_tree poseidon depth layer }"

text \<open>The \<open>unwrap\<close> of the first cell of the last layer is on a list of one cell (\<open>batch_layer_length\<close>).\<close>

definition epoch_synthesize :: "'f::zero EpochRootCircuit \<Rightarrow> EpochRootConfig \<Rightarrow> ('f Layout, unit) state" where
  "epoch_synthesize self config = do {
     leaves \<leftarrow> assign_leaves (e_advice config ! 0) (e_nullifiers self) [0 ..< EPOCH_BATCH_SIZE];
     layer \<leftarrow> build_tree (e_poseidon config) EPOCH_TREE_DEPTH leaves;
     let batch_root = hd layer;
     prev_root \<leftarrow> assign_region (\<lambda>region. assign_advice region (e_advice config ! 0) 0 (prev_epoch_root self));
     new_epoch_root \<leftarrow> poseidon_chip_hash (e_poseidon config) prev_root batch_root;
     (epoch_num_cell, nul_count_cell) \<leftarrow> assign_pair (e_advice config) (epoch_number self) (e_nullifier_count self);
     constrain_instance prev_root (e_instance config) 0;
     constrain_instance new_epoch_root (e_instance config) 1;
     constrain_instance epoch_num_cell (e_instance config) 2;
     constrain_instance nul_count_cell (e_instance config) 3 }"

end
