(* ===== verification/Circuit_Properties.thy ===== *)
theory Circuit_Properties
  imports Lumora_Circuits
begin

text \<open>
  What the circuits of the coprocessor prove. A verifier accepts public inputs if there are values for the advice cells
  under which every gate vanishes in every row with a selector, copied cells agree and exposed cells have the public
  values; cells of fixed columns that are never assigned are zero. The first part gives rules for the existence and for
  the consequences of such values along a run of \<open>synthesize\<close>, the second the exact public inputs each circuit accepts,
  the third the witness the code itself assigns.
\<close>

section \<open>Satisfaction\<close>

type_synonym 'f advice = "nat \<Rightarrow> nat \<Rightarrow> nat \<Rightarrow> 'f"

primrec eval :: "(nat \<Rightarrow> bool) \<Rightarrow> (nat \<Rightarrow> nat \<Rightarrow> 'f::comm_ring_1) \<Rightarrow> nat \<Rightarrow> 'f Expression \<Rightarrow> 'f" where
  "eval on a off (Constant c) = c"
| "eval on a off (SelectorQ s) = (if on s then 1 else 0)"
| "eval on a off (AdviceQ c k) = a c (off + k)"
| "eval on a off (FixedQ c k) = 0"
| "eval on a off (Negated e) = - eval on a off e"
| "eval on a off (Sum e f) = eval on a off e + eval on a off f"
| "eval on a off (Product e f) = eval on a off e * eval on a off f"

definition cell_value :: "'f advice \<Rightarrow> cell \<Rightarrow> 'f" where
  "cell_value adv c = (case c of (r, col, off) \<Rightarrow> adv r col off)"

definition satisfied :: "'f::comm_ring_1 ConstraintSystem \<Rightarrow> (nat \<Rightarrow> nat \<Rightarrow> 'f) \<Rightarrow> 'f Layout \<Rightarrow> 'f advice \<Rightarrow> bool" where
  "satisfied cs pub l adv \<longleftrightarrow>
     (\<forall>(s, r, off) \<in> set (enabled l). \<forall>(name, ps) \<in> set (gates cs). \<forall>p \<in> set ps.
        eval (\<lambda>s'. (s', r, off) \<in> set (enabled l)) (adv r) off p = 0) \<and>
     (\<forall>(a, b) \<in> set (copies l). cell_value adv a = cell_value adv b) \<and>
     (\<forall>(c, col, row) \<in> set (exposed l). cell_value adv c = pub col row)"

definition laid_out :: "('f ConstraintSystem, 'c) state \<Rightarrow> ('c \<Rightarrow> ('f Layout, unit) state) \<Rightarrow> 'f ConstraintSystem \<times> 'f Layout" where
  "laid_out configure synthesize =
     (let (config, cs) = run_state configure new_cs in (cs, snd (run_state (synthesize config) new_layout)))"

text \<open>The public inputs for which there is a proof, and the witness that the code assigns (unassigned cells are zero).\<close>

definition provable :: "'f::comm_ring_1 ConstraintSystem \<times> 'f Layout \<Rightarrow> (nat \<Rightarrow> nat \<Rightarrow> 'f) \<Rightarrow> bool" where
  "provable circuit pub \<longleftrightarrow> (\<exists>adv. satisfied (fst circuit) pub (snd circuit) adv)"

definition own_witness :: "'f::zero Layout \<Rightarrow> 'f advice" where
  "own_witness l r c off = (case map_of (assigned l) (r, c, off) of Some (Some v) \<Rightarrow> v | _ \<Rightarrow> 0)"

section \<open>Rows instead of gates\<close>

text \<open>
  Every gate of the code is a selector times an expression without selectors, so a gate restricts only the rows where its
  own selector is enabled. A row predicate says for every selector what it demands of a region at an offset.
\<close>

type_synonym 'f rows = "nat \<Rightarrow> (nat \<Rightarrow> nat \<Rightarrow> 'f) \<Rightarrow> nat \<Rightarrow> bool"

definition holds :: "'f rows \<Rightarrow> (nat \<Rightarrow> nat \<Rightarrow> 'f) \<Rightarrow> 'f Layout \<Rightarrow> 'f advice \<Rightarrow> bool" where
  "holds g pub l adv \<longleftrightarrow>
     (\<forall>(s, r, off) \<in> set (enabled l). g s (adv r) off) \<and>
     (\<forall>(a, b) \<in> set (copies l). cell_value adv a = cell_value adv b) \<and>
     (\<forall>(c, col, row) \<in> set (exposed l). cell_value adv c = pub col row)"

primrec selector_free :: "'f Expression \<Rightarrow> bool" where
  "selector_free (Constant c) = True"
| "selector_free (SelectorQ s) = False"
| "selector_free (AdviceQ c k) = True"
| "selector_free (FixedQ c k) = True"
| "selector_free (Negated e) = selector_free e"
| "selector_free (Sum e f) = (selector_free e \<and> selector_free f)"
| "selector_free (Product e f) = (selector_free e \<and> selector_free f)"

fun guarded :: "'f Expression \<Rightarrow> bool" where
  "guarded (Product (SelectorQ s) e) = selector_free e"
| "guarded _ = False"

fun demand :: "nat \<Rightarrow> (nat \<Rightarrow> nat \<Rightarrow> 'f::comm_ring_1) \<Rightarrow> nat \<Rightarrow> 'f Expression \<Rightarrow> bool" where
  "demand s a off (Product (SelectorQ s') e) = (s' = s \<longrightarrow> eval (\<lambda>_. False) a off e = 0)"
| "demand s a off _ = True"

definition gate_rows :: "'f::comm_ring_1 ConstraintSystem \<Rightarrow> 'f rows" where
  "gate_rows cs s a off \<longleftrightarrow> (\<forall>(name, ps) \<in> set (gates cs). \<forall>p \<in> set ps. demand s a off p)"

lemma eval_selector_free: "selector_free e \<Longrightarrow> eval on a off e = eval on' a off e"
  by (induction e) auto

lemma eval_guarded:
  assumes "guarded p"
  shows "eval on a off p = 0 \<longleftrightarrow> (\<forall>s. on s \<longrightarrow> demand s a off p)"
proof -
  obtain s e where p: "p = Product (SelectorQ s) e" and "selector_free e"
    using assms by (cases p rule: guarded.cases) auto
  then have "eval on a off e = eval (\<lambda>_. False) a off e" by (intro eval_selector_free)
  then show ?thesis by (auto simp: p)
qed

lemma satisfied_holds:
  assumes "\<forall>(name, ps) \<in> set (gates cs). \<forall>p \<in> set ps. guarded p"
  shows "satisfied cs pub l adv = holds (gate_rows cs) pub l adv"
proof -
  have "(\<forall>(s, r, off) \<in> set (enabled l). \<forall>(name, ps) \<in> set (gates cs). \<forall>p \<in> set ps.
        eval (\<lambda>s'. (s', r, off) \<in> set (enabled l)) (adv r) off p = 0) \<longleftrightarrow>
      (\<forall>(s, r, off) \<in> set (enabled l). \<forall>(name, ps) \<in> set (gates cs). \<forall>p \<in> set ps.
        \<forall>s'. (s', r, off) \<in> set (enabled l) \<longrightarrow> demand s' (adv r) off p)"
    using assms by (fastforce simp: eval_guarded)
  also have "\<dots> \<longleftrightarrow> (\<forall>(s, r, off) \<in> set (enabled l). gate_rows cs s (adv r) off)"
    unfolding gate_rows_def by fastforce
  finally show ?thesis by (simp add: satisfied_def holds_def)
qed

section \<open>Rules for runs\<close>

definition wf_layout :: "'f Layout \<Rightarrow> bool" where
  "wf_layout l \<longleftrightarrow>
     (\<forall>(s, r, off) \<in> set (enabled l). r < next_region l) \<and>
     (\<forall>(a, b) \<in> set (copies l). fst a < next_region l \<and> fst b < next_region l) \<and>
     (\<forall>(c, k) \<in> set (exposed l). fst c < next_region l) \<and>
     (\<forall>(c, v) \<in> set (assigned l). fst c < next_region l)"

text \<open>What the next region records: its assignments, enabled selectors and cells copied from elsewhere.\<close>

definition add_region :: "((nat \<times> nat) \<times> 'f option) list \<Rightarrow> (nat \<times> nat) list \<Rightarrow> (cell \<times> nat \<times> nat) list \<Rightarrow> 'f Layout \<Rightarrow> 'f Layout" where
  "add_region A E K l = (let n = next_region l in
     l\<lparr>next_region := Suc n,
       assigned := map (\<lambda>((c, off), v). ((n, c, off), v)) A @ assigned l,
       enabled := map (\<lambda>(s, off). (s, n, off)) E @ enabled l,
       copies := map (\<lambda>(src, c, off). (src, (n, c, off))) K @ copies l\<rparr>)"

definition knows :: "(cell \<times> 'f) set \<Rightarrow> 'f Layout \<Rightarrow> 'f advice \<Rightarrow> bool" where
  "knows F l adv \<longleftrightarrow> (\<forall>(c, v) \<in> F. fst c < next_region l \<and> cell_value adv c = v)"

lemma knows_mono: "knows F l adv \<Longrightarrow> G \<subseteq> F \<Longrightarrow> knows G l adv"
  by (auto simp: knows_def)

lemma wf_add_region:
  assumes "wf_layout l" and "\<And>src c off. (src, c, off) \<in> set K \<Longrightarrow> fst src < next_region l"
  shows "wf_layout (add_region A E K l)"
  using assms unfolding wf_layout_def add_region_def Let_def by (fastforce simp: less_Suc_eq)

lemma wf_new_layout: "wf_layout new_layout"
  by (simp add: wf_layout_def new_layout_def)

lemma cell_value_upd:
  "fst c \<noteq> n \<Longrightarrow> cell_value (adv(n := a)) c = cell_value adv c"
  "cell_value (adv(n := a)) (n, k, off) = a k off"
  by (auto simp: cell_value_def split: prod.splits)

lemma holds_add_region:
  assumes wf: "wf_layout l" and K: "\<And>src c off. (src, c, off) \<in> set K \<Longrightarrow> fst src < next_region l"
    and agree: "\<And>r. r < next_region l \<Longrightarrow> adv' r = adv r"
  shows "holds g pub (add_region A E K l) adv' \<longleftrightarrow>
    holds g pub l adv \<and> (\<forall>(s, off) \<in> set E. g s (adv' (next_region l)) off) \<and>
    (\<forall>(src, c, off) \<in> set K. cell_value adv src = adv' (next_region l) c off)"
proof -
  have cv: "cell_value adv' c = cell_value adv c" if "fst c < next_region l" for c
    using agree [of "fst c"] that by (cases c) (simp add: cell_value_def)
  have e1: "(\<forall>(s, r, off) \<in> set (enabled l). g s (adv' r) off) \<longleftrightarrow> (\<forall>(s, r, off) \<in> set (enabled l). g s (adv r) off)"
    using wf agree unfolding wf_layout_def by fastforce
  have e2: "(\<forall>(a, b) \<in> set (copies l). cell_value adv' a = cell_value adv' b) \<longleftrightarrow>
      (\<forall>(a, b) \<in> set (copies l). cell_value adv a = cell_value adv b)"
    using wf cv unfolding wf_layout_def by fastforce
  have e3: "(\<forall>(c, col, row) \<in> set (exposed l). cell_value adv' c = pub col row) \<longleftrightarrow>
      (\<forall>(c, col, row) \<in> set (exposed l). cell_value adv c = pub col row)"
    using wf cv unfolding wf_layout_def by fastforce
  have e4: "(\<forall>(src, c, off) \<in> set K. cell_value adv' src = adv' (next_region l) c off) \<longleftrightarrow>
      (\<forall>(src, c, off) \<in> set K. cell_value adv src = adv' (next_region l) c off)"
    using K cv by fastforce
  have e5: "holds g pub (add_region A E K l) adv' \<longleftrightarrow>
      ((\<forall>(s, off) \<in> set E. g s (adv' (next_region l)) off) \<and> (\<forall>(s, r, off) \<in> set (enabled l). g s (adv' r) off)) \<and>
      ((\<forall>(src, c, off) \<in> set K. cell_value adv' src = adv' (next_region l) c off) \<and>
       (\<forall>(a, b) \<in> set (copies l). cell_value adv' a = cell_value adv' b)) \<and>
      (\<forall>(c, col, row) \<in> set (exposed l). cell_value adv' c = pub col row)"
    by (simp add: holds_def add_region_def Let_def ball_Un case_prod_unfold cell_value_def)
  show ?thesis unfolding e5 e1 e2 e3 e4 unfolding holds_def by (simp only: conj_ac)
qed

section \<open>What each operation records\<close>

lemma run_enable_all:
  "run_state (enable_all s r offs) l = ((), l\<lparr>enabled := map (\<lambda>off. (s, r, off)) (rev offs) @ enabled l\<rparr>)"
  by (induction offs arbitrary: l) (auto simp: enable_def)

lemmas record_ops = assign_region_def assign_advice_def copy_advice_def enable_def run_enable_all add_region_def Let_def

definition hash_selectors :: "PoseidonConfig \<Rightarrow> (nat \<times> nat) list" where
  "hash_selectors cfg = map (Pair (s_full cfg)) (rev [61..<65]) @ map (Pair (s_partial cfg)) (rev [4..<61]) @
     map (Pair (s_full cfg)) (rev [0..<4])"

lemma set_hash_selectors:
  "set (hash_selectors cfg) = {s_full cfg} \<times> ({0..<4} \<union> {61..<65}) \<union> {s_partial cfg} \<times> {4..<61}"
  unfolding hash_selectors_def set_append set_map set_rev set_upt by blast

lemma run_hash:
  "run_state (poseidon_chip_hash cfg a b) l = (((next_region l, state_cols cfg ! 1, 65), Some 0),
     add_region [((state_cols cfg ! 1, 65), Some 0), ((state_cols cfg ! 2, 0), snd b), ((state_cols cfg ! 1, 0), snd a),
       ((state_cols cfg ! 0, 0), Some 0)] (hash_selectors cfg)
       [(fst b, state_cols cfg ! 2, 0), (fst a, state_cols cfg ! 1, 0)] l)"
  by (simp add: poseidon_chip_hash_def record_ops FULL_ROUNDS_def PARTIAL_ROUNDS_def hash_selectors_def comp_def)

lemma run_assign_note:
  "run_state (assign_note adv s k v) l =
     ((((next_region l, adv ! 0, 0), s), ((next_region l, adv ! 1, 0), k), ((next_region l, adv ! 2, 0), v)),
      add_region [((adv ! 2, 0), v), ((adv ! 1, 0), k), ((adv ! 0, 0), s)] [] [] l)"
  by (simp add: assign_note_def record_ops)

lemma run_assign_pair:
  "run_state (assign_pair adv x y) l =
     ((((next_region l, adv ! 0, 0), x), ((next_region l, adv ! 1, 0), y)),
      add_region [((adv ! 1, 0), y), ((adv ! 0, 0), x)] [] [] l)"
  by (simp add: assign_pair_def record_ops)

lemma run_assign_cell:
  "run_state (assign_region (\<lambda>region. assign_advice region c 0 v)) l =
     (((next_region l, c, 0), v), add_region [((c, 0), v)] [] [] l)"
  by (simp add: record_ops)

lemma run_value_conservation:
  "run_state (value_conservation cfg a b c v) l = (((next_region l, t_advice cfg ! 3, 0), v),
     add_region [((t_advice cfg ! 3, 0), v), ((t_advice cfg ! 2, 0), snd c), ((t_advice cfg ! 1, 0), snd b), ((t_advice cfg ! 0, 0), snd a)]
       [(s_value_check cfg, 0)] [(fst c, t_advice cfg ! 2, 0), (fst b, t_advice cfg ! 1, 0), (fst a, t_advice cfg ! 0, 0)] l)"
  by (simp add: value_conservation_def record_ops)

lemma run_value_split:
  "run_state (value_split cfg a x y) l = ((((next_region l, w_advice cfg ! 1, 0), x), ((next_region l, w_advice cfg ! 2, 0), y)),
     add_region [((w_advice cfg ! 2, 0), y), ((w_advice cfg ! 1, 0), x), ((w_advice cfg ! 0, 0), snd a)]
       [(s_value_split cfg, 0)] [(fst a, w_advice cfg ! 0, 0)] l)"
  by (simp add: value_split_def record_ops)

definition merkle_assign :: "MerkleConfig \<Rightarrow> nat \<Rightarrow> 'f option \<Rightarrow> 'f option \<Rightarrow> ('f Layout, 'f AssignedCell \<times> 'f AssignedCell) state" where
  "merkle_assign merkle adv0 sibling direction = assign_region (\<lambda>region. do {
     enable (s_merkle merkle) region 0;
     elem \<leftarrow> assign_advice region adv0 0 sibling;
     bit \<leftarrow> assign_advice region (path_bits merkle) 0 direction;
     State_Monad.return (elem, bit) })"

lemma run_merkle_assign:
  "run_state (merkle_assign merkle adv0 x b) l = ((((next_region l, adv0, 0), x), ((next_region l, path_bits merkle, 0), b)),
     add_region [((path_bits merkle, 0), b), ((adv0, 0), x)] [(s_merkle merkle, 0)] [] l)"
  by (simp add: merkle_assign_def record_ops)

lemma merkle_level_eq:
  "merkle_level poseidon merkle adv0 sibling direction current =
     State_Monad.bind (merkle_assign merkle adv0 sibling direction) (\<lambda>(path_elem, path_bit).
     State_Monad.bind (poseidon_chip_hash poseidon current path_elem) (\<lambda>hash_lr.
     State_Monad.bind (poseidon_chip_hash poseidon path_elem current) (\<lambda>hash_rl.
     assign_region (\<lambda>region. assign_advice region adv0 0
       (Option.bind (snd path_bit) (\<lambda>b. if b = 0 then snd hash_lr else snd hash_rl))))))"
  by (simp add: merkle_level_def merkle_assign_def)

section \<open>Existence of values\<close>

text \<open>
  \<open>solvable g pub F m G\<close>: whatever satisfying values there are before \<open>m\<close>, with the cells of \<open>F\<close> known, they extend
  to satisfying values after \<open>m\<close> with the cells of \<open>G\<close> known, which may depend on the result of \<open>m\<close>.
\<close>

definition solvable :: "'f rows \<Rightarrow> (nat \<Rightarrow> nat \<Rightarrow> 'f) \<Rightarrow> (cell \<times> 'f) set \<Rightarrow> ('f Layout, 'a) state \<Rightarrow> ('a \<Rightarrow> (cell \<times> 'f) set) \<Rightarrow> bool" where
  "solvable g pub F m G \<longleftrightarrow> (\<forall>l adv. wf_layout l \<and> holds g pub l adv \<and> knows F l adv \<longrightarrow>
     (\<exists>adv'. wf_layout (snd (run_state m l)) \<and> holds g pub (snd (run_state m l)) adv' \<and>
        knows (G (fst (run_state m l))) (snd (run_state m l)) adv'))"

lemma solvable_bind_result:
  assumes "solvable g pub F m G" and "\<And>l. P (fst (run_state m l))" and "\<And>x. P x \<Longrightarrow> solvable g pub (G x) (f x) H"
  shows "solvable g pub F (State_Monad.bind m f) H"
  unfolding solvable_def
proof (intro allI impI)
  fix l adv assume "wf_layout l \<and> holds g pub l adv \<and> knows F l adv"
  with assms(1) obtain adv' where "wf_layout (snd (run_state m l)) \<and> holds g pub (snd (run_state m l)) adv' \<and>
      knows (G (fst (run_state m l))) (snd (run_state m l)) adv'" unfolding solvable_def by blast
  with assms(3) [OF assms(2), of l] show "\<exists>adv'. wf_layout (snd (run_state (State_Monad.bind m f) l)) \<and>
      holds g pub (snd (run_state (State_Monad.bind m f) l)) adv' \<and>
      knows (H (fst (run_state (State_Monad.bind m f) l))) (snd (run_state (State_Monad.bind m f) l)) adv'"
    unfolding solvable_def by (cases "run_state m l") auto
qed

lemma solvable_bind:
  assumes "solvable g pub F m G" and "\<And>x. solvable g pub (G x) (f x) H"
  shows "solvable g pub F (State_Monad.bind m f) H"
  by (rule solvable_bind_result [OF assms(1), where P = "\<lambda>_. True"]) (simp_all add: assms(2))

lemma solvable_conseq:
  assumes "solvable g pub F m G" and "F \<subseteq> F'" and "\<And>x. G' x \<subseteq> G x"
  shows "solvable g pub F' m G'"
  unfolding solvable_def
proof (intro allI impI, elim conjE)
  fix l adv assume "wf_layout l" "holds g pub l adv" "knows F' l adv"
  then have "wf_layout l \<and> holds g pub l adv \<and> knows F l adv" using knows_mono assms(2) by auto
  with assms(1) obtain adv' where "wf_layout (snd (run_state m l))" "holds g pub (snd (run_state m l)) adv'"
    "knows (G (fst (run_state m l))) (snd (run_state m l)) adv'" unfolding solvable_def by blast
  then show "\<exists>adv'. wf_layout (snd (run_state m l)) \<and> holds g pub (snd (run_state m l)) adv' \<and>
      knows (G' (fst (run_state m l))) (snd (run_state m l)) adv'" using knows_mono [OF _ assms(3)] by auto
qed

lemma solvable_return: "G x \<subseteq> F \<Longrightarrow> solvable g pub F (State_Monad.return x) G"
  by (fastforce simp: solvable_def knows_def)

lemma solvable_region:
  assumes run: "\<And>l. snd (run_state m l) = add_region A E K l"
    and E: "\<And>s off. (s, off) \<in> set E \<Longrightarrow> g s a off"
    and K: "\<And>src c off. (src, c, off) \<in> set K \<Longrightarrow> (src, a c off) \<in> F"
    and G: "\<And>l. G (fst (run_state m l)) \<subseteq> F \<union> {((next_region l, c, off), a c off) | c off. True}"
  shows "solvable g pub F m G"
  unfolding solvable_def
proof (intro allI impI, elim conjE)
  fix l adv assume wf: "wf_layout l" and h: "holds g pub l adv" and k: "knows F l adv"
  let ?adv = "adv(next_region l := a)"
  have src: "fst src < next_region l" "cell_value adv src = a c off" if "(src, c, off) \<in> set K" for src c off
    using K [OF that] k by (auto simp: knows_def)
  have "holds g pub (add_region A E K l) ?adv"
    using h E src(2) by (subst holds_add_region [OF wf src(1), where adv = adv]) auto
  moreover have "knows (F \<union> {((next_region l, c, off), a c off) | c off. True}) (add_region A E K l) ?adv"
    using k by (auto simp: knows_def add_region_def Let_def cell_value_def)
  ultimately show "\<exists>adv'. wf_layout (snd (run_state m l)) \<and> holds g pub (snd (run_state m l)) adv' \<and>
      knows (G (fst (run_state m l))) (snd (run_state m l)) adv'"
    unfolding run by (intro exI [of _ ?adv] conjI wf_add_region [OF wf src(1)] knows_mono [OF _ G])
qed

lemma solvable_expose:
  assumes "(fst c, pub col row) \<in> F"
  shows "solvable g pub F (constrain_instance c col row) (\<lambda>_. F)"
  unfolding solvable_def
proof (intro allI impI, elim conjE)
  fix l adv assume a: "wf_layout l" "holds g pub l adv" "knows F l adv"
  then have "fst (fst c) < next_region l" "cell_value adv (fst c) = pub col row"
    using assms by (auto simp: knows_def)
  with a show "\<exists>adv'. wf_layout (snd (run_state (constrain_instance c col row) l)) \<and>
      holds g pub (snd (run_state (constrain_instance c col row) l)) adv' \<and>
      knows F (snd (run_state (constrain_instance c col row) l)) adv'"
    by (intro exI [of _ adv]) (auto simp: constrain_instance_def wf_layout_def holds_def knows_def)
qed

lemma solvable_expose_last:
  assumes "(fst c, pub col row) \<in> F"
  shows "solvable g pub F (constrain_instance c col row) (\<lambda>_. {})"
  by (rule solvable_conseq [OF solvable_expose], rule assms) auto

section \<open>Consequences of satisfaction\<close>

text \<open>\<open>forces g pub m P\<close>: values that satisfy what \<open>m\<close> has recorded satisfied the layout before, and have \<open>P\<close>.\<close>

definition forces :: "'f rows \<Rightarrow> (nat \<Rightarrow> nat \<Rightarrow> 'f) \<Rightarrow> ('f Layout, 'a) state \<Rightarrow> ('a \<Rightarrow> 'f advice \<Rightarrow> bool) \<Rightarrow> bool" where
  "forces g pub m P \<longleftrightarrow> (\<forall>l adv. holds g pub (snd (run_state m l)) adv \<longrightarrow>
     holds g pub l adv \<and> P (fst (run_state m l)) adv)"

lemma forces_bind:
  assumes "forces g pub m P" and "\<And>x. forces g pub (f x) (\<lambda>y adv. P x adv \<longrightarrow> Q y adv)"
  shows "forces g pub (State_Monad.bind m f) Q"
  unfolding forces_def
proof (intro allI impI)
  fix l adv assume h: "holds g pub (snd (run_state (State_Monad.bind m f) l)) adv"
  obtain x l' where r: "run_state m l = (x, l')" by (cases "run_state m l")
  from h r have h2: "holds g pub (snd (run_state (f x) l')) adv" by simp
  with assms(2) [of x] have "holds g pub l' adv" "P x adv \<longrightarrow> Q (fst (run_state (f x) l')) adv"
    unfolding forces_def by auto
  moreover from this(1) assms(1) r have "holds g pub l adv" "P x adv" unfolding forces_def by (metis fst_conv snd_conv)+
  ultimately show "holds g pub l adv \<and> Q (fst (run_state (State_Monad.bind m f) l)) adv" using r by simp
qed

lemma forces_weaken: "forces g pub m P \<Longrightarrow> (\<And>x adv. P x adv \<Longrightarrow> Q x adv) \<Longrightarrow> forces g pub m Q"
  by (simp add: forces_def)

lemma forces_return: "(\<And>adv. P x adv) \<Longrightarrow> forces g pub (State_Monad.return x) P"
  by (simp add: forces_def)

lemma forces_region:
  assumes run: "\<And>l. snd (run_state m l) = add_region A E K l"
    and P: "\<And>l adv. (\<And>s off. (s, off) \<in> set E \<Longrightarrow> g s (adv (next_region l)) off) \<Longrightarrow> P (fst (run_state m l)) adv"
  shows "forces g pub m P"
  unfolding forces_def run
proof (intro allI impI conjI)
  fix l adv assume h: "holds g pub (add_region A E K l) adv"
  then show "holds g pub l adv" by (simp add: holds_def add_region_def Let_def)
  from h have "g s (adv (next_region l)) off" if "(s, off) \<in> set E" for s off
    using that by (force simp: holds_def add_region_def Let_def)
  then show "P (fst (run_state m l)) adv" by (rule P)
qed

lemma forces_expose: "forces g pub (constrain_instance c col row) (\<lambda>_ adv. cell_value adv (fst c) = pub col row)"
  by (auto simp: forces_def constrain_instance_def holds_def)

section \<open>The Poseidon rows\<close>

text \<open>
  The rows the chip demands of a region: three fifth powers in a full round, one in a partial round. (The round constants
  are zero, since their columns are never assigned, and the matrix takes no part.)
\<close>

locale poseidon_rows =
  fixes g :: "'f::idom rows" and cfg :: PoseidonConfig
  assumes cols: "length (state_cols cfg) = 3" "distinct (state_cols cfg)"
    and full_row: "g (s_full cfg) a off \<longleftrightarrow> (\<forall>i<3. a (state_cols cfg ! i) (Suc off) = a (state_cols cfg ! i) off ^ 5)"
    and partial_row: "g (s_partial cfg) a off \<longleftrightarrow> a (state_cols cfg ! 0) (Suc off) = a (state_cols cfg ! 0) off ^ 5"
begin

lemma cols_distinct: "state_cols cfg ! 0 \<noteq> state_cols cfg ! 1" "state_cols cfg ! 0 \<noteq> state_cols cfg ! 2" "state_cols cfg ! 1 \<noteq> state_cols cfg ! 2"
  using cols by (simp_all add: nth_eq_iff_index_eq)

definition fill :: "'f \<Rightarrow> 'f \<Rightarrow> 'f \<Rightarrow> nat \<Rightarrow> nat \<Rightarrow> 'f" where
  "fill x y z c off =
     (if c = state_cols cfg ! 1 then (if off \<le> 4 then x ^ 5 ^ off else if off < 61 then 0 else z ^ 5 ^ (off - 61))
      else if c = state_cols cfg ! 2 \<and> off \<le> 4 then y ^ 5 ^ off else 0)"

lemma fill_rows: "(s, off) \<in> set (hash_selectors cfg) \<Longrightarrow> g s (fill x y z) off"
proof -
  have step: "u ^ 5 ^ Suc k = (u ^ 5 ^ k) ^ 5" for u :: 'f and k by (simp add: power_mult [symmetric] mult.commute)
  assume "(s, off) \<in> set (hash_selectors cfg)"
  then consider "s = s_full cfg" "off < 4" | "s = s_full cfg" "61 \<le> off" "off < 65" | "s = s_partial cfg" "4 \<le> off" "off < 61"
    unfolding set_hash_selectors by fastforce
  then show ?thesis
  proof cases
    case 1
    then show ?thesis using cols_distinct step
      by (auto simp: full_row fill_def less_Suc_eq numeral_3_eq_3 simp del: power_Suc)
  next
    case 2
    then have "Suc off - 61 = Suc (off - 61)" by simp
    with 2 show ?thesis using cols_distinct step
      by (auto simp: full_row fill_def less_Suc_eq numeral_3_eq_3 simp del: power_Suc)
  next
    case 3
    then show ?thesis using cols_distinct by (auto simp: partial_row fill_def)
  qed
qed

lemma hash_solvable:
  assumes "(fst a, x) \<in> F" and "(fst b, y) \<in> F"
  shows "solvable g pub F (poseidon_chip_hash cfg a b) (\<lambda>c. insert (fst c, z ^ 625) F)"
proof (rule solvable_region [where a = "fill x y z"])
  show "g s (fill x y z) off" if "(s, off) \<in> set (hash_selectors cfg)" for s off using that by (rule fill_rows)
  show "insert (fst (fst (run_state (poseidon_chip_hash cfg a b) l)), z ^ 625) F
      \<subseteq> F \<union> {((next_region l, c, off), fill x y z c off) | c off. True}" for l
    by (auto simp: run_hash fill_def)
qed (use assms cols_distinct in \<open>auto simp: run_hash fill_def\<close>)

lemma hash_forces: "forces g pub (poseidon_chip_hash cfg a b) (\<lambda>c adv. \<exists>z. cell_value adv (fst c) = z ^ 625)"
proof (rule forces_region [where E = "hash_selectors cfg"])
  fix l :: "'f Layout" and adv :: "'f advice"
  assume rows: "\<And>s off. (s, off) \<in> set (hash_selectors cfg) \<Longrightarrow> g s (adv (next_region l)) off"
  let ?a = "adv (next_region l) (state_cols cfg ! 1)"
  have "?a (Suc off) = ?a off ^ 5" if "off \<in> {61..<65}" for off
    using rows [of "s_full cfg" off] that by (simp add: full_row set_hash_selectors)
  from this [of 61] this [of 62] this [of 63] this [of 64] have "?a 65 = ?a 61 ^ 625"
    by (simp add: power_mult [symmetric])
  then show "\<exists>z. cell_value adv (fst (fst (run_state (poseidon_chip_hash cfg a b) l))) = z ^ 625"
    by (auto simp: run_hash cell_value_def)
qed (simp add: run_hash)

lemma hash3_solvable:
  assumes "(fst a, x) \<in> F" and "(fst b, y) \<in> F" and "(fst c, w) \<in> F"
  shows "solvable g pub F (hash3 cfg a b c) (\<lambda>r. insert (fst r, z ^ 625) F)"
  unfolding hash3_def
proof (rule solvable_bind [OF hash_solvable [OF assms(1,2), where z = 0]])
  show "solvable g pub (insert (fst i, 0 ^ 625) F) (poseidon_chip_hash cfg i c) (\<lambda>r. insert (fst r, z ^ 625) F)" for i
    by (rule solvable_conseq [OF hash_solvable [where x = "0 ^ 625" and y = w and F = "insert (fst i, 0 ^ 625) F"]])
      (use assms(3) in auto)
qed

lemma hash3_forces: "forces g pub (hash3 cfg a b c) (\<lambda>r adv. \<exists>z. cell_value adv (fst r) = z ^ 625)"
  unfolding hash3_def by (rule forces_bind [OF hash_forces]) (rule forces_weaken [OF hash_forces], blast)

end

section \<open>The Merkle rows\<close>

locale merkle_rows = poseidon_rows +
  fixes merkle :: MerkleConfig and adv0 :: nat
  assumes bit_row: "g (s_merkle merkle) a off \<longleftrightarrow> a (path_bits merkle) off * (a (path_bits merkle) off - 1) = 0"
    and bit_col: "path_bits merkle \<noteq> adv0"
begin

lemma merkle_level_solvable:
  assumes "(fst current, v) \<in> F"
  shows "solvable g pub F (merkle_level cfg merkle adv0 sibling direction current) (\<lambda>r. insert (fst r, z) F)"
proof -
  have level: "solvable g pub F (merkle_assign merkle adv0 sibling direction) (\<lambda>p. insert (fst (fst p), 0) F)"
    by (rule solvable_region [where a = "\<lambda>_ _. 0"]) (auto simp: run_merkle_assign bit_row)
  have select: "solvable g pub F' (assign_region (\<lambda>region. assign_advice region adv0 0 u)) (\<lambda>r. insert (fst r, z) F)"
    if "F \<subseteq> F'" for F' u
    by (rule solvable_region [where a = "\<lambda>_ _. z"]) (use that in \<open>auto simp: run_assign_cell\<close>)
  have hashes: "solvable g pub (insert (fst e, 0) F)
      (State_Monad.bind (poseidon_chip_hash cfg current e) (\<lambda>lr. State_Monad.bind (poseidon_chip_hash cfg e current) (\<lambda>rl.
         assign_region (\<lambda>region. assign_advice region adv0 0 (u lr rl))))) (\<lambda>r. insert (fst r, z) F)" for e u
  proof (rule solvable_bind [OF hash_solvable [where x = v and y = 0 and z = 0]])
    show "solvable g pub (insert (fst lr, 0 ^ 625) (insert (fst e, 0) F)) (State_Monad.bind (poseidon_chip_hash cfg e current) (\<lambda>rl.
         assign_region (\<lambda>region. assign_advice region adv0 0 (u lr rl)))) (\<lambda>r. insert (fst r, z) F)" for lr
      by (rule solvable_bind [OF hash_solvable [where x = 0 and y = v and z = 0] select]) (use assms in auto)
  qed (use assms in auto)
  show ?thesis
    unfolding merkle_level_eq case_prod_beta by (rule solvable_bind [OF level hashes])
qed

lemma merkle_path_solvable:
  assumes "(fst current, v) \<in> F" and "is \<noteq> []"
  shows "solvable g pub F (merkle_path cfg merkle adv0 path bits is current) (\<lambda>r. insert (fst r, z) F)"
  using assms
proof (induction "is" arbitrary: current v F)
  case (Cons i "is")
  show ?case
  proof (cases "is")
    case Nil
    then show ?thesis unfolding merkle_path.simps
      by (rule_tac solvable_bind [OF merkle_level_solvable [OF Cons.prems(1), where z = z]]) (auto intro: solvable_return)
  next
    case ne: Cons
    have "solvable g pub (insert (fst c, 0) F) (merkle_path cfg merkle adv0 path bits is c) (\<lambda>r. insert (fst r, z) F)" for c
      by (rule solvable_conseq [OF Cons.IH [where F = "insert (fst c, 0) F" and v = 0]]) (auto simp: ne)
    then show ?thesis
      unfolding merkle_path.simps by (rule solvable_bind [OF merkle_level_solvable [OF Cons.prems(1), where z = 0]])
  qed
qed simp

lemma merkle_level_forces: "forces g pub (merkle_level cfg merkle adv0 sibling direction current) (\<lambda>_ _. True)"
proof -
  have assign: "forces g pub (merkle_assign merkle adv0 sibling direction) (\<lambda>_ _. True)"
    by (rule forces_region) (auto simp: run_merkle_assign)
  have cell: "forces g pub (assign_region (\<lambda>region. assign_advice region adv0 0 u)) (\<lambda>_ _. Q \<longrightarrow> True)" for u Q
    by (rule forces_region) (auto simp: run_assign_cell)
  show ?thesis
    unfolding merkle_level_eq
    by (rule forces_bind [OF assign], simp only: case_prod_beta, (rule forces_bind [OF hash_forces])+, rule forces_weaken [OF cell]) simp
qed

lemma merkle_path_forces: "forces g pub (merkle_path cfg merkle adv0 path bits is current) (\<lambda>_ _. True)"
proof (induction "is" arbitrary: current)
  case (Cons i "is")
  show ?case unfolding merkle_path.simps
    by (rule forces_bind [OF merkle_level_forces]) (rule forces_weaken [OF Cons.IH], simp)
qed (auto intro: forces_return)

end

section \<open>The constraint systems of the circuits\<close>

lemmas configure_ops = poseidon_configure_def merkle_configure_def advice_column_def fixed_column_def instance_column_def
  selector_def enable_equality_def create_gate_def new_cs_def

lemmas gate_ops = full_round_gate_def partial_round_gate_def value_conservation_gate_def cur_def nxt_def Let_def expression_ops

definition poseidon_config :: PoseidonConfig where
  "poseidon_config = \<lparr>state_cols = [0, 1, 2], round_constants = [0, 1, 2],
     mds_matrix = [[3, 4, 5], [6, 7, 8], [9, 10, 11]], s_full = 0, s_partial = 1\<rparr>"

definition merkle_config :: MerkleConfig where
  "merkle_config = \<lparr>m_poseidon = poseidon_config, path_bits = 3, s_merkle = 2\<rparr>"

definition transfer_config :: TransferConfig where
  "transfer_config = \<lparr>t_poseidon = poseidon_config, t_merkle = merkle_config, t_instance = 0, t_advice = [4, 5, 6, 7], s_value_check = 3\<rparr>"

definition withdraw_config :: WithdrawConfig where
  "withdraw_config = \<lparr>w_poseidon = poseidon_config, w_merkle = merkle_config, w_instance = 0, w_advice = [4, 5, 6], s_value_split = 3\<rparr>"

definition epoch_config :: EpochRootConfig where
  "epoch_config = \<lparr>e_poseidon = poseidon_config, e_instance = 0, e_advice = [3, 4, 5], s_chain = 2\<rparr>"

lemmas config_defs = poseidon_config_def merkle_config_def transfer_config_def withdraw_config_def epoch_config_def

lemma fst_configure:
  "fst (run_state transfer_configure new_cs) = transfer_config"
  "fst (run_state withdraw_configure new_cs) = withdraw_config"
  "fst (run_state epoch_configure new_cs) = epoch_config"
  by (simp_all add: transfer_configure_def withdraw_configure_def epoch_configure_def configure_ops config_defs)

definition transfer_cs :: "'f::comm_ring_1 ConstraintSystem" where
  "transfer_cs = snd (run_state transfer_configure new_cs)"

definition withdraw_cs :: "'f::comm_ring_1 ConstraintSystem" where
  "withdraw_cs = snd (run_state withdraw_configure new_cs)"

definition epoch_cs :: "'f::comm_ring_1 ConstraintSystem" where
  "epoch_cs = snd (run_state epoch_configure new_cs)"

lemma transfer_gates: "gates transfer_cs =
  [(''value_conservation'', value_conservation_gate [4, 5, 6, 7] 3),
   (''merkle_path_bit'', [SelectorQ 2 * (AdviceQ 3 cur * (AdviceQ 3 cur - Constant 1))]),
   (''poseidon_partial_round'', partial_round_gate [0, 1, 2] [0, 1, 2] 1),
   (''poseidon_full_round'', full_round_gate [0, 1, 2] [0, 1, 2] 0)]"
  by (simp add: transfer_cs_def transfer_configure_def configure_ops eval_nat_numeral)

lemma withdraw_gates: "gates withdraw_cs =
  [(''value_split'', [SelectorQ 3 * (AdviceQ 4 cur - (AdviceQ 5 cur + AdviceQ 6 cur))]),
   (''merkle_path_bit'', [SelectorQ 2 * (AdviceQ 3 cur * (AdviceQ 3 cur - Constant 1))]),
   (''poseidon_partial_round'', partial_round_gate [0, 1, 2] [0, 1, 2] 1),
   (''poseidon_full_round'', full_round_gate [0, 1, 2] [0, 1, 2] 0)]"
  by (simp add: withdraw_cs_def withdraw_configure_def configure_ops eval_nat_numeral)

lemma epoch_gates: "gates epoch_cs =
  [(''epoch_chain'', [SelectorQ 2 * (AdviceQ 5 cur - (AdviceQ 3 cur + AdviceQ 4 cur))]),
   (''poseidon_partial_round'', partial_round_gate [0, 1, 2] [0, 1, 2] 1),
   (''poseidon_full_round'', full_round_gate [0, 1, 2] [0, 1, 2] 0)]"
  by (simp add: epoch_cs_def epoch_configure_def configure_ops eval_nat_numeral)

lemmas circuit_gates = transfer_gates withdraw_gates epoch_gates

lemma fifth_power: "x * x * (x * x) * x = (x :: 'f::comm_ring_1) ^ 5"
  by (simp add: eval_nat_numeral)

lemma all_less_3: "(\<forall>i<3. P i) \<longleftrightarrow> P 0 \<and> P 1 \<and> P (2::nat)"
  by (auto simp: less_Suc_eq numeral_3_eq_3 numeral_2_eq_2)

lemma all_guarded:
  "\<forall>(name, ps) \<in> set (gates transfer_cs). \<forall>p \<in> set ps. guarded p"
  "\<forall>(name, ps) \<in> set (gates withdraw_cs). \<forall>p \<in> set ps. guarded p"
  "\<forall>(name, ps) \<in> set (gates epoch_cs). \<forall>p \<in> set ps. guarded p"
  by (simp_all add: circuit_gates gate_ops)

lemma poseidon_demands:
  "gate_rows transfer_cs 0 a off \<longleftrightarrow> (\<forall>i<3. a i (Suc off) = a i off ^ 5)"
  "gate_rows withdraw_cs 0 a off \<longleftrightarrow> (\<forall>i<3. a i (Suc off) = a i off ^ 5)"
  "gate_rows epoch_cs 0 a off \<longleftrightarrow> (\<forall>i<3. a i (Suc off) = a i off ^ 5)"
  "gate_rows transfer_cs 1 a off \<longleftrightarrow> a 0 (Suc off) = a 0 off ^ 5"
  "gate_rows withdraw_cs 1 a off \<longleftrightarrow> a 0 (Suc off) = a 0 off ^ 5"
  "gate_rows epoch_cs 1 a off \<longleftrightarrow> a 0 (Suc off) = a 0 off ^ 5"
  by (simp_all add: gate_rows_def circuit_gates gate_ops fifth_power all_less_3)

lemma other_demands:
  "gate_rows transfer_cs 2 a off \<longleftrightarrow> a 3 off * (a 3 off - 1) = 0"
  "gate_rows withdraw_cs 2 a off \<longleftrightarrow> a 3 off * (a 3 off - 1) = 0"
  "gate_rows transfer_cs 3 a off \<longleftrightarrow> a 4 off + a 5 off = a 6 off + a 7 off"
  "gate_rows withdraw_cs 3 a off \<longleftrightarrow> a 4 off = a 5 off + a 6 off"
  by (simp_all add: gate_rows_def circuit_gates gate_ops add_eq_0_iff2 add.commute)

interpretation transfer_rows: merkle_rows "gate_rows transfer_cs" poseidon_config merkle_config 4
  by unfold_locales (simp_all add: config_defs poseidon_demands other_demands all_less_3 flip: One_nat_def)

interpretation withdraw_rows: merkle_rows "gate_rows withdraw_cs" poseidon_config merkle_config 4
  by unfold_locales (simp_all add: config_defs poseidon_demands other_demands all_less_3 flip: One_nat_def)

interpretation epoch_rows: poseidon_rows "gate_rows epoch_cs" poseidon_config
  by unfold_locales (simp_all add: config_defs poseidon_demands all_less_3 flip: One_nat_def)

section \<open>The public inputs the circuits accept\<close>

lemma zero_note_solvable:
  "solvable g pub F (assign_note adv s k v) (\<lambda>p. {(fst (fst p), 0), (fst (fst (snd p)), 0), (fst (snd (snd p)), 0)} \<union> F)"
  by (rule solvable_region [where a = "\<lambda>_ _. 0"]) (auto simp: run_assign_note)

lemma pair_solvable:
  assumes "adv ! 0 \<noteq> adv ! 1"
  shows "solvable g pub F (assign_pair adv a b) (\<lambda>p. {(fst (fst p), x), (fst (snd p), y)} \<union> F)"
  by (rule solvable_region [where a = "\<lambda>c _. if c = adv ! 0 then x else y"]) (use assms in \<open>auto simp: run_assign_pair\<close>)

lemma cell_solvable: "solvable g pub F (assign_region (\<lambda>region. assign_advice region c 0 v)) (\<lambda>p. insert (fst p, x) F)"
  by (rule solvable_region [where a = "\<lambda>_ _. x"]) (auto simp: run_assign_cell)

lemma note_forces: "forces g pub (assign_note adv s k v) (\<lambda>_ _. True)"
  by (rule forces_region) (auto simp: run_assign_note)

lemma pair_forces: "forces g pub (assign_pair adv a b) (\<lambda>_ _. True)"
  by (rule forces_region) (auto simp: run_assign_pair)

lemma cell_forces: "forces g pub (assign_region (\<lambda>region. assign_advice region c 0 v)) (\<lambda>_ _. True)"
  by (rule forces_region) (auto simp: run_assign_cell)

lemma conservation_solvable:
  assumes "(fst a, 0) \<in> F" "(fst b, 0) \<in> F" "(fst c, 0) \<in> F"
  shows "solvable (gate_rows transfer_cs) pub F (value_conservation transfer_config a b c v) (\<lambda>p. insert (fst p, 0) F)"
  by (rule solvable_region [where a = "\<lambda>_ _. 0"])
    (use assms in \<open>auto simp: run_value_conservation transfer_config_def other_demands\<close>)

lemma conservation_forces:
  "forces (gate_rows transfer_cs) pub (value_conservation transfer_config a b c v) (\<lambda>_ _. True)"
  by (rule forces_region) (auto simp: run_value_conservation)

lemma transfer_notes_solvable:
  fixes x y :: "'f::idom"
  shows "solvable (gate_rows transfer_cs) pub F (transfer_notes self transfer_config)
     (\<lambda>((s0, c0), (s1, c1), o0, o1). {(fst s0, 0), (fst c0, 0), (fst s1, 0), (fst c1, 0), (fst o0, x ^ 625), (fst o1, y ^ 625)} \<union> F)"
  unfolding transfer_notes_def case_prod_beta
  apply (simp only: transfer_config_def TransferConfig.simps)
  apply (fold transfer_config_def)
  apply (rule solvable_bind [OF zero_note_solvable])
  apply (rule solvable_bind [OF transfer_rows.hash3_solvable [where x = 0 and y = 0 and w = 0 and z = 0]], simp, simp, simp)
  apply (rule solvable_bind [OF zero_note_solvable])
  apply (rule solvable_bind [OF transfer_rows.hash3_solvable [where x = 0 and y = 0 and w = 0 and z = 0]], simp, simp, simp)
  apply (rule solvable_bind [OF zero_note_solvable])
  apply (rule solvable_bind [OF transfer_rows.hash3_solvable [where x = 0 and y = 0 and w = 0 and z = x]], simp, simp, simp)
  apply (rule solvable_bind [OF conservation_solvable], simp, simp, simp)
  apply (rule solvable_bind [OF pair_solvable [where x = 0 and y = 0]], simp)
  apply (rule solvable_bind [OF transfer_rows.hash3_solvable [where x = 0 and y = 0 and w = 0 and z = y]], simp, simp, simp)
  apply (rule solvable_return)
  apply auto
  done

lemma transfer_notes_forces:
  fixes pub :: "nat \<Rightarrow> nat \<Rightarrow> 'f::idom"
  shows "forces (gate_rows transfer_cs) pub (transfer_notes self transfer_config)
     (\<lambda>(_, _, o0, o1) adv. (\<exists>z. cell_value adv (fst o0) = z ^ 625) \<and> (\<exists>z. cell_value adv (fst o1) = z ^ 625))"
  unfolding transfer_notes_def case_prod_beta
  apply (simp only: transfer_config_def TransferConfig.simps)
  apply (fold transfer_config_def)
  apply (rule forces_bind [OF note_forces] forces_bind [OF transfer_rows.hash3_forces])+
  apply (rule forces_bind [OF conservation_forces], rule forces_bind [OF pair_forces])
  apply (rule forces_bind [OF transfer_rows.hash3_forces], rule forces_return)
  apply simp
  done

lemma transfer_nullifiers_solvable:
  fixes x y :: "'f::idom"
  assumes "(fst (fst n0), 0) \<in> F" "(fst (snd n0), 0) \<in> F" "(fst (fst n1), 0) \<in> F" "(fst (snd n1), 0) \<in> F"
  shows "solvable (gate_rows transfer_cs) pub F (transfer_nullifiers self transfer_config n0 n1)
     (\<lambda>(u, v). {(fst u, x ^ 625), (fst v, y ^ 625)} \<union> F)"
  unfolding transfer_nullifiers_def case_prod_beta
  apply (simp only: transfer_config_def TransferConfig.simps)
  apply (rule solvable_bind [OF pair_solvable [where x = 0 and y = 0]], simp)
  apply (rule solvable_bind [OF transfer_rows.hash_solvable [where x = 0 and y = 0 and z = 0]], simp, simp)
  apply (rule solvable_bind [OF transfer_rows.hash3_solvable [where x = 0 and y = 0 and w = 0 and z = x]])
  apply (use assms in simp, use assms in simp, simp)
  apply (rule solvable_bind [OF transfer_rows.hash3_solvable [where x = 0 and y = 0 and w = 0 and z = y]])
  apply (use assms in simp, use assms in simp, simp)
  apply (rule solvable_return)
  apply auto
  done

lemma transfer_nullifiers_forces:
  fixes pub :: "nat \<Rightarrow> nat \<Rightarrow> 'f::idom"
  shows "forces (gate_rows transfer_cs) pub (transfer_nullifiers self transfer_config n0 n1)
     (\<lambda>(u, v) adv. (\<exists>z. cell_value adv (fst u) = z ^ 625) \<and> (\<exists>z. cell_value adv (fst v) = z ^ 625))"
  unfolding transfer_nullifiers_def case_prod_beta
  apply (simp only: transfer_config_def TransferConfig.simps)
  apply (rule forces_bind [OF pair_forces], rule forces_bind [OF transfer_rows.hash_forces])
  apply (rule forces_bind [OF transfer_rows.hash3_forces])+
  apply (rule forces_return)
  apply simp
  done

lemma laid_out_circuits:
  "laid_out transfer_configure (transfer_synthesize t) = (transfer_cs, snd (run_state (transfer_synthesize t transfer_config) new_layout))"
  "laid_out withdraw_configure (withdraw_synthesize w) = (withdraw_cs, snd (run_state (withdraw_synthesize w withdraw_config) new_layout))"
  "laid_out epoch_configure (epoch_synthesize e) = (epoch_cs, snd (run_state (epoch_synthesize e epoch_config) new_layout))"
  by (simp_all add: laid_out_def case_prod_beta Let_def fst_configure transfer_cs_def withdraw_cs_def epoch_cs_def)

lemma provable_from_solvable:
  assumes "solvable (gate_rows cs) pub {} m G" and "\<forall>(name, ps) \<in> set (gates cs). \<forall>p \<in> set ps. guarded p"
  shows "provable (cs, snd (run_state m new_layout)) pub"
proof -
  have "holds (gate_rows cs) pub new_layout (\<lambda>_ _ _. 0)" "knows {} new_layout (\<lambda>_ _ _. 0)"
    by (simp_all add: holds_def new_layout_def knows_def)
  with assms show ?thesis unfolding solvable_def provable_def satisfied_holds [OF assms(2)]
    using wf_new_layout by (metis fst_conv snd_conv satisfied_holds [OF assms(2)])
qed

lemma provable_forced:
  assumes "provable (cs, snd (run_state m new_layout)) pub" and "forces (gate_rows cs) pub m (\<lambda>_ _. P)"
    and "\<forall>(name, ps) \<in> set (gates cs). \<forall>p \<in> set ps. guarded p"
  shows P
  using assms(1,2) unfolding provable_def forces_def by (auto simp: satisfied_holds [OF assms(3)])

text \<open>
  C36: the transfer circuit proves next to nothing about its public inputs: whatever the notes, a proof exists exactly if the two
  nullifiers and the two output commitments are 625th powers in the field, and for every Merkle root. In the field of the
  code, where taking fifth powers is a bijection, this is every vector of public inputs: the partial rounds leave two of
  the three state columns free and no gate ties the selected hash of a Merkle level to the two candidates.
\<close>

theorem transfer_circuit_accepts:
  fixes pub :: "nat \<Rightarrow> nat \<Rightarrow> 'f::idom"
  shows "provable (laid_out transfer_configure (transfer_synthesize self)) pub \<longleftrightarrow>
    (\<exists>n0 n1 c0 c1. pub 0 1 = n0 ^ 625 \<and> pub 0 2 = n1 ^ 625 \<and> pub 0 3 = c0 ^ 625 \<and> pub 0 4 = c1 ^ 625)"
    (is "?L \<longleftrightarrow> ?R")
proof
  have "forces (gate_rows transfer_cs) pub (transfer_synthesize self transfer_config) (\<lambda>_ _. ?R)"
    unfolding transfer_synthesize_def transfer_expose_def case_prod_beta
    apply (rule forces_bind [OF transfer_notes_forces], rule forces_bind [OF transfer_nullifiers_forces])
    apply (simp only: transfer_config_def TransferConfig.simps nth_Cons_0)
    apply (rule forces_bind [OF transfer_rows.merkle_path_forces] forces_bind [OF forces_expose])+
    apply (rule forces_weaken [OF forces_expose])
    apply (auto simp: case_prod_beta)
    done
  then show ?R if ?L by (rule provable_forced [OF that [unfolded laid_out_circuits] _ all_guarded(1)])
next
  assume ?R
  then obtain n0 n1 c0 c1 where pub: "pub 0 1 = n0 ^ 625" "pub 0 2 = n1 ^ 625" "pub 0 3 = c0 ^ 625" "pub 0 4 = c1 ^ 625"
    by blast
  have "solvable (gate_rows transfer_cs) pub {} (transfer_synthesize self transfer_config) (\<lambda>_. {})"
    unfolding transfer_synthesize_def transfer_expose_def case_prod_beta
    apply (rule solvable_bind [OF transfer_notes_solvable [where x = c0 and y = c1]], simp only: case_prod_beta)
    apply (rule solvable_bind [OF transfer_nullifiers_solvable [where x = n0 and y = n1]], simp, simp, simp, simp)
    apply (simp only: transfer_config_def TransferConfig.simps nth_Cons_0 case_prod_beta)
    apply (rule solvable_bind [OF transfer_rows.merkle_path_solvable [where v = 0 and z = "pub 0 0"]], simp, simp add: TREE_DEPTH_def)
    apply (rule solvable_bind [OF transfer_rows.merkle_path_solvable [where v = 0 and z = "pub 0 0"]], simp, simp add: TREE_DEPTH_def)
    apply (rule solvable_bind [OF solvable_expose], simp add: pub del: One_nat_def)+
    apply (rule solvable_expose_last, simp add: pub)
    done
  then show ?L unfolding laid_out_circuits by (rule provable_from_solvable [OF _ all_guarded(1)])
qed

lemma split_solvable:
  assumes "(fst a, 0) \<in> F"
  shows "solvable (gate_rows withdraw_cs) pub F (value_split withdraw_config a u v) (\<lambda>p. {(fst (fst p), x), (fst (snd p), - x)} \<union> F)"
  by (rule solvable_region [where a = "\<lambda>c _. if c = 5 then x else if c = 6 then - x else 0"])
    (use assms in \<open>auto simp: run_value_split withdraw_config_def other_demands\<close>)

lemma split_forces: "forces (gate_rows withdraw_cs) pub (value_split withdraw_config a u v) (\<lambda>_ _. True)"
  by (rule forces_region) (auto simp: run_value_split)

text \<open>
  C37: the withdraw circuit accepts every Merkle root and every withdrawn value: a proof exists exactly if nullifier and change
  commitment are 625th powers. Value and commitment are tied to each other only through the unconstrained hash.
\<close>

theorem withdraw_circuit_accepts:
  fixes pub :: "nat \<Rightarrow> nat \<Rightarrow> 'f::idom"
  shows "provable (laid_out withdraw_configure (withdraw_synthesize self)) pub \<longleftrightarrow>
    (\<exists>n c. pub 0 1 = n ^ 625 \<and> pub 0 3 = c ^ 625)" (is "?L \<longleftrightarrow> ?R")
proof
  have "forces (gate_rows withdraw_cs) pub (withdraw_synthesize self withdraw_config) (\<lambda>_ _. ?R)"
    unfolding withdraw_synthesize_def case_prod_beta
    apply (simp only: withdraw_config_def WithdrawConfig.simps nth_Cons_0)
    apply (fold withdraw_config_def)
    apply (rule forces_bind [OF note_forces] forces_bind [OF pair_forces] forces_bind [OF split_forces]
        forces_bind [OF withdraw_rows.hash_forces] forces_bind [OF withdraw_rows.hash3_forces]
        forces_bind [OF withdraw_rows.merkle_path_forces] forces_bind [OF forces_expose])+
    apply (rule forces_weaken [OF forces_expose])
    apply auto
    done
  then show ?R if ?L by (rule provable_forced [OF that [unfolded laid_out_circuits] _ all_guarded(2)])
next
  assume ?R
  then obtain n c where pub: "pub 0 1 = n ^ 625" "pub 0 3 = c ^ 625" by blast
  have "solvable (gate_rows withdraw_cs) pub {} (withdraw_synthesize self withdraw_config) (\<lambda>_. {})"
    unfolding withdraw_synthesize_def case_prod_beta
    apply (simp only: withdraw_config_def WithdrawConfig.simps nth_Cons_0)
    apply (fold withdraw_config_def)
    apply (rule solvable_bind [OF zero_note_solvable])
    apply (rule solvable_bind [OF withdraw_rows.hash3_solvable [where x = 0 and y = 0 and w = 0 and z = 0]], simp, simp, simp)
    apply (rule solvable_bind [OF split_solvable [where x = "pub 0 2"]], simp)
    apply (rule solvable_bind [OF pair_solvable [where x = 0 and y = 0]], simp)
    apply (rule solvable_bind [OF withdraw_rows.hash_solvable [where x = 0 and y = 0 and z = 0]], simp, simp)
    apply (rule solvable_bind [OF withdraw_rows.hash3_solvable [where x = 0 and y = 0 and w = 0 and z = n]], simp, simp, simp)
    apply (rule solvable_bind [OF pair_solvable [where x = 0 and y = 0]], simp)
    apply (rule solvable_bind [OF withdraw_rows.hash3_solvable [where x = 0 and y = 0 and w = "- pub 0 2" and z = c]], simp, simp, simp)
    apply (rule solvable_bind [OF withdraw_rows.merkle_path_solvable [where v = 0 and z = "pub 0 0"]], simp, simp add: TREE_DEPTH_def)
    apply (rule solvable_bind [OF solvable_expose], simp add: pub del: One_nat_def)+
    apply (rule solvable_expose_last, simp add: pub)
    done
  then show ?L unfolding laid_out_circuits by (rule provable_from_solvable [OF _ all_guarded(2)])
qed

section \<open>The epoch circuit\<close>

definition zeros_at :: "'f::zero AssignedCell list \<Rightarrow> (cell \<times> 'f) set" where
  "zeros_at cs = (\<lambda>c. (fst c, 0)) ` set cs"

lemma zeros_at_simps [simp]: "zeros_at [] = {}" "zeros_at (c # cs) = insert (fst c, 0) (zeros_at cs)"
  by (simp_all add: zeros_at_def)

lemma length_assign_leaves: "length (fst (run_state (assign_leaves adv0 nuls is) l)) = length is"
  by (induction "is" arbitrary: l) (auto split: prod.splits, metis fst_conv)

lemma length_next_layer: "length (fst (run_state (next_layer cfg cs) l)) = length cs div 2"
  by (induction cfg cs arbitrary: l rule: next_layer.induct) (auto split: prod.splits, metis fst_conv)

lemma batch_layer_length: "length (fst (run_state (build_tree cfg d cs) l)) = length cs div 2 ^ d"
proof (induction d arbitrary: cs l)
  case (Suc d)
  show ?case using Suc [of "fst (run_state (next_layer cfg cs) l)" "snd (run_state (next_layer cfg cs) l)"]
    by (simp add: case_prod_beta length_next_layer div_mult2_eq)
qed simp

lemma leaves_solvable: "solvable g pub F (assign_leaves adv0 nuls is) (\<lambda>cs. zeros_at cs \<union> F)"
proof (induction "is" arbitrary: F)
  case (Cons i "is")
  show ?case unfolding assign_leaves.simps
    by (rule solvable_bind [OF cell_solvable [where x = 0]], rule solvable_bind [OF Cons], rule solvable_return)
      auto
qed (auto intro: solvable_return)

lemma next_layer_solvable:
  fixes pub :: "nat \<Rightarrow> nat \<Rightarrow> 'f::idom"
  assumes "zeros_at cs \<subseteq> F"
  shows "solvable (gate_rows epoch_cs) pub F (next_layer poseidon_config cs) (\<lambda>ds. zeros_at ds \<union> F)"
  using assms
proof (induction cs arbitrary: F rule: induct_list012)
  case (3 left right layer)
  have "solvable (gate_rows epoch_cs) pub (insert (fst p, 0 ^ 625) F)
      (State_Monad.bind (next_layer poseidon_config layer) (\<lambda>ps. State_Monad.return (p # ps))) (\<lambda>ds. zeros_at ds \<union> F)" for p
    by (rule solvable_bind [OF 3(1) [of "insert (fst p, 0 ^ 625) F"]])
      (use 3(3) in \<open>auto intro!: solvable_return\<close>)
  then show ?case unfolding next_layer.simps
    by (intro solvable_bind [OF epoch_rows.hash_solvable [where x = 0 and y = 0 and z = 0]])
      (use 3(3) in auto)
qed (auto intro: solvable_return)

lemma build_tree_solvable:
  fixes pub :: "nat \<Rightarrow> nat \<Rightarrow> 'f::idom"
  assumes "zeros_at cs \<subseteq> F"
  shows "solvable (gate_rows epoch_cs) pub F (build_tree poseidon_config d cs) (\<lambda>ds. zeros_at ds \<union> F)"
  using assms
proof (induction d arbitrary: cs F)
  case 0
  then show ?case by (auto intro: solvable_return)
next
  case (Suc d)
  show ?case unfolding build_tree.simps
  proof (rule solvable_bind [OF next_layer_solvable [OF Suc.prems]])
    show "solvable (gate_rows epoch_cs) pub (zeros_at ds \<union> F) (build_tree poseidon_config d ds) (\<lambda>es. zeros_at es \<union> F)" for ds
      by (rule solvable_conseq [OF Suc.IH [of ds "zeros_at ds \<union> F"]]) auto
  qed
qed

lemma leaves_forces: "forces g pub (assign_leaves adv0 nuls is) (\<lambda>_ _. True)"
proof (induction "is")
  case (Cons i "is")
  show ?case unfolding assign_leaves.simps
    by (rule forces_bind [OF cell_forces], rule forces_bind [OF Cons], rule forces_return) simp
qed (auto intro: forces_return)

lemma next_layer_forces:
  fixes pub :: "nat \<Rightarrow> nat \<Rightarrow> 'f::idom"
  shows "forces (gate_rows epoch_cs) pub (next_layer poseidon_config cs) (\<lambda>_ _. True)"
proof (induction cs rule: induct_list012)
  case (3 left right layer)
  show ?case unfolding next_layer.simps
    by (rule forces_bind [OF epoch_rows.hash_forces], rule forces_bind [OF 3(1)], rule forces_return) simp
qed (auto intro: forces_return)

lemma build_tree_forces:
  fixes pub :: "nat \<Rightarrow> nat \<Rightarrow> 'f::idom"
  shows "forces (gate_rows epoch_cs) pub (build_tree poseidon_config d cs) (\<lambda>_ _. True)"
proof (induction d arbitrary: cs)
  case (Suc d)
  show ?case unfolding build_tree.simps
    by (rule forces_bind [OF next_layer_forces], rule forces_weaken [OF Suc]) simp
qed (auto intro: forces_return)

text \<open>
  The epoch circuit accepts every previous root, epoch number and nullifier count: a proof exists exactly if the new root is a
  625th power. The counter is never compared with anything, and the selector of the chaining gate is never enabled.
\<close>

lemma epoch_circuit_accepts:
  fixes pub :: "nat \<Rightarrow> nat \<Rightarrow> 'f::idom"
  shows "provable (laid_out epoch_configure (epoch_synthesize self)) pub \<longleftrightarrow> (\<exists>r. pub 0 1 = r ^ 625)" (is "?L \<longleftrightarrow> ?R")
proof
  have "forces (gate_rows epoch_cs) pub (epoch_synthesize self epoch_config) (\<lambda>_ _. ?R)"
    unfolding epoch_synthesize_def case_prod_beta Let_def
    apply (simp only: epoch_config_def EpochRootConfig.simps nth_Cons_0)
    apply (rule forces_bind [OF leaves_forces] forces_bind [OF build_tree_forces] forces_bind [OF cell_forces]
        forces_bind [OF pair_forces] forces_bind [OF epoch_rows.hash_forces] forces_bind [OF forces_expose])+
    apply (rule forces_weaken [OF forces_expose])
    apply auto
    done
  then show ?R if ?L by (rule provable_forced [OF that [unfolded laid_out_circuits] _ all_guarded(3)])
next
  assume ?R
  then obtain r where pub: "pub 0 1 = r ^ 625" by blast
  have root: "(fst (hd cs), 0) \<in> zeros_at cs" if "length cs = 1" for cs :: "'f AssignedCell list"
    using that by (cases cs) auto
  have "solvable (gate_rows epoch_cs) pub {} (epoch_synthesize self epoch_config) (\<lambda>_. {})"
    unfolding epoch_synthesize_def case_prod_beta Let_def
    apply (simp only: epoch_config_def EpochRootConfig.simps nth_Cons_0)
    apply (rule solvable_bind_result [OF leaves_solvable, where P = "\<lambda>cs. length cs = 64"])
     apply (simp add: length_assign_leaves EPOCH_BATCH_SIZE_def)
    apply (rule solvable_bind_result [OF build_tree_solvable, where P = "\<lambda>cs. length cs = 1"], simp)
     apply (simp add: batch_layer_length EPOCH_TREE_DEPTH_def)
    apply (rule solvable_bind [OF cell_solvable [where x = "pub 0 0"]])
    apply (rule solvable_bind [OF epoch_rows.hash_solvable [where x = "pub 0 0" and y = 0 and z = r]], simp)
     apply (rule insertI2, rule UnI1, rule root, assumption)
    apply (rule solvable_bind [OF pair_solvable [where x = "pub 0 2" and y = "pub 0 3"]], simp)
    apply (rule solvable_bind [OF solvable_expose], simp add: pub del: One_nat_def)+
    apply (rule solvable_expose_last, simp add: pub)
    done
  then show ?L unfolding laid_out_circuits by (rule provable_from_solvable [OF _ all_guarded(3)])
qed

end
