(* ===== verification/Circuit_Witness.thy ===== *)
theory Circuit_Witness
  imports Circuit_Properties
begin

text \<open>
  The witness the coprocessor itself assigns. \<open>synthesize\<close> leaves the inner rows of every hash region unassigned and
  assigns zero to its output. The rules of this theory compute, along a run, when the assigned values satisfy what the run has
  recorded.
\<close>

section \<open>Rules for the assigned values\<close>

text \<open>
  \<open>assigns g pub F m C P G\<close>: if the cells of \<open>F\<close> have been assigned their values before \<open>m\<close>, then after \<open>m\<close> the cells of
  \<open>G\<close> have, the result has \<open>P\<close>, and the assigned values satisfy the layout exactly if they did before and \<open>C\<close> holds.
\<close>

definition assigns :: "'f::zero rows \<Rightarrow> (nat \<Rightarrow> nat \<Rightarrow> 'f) \<Rightarrow> (cell \<times> 'f) set \<Rightarrow> ('f Layout, 'a) state \<Rightarrow> bool
    \<Rightarrow> ('a \<Rightarrow> bool) \<Rightarrow> ('a \<Rightarrow> (cell \<times> 'f) set) \<Rightarrow> bool" where
  "assigns g pub F m C P G \<longleftrightarrow> (\<forall>l. wf_layout l \<and> knows F l (own_witness l) \<longrightarrow>
     (case run_state m l of (x, l') \<Rightarrow> wf_layout l' \<and> knows (G x) l' (own_witness l') \<and> P x \<and>
        (holds g pub l' (own_witness l') \<longleftrightarrow> holds g pub l (own_witness l) \<and> C)))"

lemma assigns_bind:
  assumes "assigns g pub F m C P G" and "\<And>x. P x \<Longrightarrow> assigns g pub (G x) (f x) D Q H"
  shows "assigns g pub F (State_Monad.bind m f) (C \<and> D) Q H"
  unfolding assigns_def
proof (intro allI impI)
  fix l assume "wf_layout l \<and> knows F l (own_witness l)"
  moreover obtain x l' where r: "run_state m l = (x, l')" by (cases "run_state m l")
  ultimately have "wf_layout l' \<and> knows (G x) l' (own_witness l')" "P x"
    "holds g pub l' (own_witness l') \<longleftrightarrow> holds g pub l (own_witness l) \<and> C"
    using assms(1) unfolding assigns_def by (metis (mono_tags, lifting) case_prod_conv)+
  with assms(2) [of x] r show "case run_state (State_Monad.bind m f) l of (y, l'') \<Rightarrow> wf_layout l'' \<and>
      knows (H y) l'' (own_witness l'') \<and> Q y \<and>
      (holds g pub l'' (own_witness l'') \<longleftrightarrow> holds g pub l (own_witness l) \<and> C \<and> D)"
    unfolding assigns_def by (auto split: prod.splits)
qed

lemma assigns_return: "P x \<Longrightarrow> G x \<subseteq> F \<Longrightarrow> assigns g pub F (State_Monad.return x) True P G"
  by (auto simp: assigns_def intro: knows_mono)

lemma assigns_weaken:
  assumes "assigns g pub F m C P G" and "\<And>x. P x \<Longrightarrow> Q x" and "\<And>x. H x \<subseteq> G x" and "C = D"
  shows "assigns g pub F m D Q H"
  using assms(1) knows_mono [OF _ assms(3)] assms(2,4) unfolding assigns_def by (fastforce split: prod.splits)

text \<open>The values a region gets from its assignments.\<close>

definition region_values :: "((nat \<times> nat) \<times> 'f::zero option) list \<Rightarrow> nat \<Rightarrow> nat \<Rightarrow> 'f" where
  "region_values A c off = (case map_of A (c, off) of Some (Some v) \<Rightarrow> v | _ \<Rightarrow> 0)"

lemma map_of_region:
  "map_of (map (\<lambda>((c, off), v). ((n, c, off), v)) A) (r, c, off) = (if r = n then map_of A (c, off) else None)"
  by (induction A) auto

lemma own_witness_add_region:
  assumes "wf_layout l"
  shows "own_witness (add_region A E K l) (next_region l) = region_values A"
    and "r < next_region l \<Longrightarrow> own_witness (add_region A E K l) r = own_witness l r"
proof -
  have "map_of (assigned l) (next_region l, c, off) = None" for c off
    using assms by (fastforce simp: wf_layout_def map_of_eq_None_iff)
  then show "own_witness (add_region A E K l) (next_region l) = region_values A"
    by (intro ext) (auto simp: own_witness_def region_values_def add_region_def Let_def map_of_region map_add_def split: option.splits)
  show "own_witness (add_region A E K l) r = own_witness l r" if "r < next_region l"
    using that by (intro ext) (simp add: own_witness_def add_region_def Let_def map_of_region map_add_def)
qed

lemma assigns_region:
  assumes run: "\<And>l. snd (run_state m l) = add_region A E K l"
    and K: "\<And>src c off. (src, c, off) \<in> set K \<Longrightarrow> (src, region_values A c off) \<in> F"
    and C: "C \<longleftrightarrow> (\<forall>(s, off) \<in> set E. g s (region_values A) off)"
    and P: "\<And>l. P (fst (run_state m l))"
    and G: "\<And>l. G (fst (run_state m l)) \<subseteq> F \<union> {((next_region l, c, off), region_values A c off) | c off. True}"
  shows "assigns g pub F m C P G"
  unfolding assigns_def
proof (intro allI impI, elim conjE)
  fix l assume wf: "wf_layout l" and k: "knows F l (own_witness l)"
  let ?l = "add_region A E K l"
  note own = own_witness_add_region [OF wf, where E = E and K = K and A = A]
  have src: "fst src < next_region l" "cell_value (own_witness l) src = region_values A c off" if "(src, c, off) \<in> set K" for src c off
    using K [OF that] k by (auto simp: knows_def)
  have "holds g pub ?l (own_witness ?l) \<longleftrightarrow> holds g pub l (own_witness l) \<and> C"
    unfolding C by (subst holds_add_region [OF wf src(1), where adv = "own_witness l"]) (use own src(2) in \<open>auto simp: own\<close>)
  moreover have "knows (F \<union> {((next_region l, c, off), region_values A c off) | c off. True}) ?l (own_witness ?l)"
    using k own by (auto simp: knows_def cell_value_def add_region_def Let_def less_Suc_eq own [unfolded add_region_def Let_def])
  ultimately show "case run_state m l of (x, l') \<Rightarrow> wf_layout l' \<and> knows (G x) l' (own_witness l') \<and> P x \<and>
      (holds g pub l' (own_witness l') \<longleftrightarrow> holds g pub l (own_witness l) \<and> C)"
    using wf_add_region [OF wf src(1)] P [of l] run [of l] knows_mono [OF _ G [of l]]
    by (cases "run_state m l") auto
qed

lemma assigns_expose:
  assumes "(fst c, v) \<in> F"
  shows "assigns g pub F (constrain_instance c col row) (v = pub col row) (\<lambda>_. True) (\<lambda>_. F)"
  unfolding assigns_def
proof (intro allI impI, elim conjE)
  fix l assume wf: "wf_layout l" and k: "knows F l (own_witness l)"
  let ?l = "l\<lparr>exposed := (fst c, col, row) # exposed l\<rparr>"
  have own: "own_witness ?l = own_witness l" by (intro ext) (simp add: own_witness_def)
  have "fst (fst c) < next_region l" "cell_value (own_witness l) (fst c) = v" using k assms by (auto simp: knows_def)
  with wf k show "case run_state (constrain_instance c col row) l of (x, l') \<Rightarrow> wf_layout l' \<and> knows F l' (own_witness l') \<and> True \<and>
      (holds g pub l' (own_witness l') \<longleftrightarrow> holds g pub l (own_witness l) \<and> v = pub col row)"
    by (auto simp: constrain_instance_def own wf_layout_def knows_def holds_def)
qed

lemma assigns_expose_last:
  assumes "(fst c, v) \<in> F"
  shows "assigns g pub F (constrain_instance c col row) (v = pub col row) (\<lambda>_. True) (\<lambda>_. {})"
  by (rule assigns_weaken [OF assigns_expose]) (use assms in auto)

section \<open>The parts of the circuits\<close>

lemma note_assigns:
  assumes "distinct [adv ! 0, adv ! 1, adv ! 2]"
  shows "assigns g pub F (assign_note adv (Some x) (Some y) (Some z)) True
    (\<lambda>p. snd (fst p) = Some x \<and> snd (fst (snd p)) = Some y \<and> snd (snd (snd p)) = Some z)
    (\<lambda>p. {(fst (fst p), x), (fst (fst (snd p)), y), (fst (snd (snd p)), z)} \<union> F)"
  by (rule assigns_region [where K = "[]" and E = "[]" and A = "[((adv ! 2, 0), Some z), ((adv ! 1, 0), Some y), ((adv ! 0, 0), Some x)]"])
    (use assms in \<open>auto simp: run_assign_note region_values_def\<close>)

lemma pair_assigns:
  assumes "adv ! 0 \<noteq> adv ! 1"
  shows "assigns g pub F (assign_pair adv (Some x) (Some y)) True
    (\<lambda>p. snd (fst p) = Some x \<and> snd (snd p) = Some y) (\<lambda>p. {(fst (fst p), x), (fst (snd p), y)} \<union> F)"
  by (rule assigns_region [where K = "[]" and E = "[]" and A = "[((adv ! 1, 0), Some y), ((adv ! 0, 0), Some x)]"])
    (use assms in \<open>auto simp: run_assign_pair region_values_def\<close>)

lemma cell_assigns:
  "assigns g pub F (assign_region (\<lambda>region. assign_advice region c 0 (Some x))) True
    (\<lambda>p. snd p = Some x) (\<lambda>p. insert (fst p, x) F)"
  by (rule assigns_region [where K = "[]" and E = "[]" and A = "[((c, 0), Some x)]"])
    (auto simp: run_assign_cell region_values_def)

context poseidon_rows
begin

lemma hash_assigns:
  assumes "(fst a, x) \<in> F" "(fst b, y) \<in> F" "snd a = Some x" "snd b = Some y"
  shows "assigns g pub F (poseidon_chip_hash cfg a b) (x = 0 \<and> y = 0) (\<lambda>c. snd c = Some 0) (\<lambda>c. insert (fst c, 0) F)"
proof -
  define A :: "((nat \<times> nat) \<times> 'f option) list" where "A = [((state_cols cfg ! 1, 65), Some 0), ((state_cols cfg ! 2, 0), snd b), ((state_cols cfg ! 1, 0), snd a),
       ((state_cols cfg ! 0, 0), Some 0)]"
  have v: "region_values A c off = (if off = 0 \<and> c = state_cols cfg ! 1 then x else if off = 0 \<and> c = state_cols cfg ! 2 then y else 0)" for c off
    using assms(3,4) cols_distinct by (auto simp: region_values_def A_def)
  have "x = 0 \<and> y = 0" if "\<forall>(s, off) \<in> set (hash_selectors cfg). g s (region_values A) off"
  proof -
    have "(s_full cfg, 0) \<in> set (hash_selectors cfg)" by (simp add: set_hash_selectors)
    with that have "g (s_full cfg) (region_values A) 0" by blast
    then show ?thesis using cols_distinct by (simp add: full_row v all_less_3)
  qed
  moreover have "g s (region_values A) off" if "x = 0" "y = 0" "(s, off) \<in> set (hash_selectors cfg)" for s off
    using that unfolding set_hash_selectors by (auto simp: full_row partial_row v)
  ultimately have C: "x = 0 \<and> y = 0 \<longleftrightarrow> (\<forall>(s, off) \<in> set (hash_selectors cfg). g s (region_values A) off)" by blast
  have run: "snd (run_state (poseidon_chip_hash cfg a b) l) =
      add_region A (hash_selectors cfg) [(fst b, state_cols cfg ! 2, 0), (fst a, state_cols cfg ! 1, 0)] l" for l
    by (simp add: run_hash A_def)
  show ?thesis
    by (rule assigns_region [OF run]) (use assms(1,2) cols_distinct in \<open>auto simp: run_hash v C simp del: One_nat_def\<close>)
qed

lemma hash_zero_assigns:
  assumes "(fst a, 0) \<in> F" "(fst b, y) \<in> F" "snd a = Some 0" "snd b = Some y"
  shows "assigns g pub F (poseidon_chip_hash cfg a b) (y = 0) (\<lambda>c. snd c = Some 0) (\<lambda>c. insert (fst c, 0) F)"
    and "assigns g pub F (poseidon_chip_hash cfg b a) (y = 0) (\<lambda>c. snd c = Some 0) (\<lambda>c. insert (fst c, 0) F)"
  using hash_assigns [OF assms] hash_assigns [OF assms(2,1,4,3)] by simp_all

lemma hash3_assigns:
  assumes "(fst a, x) \<in> F" "(fst b, y) \<in> F" "(fst c, z) \<in> F" "snd a = Some x" "snd b = Some y" "snd c = Some z"
  shows "assigns g pub F (hash3 cfg a b c) (x = 0 \<and> y = 0 \<and> z = 0) (\<lambda>r. snd r = Some 0) (\<lambda>r. insert (fst r, 0) F)"
proof -
  have "assigns g pub (insert (fst i, 0) F) (poseidon_chip_hash cfg i c) (z = 0) (\<lambda>r. snd r = Some 0) (\<lambda>r. insert (fst r, 0) F)"
    if "snd i = Some 0" for i
    by (rule assigns_weaken [OF hash_assigns [where a = i and x = 0 and y = z and F = "insert (fst i, 0) F"]]) (use assms that in auto)
  from assigns_weaken [OF assigns_bind [OF hash_assigns [OF assms(1,2,4,5)] this]] show ?thesis
    unfolding hash3_def by simp
qed

end

context merkle_rows
begin

lemma merkle_level_assigns:
  assumes "(fst current, 0) \<in> F" "snd current = Some 0"
  shows "assigns g pub F (merkle_level cfg merkle adv0 (Some x) (Some b) current) (x = 0 \<and> (b = 0 \<or> b = 1))
    (\<lambda>r. snd r = Some 0) (\<lambda>r. insert (fst r, 0) F)"
proof -
  have level: "assigns g pub F (merkle_assign merkle adv0 (Some x) (Some b)) (b = 0 \<or> b = 1)
      (\<lambda>p. snd (fst p) = Some x \<and> snd (snd p) = Some b) (\<lambda>p. insert (fst (fst p), x) F)"
    by (rule assigns_region [where K = "[]" and E = "[(s_merkle merkle, 0)]" and A = "[((path_bits merkle, 0), Some b), ((adv0, 0), Some x)]"])
      (use bit_col in \<open>auto simp: run_merkle_assign bit_row region_values_def\<close>)
  have rest: "assigns g pub (insert (fst e, x) F)
      (State_Monad.bind (poseidon_chip_hash cfg current e) (\<lambda>lr. State_Monad.bind (poseidon_chip_hash cfg e current) (\<lambda>rl.
         assign_region (\<lambda>region. assign_advice region adv0 0 (if b = 0 then snd lr else snd rl)))))
      (x = 0 \<and> x = 0 \<and> True) (\<lambda>r. snd r = Some 0) (\<lambda>r. insert (fst r, 0) F)" if e: "snd e = Some x" for e
  proof (rule assigns_bind [OF hash_zero_assigns(1)])
    fix lr :: "'a AssignedCell" assume lr: "snd lr = Some 0"
    show "assigns g pub (insert (fst lr, 0) (insert (fst e, x) F))
      (State_Monad.bind (poseidon_chip_hash cfg e current) (\<lambda>rl.
         assign_region (\<lambda>region. assign_advice region adv0 0 (if b = 0 then snd lr else snd rl))))
      (x = 0 \<and> True) (\<lambda>r. snd r = Some 0) (\<lambda>r. insert (fst r, 0) F)"
    proof (rule assigns_bind [OF hash_zero_assigns(2)])
      fix rl :: "'a AssignedCell" assume "snd rl = Some 0"
      then show "assigns g pub (insert (fst rl, 0) (insert (fst lr, 0) (insert (fst e, x) F)))
        (assign_region (\<lambda>region. assign_advice region adv0 0 (if b = 0 then snd lr else snd rl))) True
        (\<lambda>r. snd r = Some 0) (\<lambda>r. insert (fst r, 0) F)"
        using lr by (simp, intro assigns_weaken [OF cell_assigns]) auto
    qed (use assms e in auto)
  qed (use assms e in auto)
  have "assigns g pub F (merkle_level cfg merkle adv0 (Some x) (Some b) current)
      ((b = 0 \<or> b = 1) \<and> x = 0 \<and> x = 0 \<and> True) (\<lambda>r. snd r = Some 0) (\<lambda>r. insert (fst r, 0) F)"
    unfolding merkle_level_eq case_prod_beta by (rule assigns_bind [OF level]) (use rest in simp)
  then show ?thesis by (rule assigns_weaken) auto
qed

lemma merkle_path_assigns:
  assumes "(fst current, 0) \<in> F" "snd current = Some 0"
  shows "assigns g pub F (merkle_path cfg merkle adv0 (\<lambda>i. Some (path i)) (\<lambda>i. Some (bits i)) is current)
    (\<forall>i \<in> set is. path i = 0 \<and> (bits i = 0 \<or> bits i = 1)) (\<lambda>r. snd r = Some 0) (\<lambda>r. insert (fst r, 0) F)"
  using assms
proof (induction "is" arbitrary: current F)
  case Nil
  then show ?case by (auto intro!: assigns_weaken [OF assigns_return [where P = "\<lambda>r. snd r = Some 0" and G = "\<lambda>r. insert (fst r, 0) F"]])
next
  case (Cons i "is")
  have "assigns g pub (insert (fst c, 0) F) (merkle_path cfg merkle adv0 (\<lambda>i. Some (path i)) (\<lambda>i. Some (bits i)) is c)
      (\<forall>i \<in> set is. path i = 0 \<and> (bits i = 0 \<or> bits i = 1)) (\<lambda>r. snd r = Some 0) (\<lambda>r. insert (fst r, 0) F)" if "snd c = Some 0" for c
    by (rule assigns_weaken [OF Cons.IH [of c "insert (fst c, 0) F"]]) (use that in auto)
  from assigns_weaken [OF assigns_bind [OF merkle_level_assigns [OF Cons.prems] this]] show ?case
    by simp
qed

end

section \<open>The transfer circuit\<close>

lemma conservation_assigns:
  fixes x y z v :: "'f::idom"
  assumes "(fst a, x) \<in> F" "(fst b, y) \<in> F" "(fst c, z) \<in> F" "snd a = Some x" "snd b = Some y" "snd c = Some z"
  shows "assigns (gate_rows transfer_cs) pub F (value_conservation transfer_config a b c (Some v)) (x + y = z + v)
    (\<lambda>p. snd p = Some v) (\<lambda>p. insert (fst p, v) F)"
  by (rule assigns_region [OF arg_cong [where f = snd, OF run_value_conservation, simplified]])
    (use assms in \<open>auto simp: run_value_conservation transfer_config_def other_demands region_values_def\<close>)

lemma transfer_notes_assigns:
  fixes s0 :: "'f::idom"
  assumes "in_secret_0 self = Some s0" "in_nonce_0 self = Some k0" "in_value_0 self = Some v0"
    and "in_secret_1 self = Some s1" "in_nonce_1 self = Some k1" "in_value_1 self = Some v1"
    and "out_secret_0 self = Some t0" "out_nonce_0 self = Some m0" "out_value_0 self = Some w0"
    and "out_secret_1 self = Some t1" "out_nonce_1 self = Some m1" "out_value_1 self = Some w1"
  shows "assigns (gate_rows transfer_cs) pub F (transfer_notes self transfer_config)
     (s0 = 0 \<and> k0 = 0 \<and> v0 = 0 \<and> s1 = 0 \<and> k1 = 0 \<and> v1 = 0 \<and> t0 = 0 \<and> m0 = 0 \<and> w0 = 0 \<and> t1 = 0 \<and> m1 = 0 \<and> w1 = 0)
     (\<lambda>((a0, c0), (a1, c1), o0, o1). snd a0 = Some s0 \<and> snd a1 = Some s1 \<and> snd c0 = Some 0 \<and> snd c1 = Some 0)
     (\<lambda>((a0, c0), (a1, c1), o0, o1). {(fst a0, s0), (fst c0, 0), (fst a1, s1), (fst c1, 0), (fst o0, 0), (fst o1, 0)} \<union> F)"
  unfolding transfer_notes_def case_prod_beta assms
  apply (simp only: transfer_config_def TransferConfig.simps)
  apply (fold transfer_config_def)
  apply (rule assigns_weaken)
     apply (rule assigns_bind [OF note_assigns], simp)
     apply (rule assigns_bind [OF transfer_rows.hash3_assigns [where x = s0 and y = k0 and z = v0]], simp, simp, simp, simp, simp, simp)
     apply (rule assigns_bind [OF note_assigns], simp)
     apply (rule assigns_bind [OF transfer_rows.hash3_assigns [where x = s1 and y = k1 and z = v1]], simp, simp, simp, simp, simp, simp)
     apply (rule assigns_bind [OF note_assigns], simp)
     apply (rule assigns_bind [OF transfer_rows.hash3_assigns [where x = t0 and y = m0 and z = w0]], simp, simp, simp, simp, simp, simp)
     apply (rule assigns_bind [OF conservation_assigns [where x = v0 and y = v1 and z = w0]], simp, simp, simp, simp, simp, simp)
     apply (rule assigns_bind [OF pair_assigns], simp)
     apply (rule assigns_bind [OF transfer_rows.hash3_assigns [where x = t1 and y = m1 and z = w1]], simp, simp, simp, simp, simp, simp)
     apply (rule assigns_return [where
        P = "\<lambda>r. snd (fst (fst r)) = Some s0 \<and> snd (fst (fst (snd r))) = Some s1 \<and> snd (snd (fst r)) = Some 0 \<and> snd (snd (fst (snd r))) = Some 0"
        and G = "\<lambda>r. {(fst (fst (fst r)), s0), (fst (snd (fst r)), 0), (fst (fst (fst (snd r))), s1), (fst (snd (fst (snd r))), 0),
          (fst (fst (snd (snd r))), 0), (fst (snd (snd (snd r))), 0)} \<union> F"], simp)
     apply auto
  done

lemma transfer_nullifiers_assigns:
  fixes s0 :: "'f::idom"
  assumes "t_chain_id self = Some ci" "t_app_id self = Some ap"
    and "(fst (fst n0), s0) \<in> F" "(fst (snd n0), 0) \<in> F" "(fst (fst n1), s1) \<in> F" "(fst (snd n1), 0) \<in> F"
    and "snd (fst n0) = Some s0" "snd (snd n0) = Some 0" "snd (fst n1) = Some s1" "snd (snd n1) = Some 0"
  shows "assigns (gate_rows transfer_cs) pub F (transfer_nullifiers self transfer_config n0 n1) (ci = 0 \<and> ap = 0 \<and> s0 = 0 \<and> s1 = 0)
     (\<lambda>_. True) (\<lambda>(u, v). {(fst u, 0), (fst v, 0)} \<union> F)"
  unfolding transfer_nullifiers_def case_prod_beta assms(1,2)
  apply (simp only: transfer_config_def TransferConfig.simps)
  apply (rule assigns_weaken)
     apply (rule assigns_bind [OF pair_assigns], simp)
     apply (rule assigns_bind [OF transfer_rows.hash_assigns [where x = ci and y = ap]], simp, simp, simp, simp)
     apply (rule assigns_bind [OF transfer_rows.hash3_assigns [where x = s0 and y = 0 and z = 0]])
           apply (use assms in simp, use assms in simp, simp, use assms in simp, use assms in simp, simp)
     apply (rule assigns_bind [OF transfer_rows.hash3_assigns [where x = s1 and y = 0 and z = 0]])
           apply (use assms in simp, use assms in simp, simp, use assms in simp, use assms in simp, simp)
     apply (rule assigns_return [where P = "\<lambda>_. True" and G = "\<lambda>r. {(fst (fst r), 0), (fst (snd r), 0)} \<union> F"], simp)
     apply auto
  done

text \<open>The witnesses of a transfer with every value known.\<close>

definition transfer_of :: "(nat \<Rightarrow> 'f) \<Rightarrow> (nat \<Rightarrow> 'f) \<Rightarrow> (nat \<Rightarrow> 'f) \<Rightarrow> (nat \<Rightarrow> 'f) \<Rightarrow> (nat \<Rightarrow> 'f) \<Rightarrow> 'f TransferCircuit" where
  "transfer_of v path_0 bits_0 path_1 bits_1 = \<lparr>
     in_secret_0 = Some (v 0), in_nonce_0 = Some (v 1), in_value_0 = Some (v 2),
     in_path_0 = (\<lambda>i. Some (path_0 i)), in_bits_0 = (\<lambda>i. Some (bits_0 i)),
     in_secret_1 = Some (v 3), in_nonce_1 = Some (v 4), in_value_1 = Some (v 5),
     in_path_1 = (\<lambda>i. Some (path_1 i)), in_bits_1 = (\<lambda>i. Some (bits_1 i)),
     out_secret_0 = Some (v 6), out_nonce_0 = Some (v 7), out_value_0 = Some (v 8),
     out_secret_1 = Some (v 9), out_nonce_1 = Some (v 10), out_value_1 = Some (v 11),
     t_chain_id = Some (v 12), t_app_id = Some (v 13)\<rparr>"

lemma satisfied_from_assigns:
  assumes "assigns (gate_rows cs) pub {} m C P G" and "\<forall>(name, ps) \<in> set (gates cs). \<forall>p \<in> set ps. guarded p"
  shows "satisfied cs pub (snd (run_state m new_layout)) (own_witness (snd (run_state m new_layout))) \<longleftrightarrow> C"
proof -
  have "holds (gate_rows cs) pub new_layout (own_witness new_layout)" "knows {} new_layout (own_witness new_layout)"
    by (simp_all add: holds_def new_layout_def knows_def)
  with assms(1) wf_new_layout show ?thesis
    unfolding assigns_def satisfied_holds [OF assms(2)] by (cases "run_state m new_layout") fastforce
qed

text \<open>
  C38: the prover cannot prove real transfers. The witness that \<open>synthesize\<close> assigns satisfies the transfer circuit only if
  every secret, nonce, value, sibling and domain parameter is zero (with directions of zero or one) and all public inputs are
  zero: the hash regions have no values in their inner rows and zero as their output.
\<close>

theorem transfer_witness_only_zero:
  fixes pub :: "nat \<Rightarrow> nat \<Rightarrow> 'f::idom"
  shows "(let (cs, l) = laid_out transfer_configure (transfer_synthesize (transfer_of v path_0 bits_0 path_1 bits_1))
          in satisfied cs pub l (own_witness l)) \<longleftrightarrow>
    list_all (\<lambda>i. v i = 0) [0..<14] \<and> list_all (\<lambda>i. pub 0 i = 0) [0..<5] \<and>
    list_all (\<lambda>i. path_0 i = 0 \<and> path_1 i = 0 \<and> bits_0 i \<in> {0, 1} \<and> bits_1 i \<in> {0, 1}) [0..<TREE_DEPTH]"
proof -
  let ?self = "transfer_of v path_0 bits_0 path_1 bits_1"
  let ?paths = "\<lambda>path bits. \<forall>i \<in> set [0..<TREE_DEPTH]. path i = 0 \<and> (bits i = 0 \<or> bits i = (1 :: 'f))"
  let ?zero = "v 0 = 0 \<and> v 1 = 0 \<and> v 2 = 0 \<and> v 3 = 0 \<and> v 4 = 0 \<and> v 5 = 0 \<and> v 6 = 0 \<and> v 7 = 0 \<and> v 8 = 0 \<and> v 9 = 0 \<and>
    v 10 = 0 \<and> v 11 = 0 \<and> v 12 = 0 \<and> v 13 = 0"
  let ?pub = "0 = pub 0 0 \<and> 0 = pub 0 1 \<and> 0 = pub 0 2 \<and> 0 = pub 0 3 \<and> 0 = pub 0 4"
  have "assigns (gate_rows transfer_cs) pub {} (transfer_synthesize ?self transfer_config)
     (?zero \<and> ?paths path_0 bits_0 \<and> ?paths path_1 bits_1 \<and> ?pub) (\<lambda>_. True) (\<lambda>_. {})"
    unfolding transfer_synthesize_def transfer_expose_def case_prod_beta
    apply (rule assigns_weaken)
       apply (rule assigns_bind [OF transfer_notes_assigns], (simp only: transfer_of_def TransferCircuit.simps)+)
       apply (simp only: case_prod_beta)
       apply (rule assigns_bind [OF transfer_nullifiers_assigns [where ?s0.0 = "v 0" and ?s1.0 = "v 3"]],
          simp, simp, simp, simp, simp, simp, simp, simp, simp, simp)
       apply (simp only: transfer_config_def TransferConfig.simps TransferCircuit.simps nth_Cons_0 case_prod_beta)
       apply (rule assigns_bind [OF transfer_rows.merkle_path_assigns], simp, simp)
       apply (rule assigns_bind [OF transfer_rows.merkle_path_assigns], simp, simp)
       apply (rule assigns_bind [OF assigns_expose [where v = 0]], simp)+
       apply (rule assigns_expose_last [where v = 0], simp)
      apply (simp, simp, blast)
    done
  note own = satisfied_from_assigns [OF this all_guarded(1)]
  have v: "list_all (\<lambda>i. v i = 0) [0..<14] \<longleftrightarrow> ?zero" by (simp add: upt_rec eval_nat_numeral)
  have p: "list_all (\<lambda>i. pub 0 i = 0) [0..<5] \<longleftrightarrow> ?pub" by (simp add: upt_rec eval_nat_numeral eq_commute [of 0])
  have t: "list_all (\<lambda>i. path_0 i = 0 \<and> path_1 i = 0 \<and> bits_0 i \<in> {0, 1} \<and> bits_1 i \<in> {0, 1}) [0..<TREE_DEPTH] \<longleftrightarrow>
      ?paths path_0 bits_0 \<and> ?paths path_1 bits_1" by (auto simp: list_all_iff)
  show ?thesis unfolding laid_out_circuits Let_def case_prod_conv own v p t by (simp only: conj_ac)
qed

end
