(* ===== verification/Circuit_Columns.thy ===== *)
theory Circuit_Columns
  imports Circuit_Properties
begin

text \<open>
  The discipline of columns: the proving library refuses to copy or expose a cell of a column for which equality was not
  enabled during configuration. The rules follow the columns of cells along a run of \<open>synthesize\<close>.
\<close>

definition column :: "'f AssignedCell \<Rightarrow> Column" where
  "column c = Advice (fst (snd (fst c)))"

definition columns_ok :: "Column set \<Rightarrow> 'f Layout \<Rightarrow> bool" where
  "columns_ok W l \<longleftrightarrow>
     (\<forall>(a, b) \<in> set (copies l). Advice (fst (snd a)) \<in> W \<and> Advice (fst (snd b)) \<in> W) \<and>
     (\<forall>(c, inst, row) \<in> set (exposed l). Advice (fst (snd c)) \<in> W \<and> Instance inst \<in> W)"

definition keeps :: "Column set \<Rightarrow> ('f Layout, 'a) state \<Rightarrow> ('a \<Rightarrow> bool) \<Rightarrow> bool" where
  "keeps W m Q \<longleftrightarrow> (\<forall>l. columns_ok W l \<longrightarrow> columns_ok W (snd (run_state m l)) \<and> Q (fst (run_state m l)))"

lemma keeps_bind:
  assumes "keeps W m P" and "\<And>x. P x \<Longrightarrow> keeps W (f x) Q"
  shows "keeps W (State_Monad.bind m f) Q"
  using assms unfolding keeps_def by (auto simp: case_prod_beta)

lemma keeps_return: "Q x \<Longrightarrow> keeps W (State_Monad.return x) Q"
  by (simp add: keeps_def)

lemma keeps_region:
  assumes "\<And>l. snd (run_state m l) = add_region A E K l" and "\<And>l. Q (fst (run_state m l))"
    and "list_all (\<lambda>(src, d, e). Advice (fst (snd src)) \<in> W \<and> Advice d \<in> W) K"
  shows "keeps W m Q"
  using assms by (fastforce simp: keeps_def columns_ok_def add_region_def Let_def list_all_iff)

lemma keeps_result: "keeps W m P \<Longrightarrow> (\<And>l. R (fst (run_state m l))) \<Longrightarrow> keeps W m (\<lambda>x. P x \<and> R x)"
  by (simp add: keeps_def)

lemma keeps_expose: "column c \<in> W \<Longrightarrow> Instance inst \<in> W \<Longrightarrow> keeps W (constrain_instance c inst row) (\<lambda>_. True)"
  by (auto simp: keeps_def columns_ok_def constrain_instance_def column_def)

lemma column_pair: "column ((r, c, off), v) = Advice c"
  by (simp add: column_def)

lemma keeps_hash:
  assumes "column a \<in> W" "column b \<in> W" "Advice ` set (state_cols cfg) \<subseteq> W" "length (state_cols cfg) = 3"
  shows "keeps W (poseidon_chip_hash cfg a b) (\<lambda>c. column c \<in> W)"
proof -
  have "Advice (state_cols cfg ! 1) \<in> W" "Advice (state_cols cfg ! 2) \<in> W" using assms(3,4) by auto
  then show ?thesis
    by (intro keeps_region) (use assms in \<open>auto simp: run_hash column_def\<close>)
qed

definition chip_columns :: "Column set \<Rightarrow> bool" where
  "chip_columns W \<longleftrightarrow> Advice 0 \<in> W \<and> Advice 1 \<in> W \<and> Advice 2 \<in> W"

lemma keeps_chip_hash:
  "chip_columns W \<Longrightarrow> column a \<in> W \<Longrightarrow> column b \<in> W \<Longrightarrow> keeps W (poseidon_chip_hash poseidon_config a b) (\<lambda>c. column c \<in> W)"
  by (rule keeps_hash) (auto simp: poseidon_config_def chip_columns_def)

lemma keeps_hash3:
  "chip_columns W \<Longrightarrow> column a \<in> W \<Longrightarrow> column b \<in> W \<Longrightarrow> column c \<in> W \<Longrightarrow> keeps W (hash3 poseidon_config a b c) (\<lambda>r. column r \<in> W)"
  unfolding hash3_def by (rule keeps_bind [OF keeps_chip_hash]) (auto intro: keeps_chip_hash)

lemma keeps_note:
  "Advice (adv ! 0) \<in> W \<Longrightarrow> Advice (adv ! 1) \<in> W \<Longrightarrow> Advice (adv ! 2) \<in> W \<Longrightarrow>
     keeps W (assign_note adv s k v) (\<lambda>p. column (fst p) \<in> W \<and> column (fst (snd p)) \<in> W \<and> column (snd (snd p)) \<in> W)"
  by (rule keeps_region) (auto simp: run_assign_note column_pair)

lemma keeps_pair:
  "Advice (adv ! 0) \<in> W \<Longrightarrow> Advice (adv ! 1) \<in> W \<Longrightarrow>
     keeps W (assign_pair adv x y) (\<lambda>p. column (fst p) \<in> W \<and> column (snd p) \<in> W)"
  by (rule keeps_region) (auto simp: run_assign_pair column_pair)

lemma keeps_cell: "Advice c \<in> W \<Longrightarrow> keeps W (assign_region (\<lambda>region. assign_advice region c 0 v)) (\<lambda>p. column p \<in> W)"
  by (rule keeps_region) (auto simp: run_assign_cell column_pair)

lemma keeps_level:
  assumes "chip_columns W" "Advice adv0 \<in> W" "column current \<in> W"
  shows "keeps W (merkle_level poseidon_config merkle adv0 sibling direction current) (\<lambda>c. column c \<in> W)"
proof -
  have "keeps W (merkle_assign merkle adv0 sibling direction) (\<lambda>p. column (fst p) \<in> W)"
    by (rule keeps_region) (auto simp: run_merkle_assign column_pair assms)
  then show ?thesis unfolding merkle_level_eq case_prod_beta
    by (rule keeps_bind) (intro keeps_bind [OF keeps_chip_hash] keeps_cell assms | assumption)+
qed

lemma keeps_path:
  "chip_columns W \<Longrightarrow> Advice adv0 \<in> W \<Longrightarrow> column current \<in> W \<Longrightarrow>
     keeps W (merkle_path poseidon_config merkle adv0 path bits is current) (\<lambda>c. column c \<in> W)"
proof (induction "is" arbitrary: current)
  case (Cons i "is")
  then show ?case unfolding merkle_path.simps by (intro keeps_bind [OF keeps_level])
qed (simp add: keeps_return)

lemma keeps_leaves: "Advice c \<in> W \<Longrightarrow> keeps W (assign_leaves c nuls is) (\<lambda>cs. \<forall>x \<in> set cs. column x \<in> W)"
proof (induction "is")
  case (Cons i "is")
  then show ?case unfolding assign_leaves.simps
    by (intro keeps_bind [OF keeps_cell] keeps_bind [OF Cons.IH] keeps_return) auto
qed (simp add: keeps_return)

lemma keeps_layer:
  "chip_columns W \<Longrightarrow> \<forall>x \<in> set cs. column x \<in> W \<Longrightarrow> keeps W (next_layer poseidon_config cs) (\<lambda>ds. \<forall>x \<in> set ds. column x \<in> W)"
proof (induction cs rule: induct_list012)
  case (3 left right layer)
  then show ?case unfolding next_layer.simps
    by (intro keeps_bind [OF keeps_chip_hash] keeps_bind [OF 3(1)] keeps_return) auto
qed (simp_all add: keeps_return)

lemma keeps_tree:
  "chip_columns W \<Longrightarrow> \<forall>x \<in> set cs. column x \<in> W \<Longrightarrow> keeps W (build_tree poseidon_config d cs) (\<lambda>ds. \<forall>x \<in> set ds. column x \<in> W)"
proof (induction d arbitrary: cs)
  case (Suc d)
  then show ?case unfolding build_tree.simps by (intro keeps_bind [OF keeps_layer]) auto
qed (simp add: keeps_return)

lemma column_hd: "(\<forall>x \<in> set cs. column x \<in> W) \<and> length cs = 1 \<Longrightarrow> column (hd cs) \<in> W"
  by (cases cs) auto

section \<open>The three circuits\<close>

lemma configured_columns:
  "equality transfer_cs = [Advice 7, Advice 6, Advice 5, Advice 4, Instance 0, Advice 2, Advice 1, Advice 0]"
  "equality withdraw_cs = [Advice 6, Advice 5, Advice 4, Instance 0, Advice 2, Advice 1, Advice 0]"
  "equality epoch_cs = [Advice 5, Advice 4, Advice 3, Instance 0, Advice 2, Advice 1, Advice 0]"
  by (simp_all add: transfer_cs_def withdraw_cs_def epoch_cs_def transfer_configure_def withdraw_configure_def epoch_configure_def
      configure_ops eval_nat_numeral)

lemma configured:
  "chip_columns (set (equality transfer_cs))" "chip_columns (set (equality withdraw_cs))" "chip_columns (set (equality epoch_cs))"
  "Instance 0 \<in> set (equality transfer_cs)" "Instance 0 \<in> set (equality withdraw_cs)" "Instance 0 \<in> set (equality epoch_cs)"
  "Advice 4 \<in> set (equality transfer_cs)" "Advice 5 \<in> set (equality transfer_cs)" "Advice 6 \<in> set (equality transfer_cs)" "Advice 7 \<in> set (equality transfer_cs)"
  "Advice 4 \<in> set (equality withdraw_cs)" "Advice 5 \<in> set (equality withdraw_cs)" "Advice 6 \<in> set (equality withdraw_cs)"
  "Advice 3 \<in> set (equality epoch_cs)" "Advice 4 \<in> set (equality epoch_cs)"
  by (simp_all add: configured_columns chip_columns_def)

lemma keeps_conservation:
  assumes "Advice 4 \<in> W" "Advice 5 \<in> W" "Advice 6 \<in> W" "Advice 7 \<in> W" "column a \<in> W" "column b \<in> W" "column c \<in> W"
  shows "keeps W (value_conservation transfer_config a b c v) (\<lambda>p. column p \<in> W)"
  by (rule keeps_region) (use assms in \<open>auto simp: run_value_conservation transfer_config_def column_def\<close>)

lemma keeps_split:
  assumes "Advice 4 \<in> W" "Advice 5 \<in> W" "Advice 6 \<in> W" "column a \<in> W"
  shows "keeps W (value_split withdraw_config a x y) (\<lambda>p. column (fst p) \<in> W \<and> column (snd p) \<in> W)"
  by (rule keeps_region) (use assms in \<open>auto simp: run_value_split withdraw_config_def column_def\<close>)

lemma keeps_transfer_notes:
  assumes "chip_columns W" "Advice 4 \<in> W" "Advice 5 \<in> W" "Advice 6 \<in> W" "Advice 7 \<in> W"
  shows "keeps W (transfer_notes self transfer_config) (\<lambda>r. column (fst (fst r)) \<in> W \<and> column (snd (fst r)) \<in> W \<and>
    column (fst (fst (snd r))) \<in> W \<and> column (snd (fst (snd r))) \<in> W \<and> column (fst (snd (snd r))) \<in> W \<and> column (snd (snd (snd r))) \<in> W)"
  unfolding transfer_notes_def case_prod_beta
  apply (simp only: transfer_config_def TransferConfig.simps)
  apply (fold transfer_config_def)
  apply (rule keeps_bind [OF keeps_note] keeps_bind [OF keeps_hash3] keeps_bind [OF keeps_conservation] keeps_bind [OF keeps_pair]
      keeps_return | simp add: assms; fail)+
  done

lemma keeps_transfer_nullifiers:
  assumes "chip_columns W" "Advice 4 \<in> W" "Advice 5 \<in> W"
    and "column (fst n0) \<in> W" "column (snd n0) \<in> W" "column (fst n1) \<in> W" "column (snd n1) \<in> W"
  shows "keeps W (transfer_nullifiers self transfer_config n0 n1) (\<lambda>r. column (fst r) \<in> W \<and> column (snd r) \<in> W)"
  unfolding transfer_nullifiers_def case_prod_beta
  apply (simp only: transfer_config_def TransferConfig.simps)
  apply (rule keeps_bind [OF keeps_hash3] keeps_bind [OF keeps_pair] keeps_bind [OF keeps_chip_hash] keeps_return |
      simp add: assms; fail)+
  done

lemma columns_ok_from_keeps: "keeps W m Q \<Longrightarrow> columns_ok W (snd (run_state m new_layout))"
  unfolding keeps_def by (drule spec [of _ new_layout]) (simp add: columns_ok_def new_layout_def)

text \<open>
  C39: in all three circuits every cell that is copied, and every cell and column that is exposed, lies in a column for which
  \<open>configure\<close> has enabled equality, so the proving library never refuses a copy; the last layer of the epoch tree, whose first
  cell the code unwraps, has exactly one cell.
\<close>

theorem circuits_copy_enabled_columns:
  fixes t :: "'f::comm_ring_1 TransferCircuit" and w :: "'f WithdrawCircuit" and e :: "'f EpochRootCircuit"
  shows "(let (cs, l) = laid_out transfer_configure (transfer_synthesize t) in columns_ok (set (equality cs)) l) \<and>
   (let (cs, l) = laid_out withdraw_configure (withdraw_synthesize w) in columns_ok (set (equality cs)) l) \<and>
   (let (cs, l) = laid_out epoch_configure (epoch_synthesize e) in columns_ok (set (equality cs)) l) \<and>
   length (fst (run_state (build_tree cfg EPOCH_TREE_DEPTH (fst (run_state (assign_leaves c nuls [0..<EPOCH_BATCH_SIZE]) l))) l')) = 1"
proof -
  have "keeps (set (equality (transfer_cs :: 'f ConstraintSystem))) (transfer_synthesize t transfer_config) (\<lambda>_. True)"
    unfolding transfer_synthesize_def transfer_expose_def case_prod_beta
    apply (rule keeps_bind [OF keeps_transfer_notes], (simp only: configured)+)
    apply (rule keeps_bind [OF keeps_transfer_nullifiers], (simp only: configured)+)
    apply (simp only: transfer_config_def TransferConfig.simps nth_Cons_0)
    apply (rule keeps_bind [OF keeps_path] keeps_bind [OF keeps_expose] keeps_expose | simp add: configured; fail)+
    done
  moreover have "keeps (set (equality (withdraw_cs :: 'f ConstraintSystem))) (withdraw_synthesize w withdraw_config) (\<lambda>_. True)"
    unfolding withdraw_synthesize_def case_prod_beta
    apply (simp only: withdraw_config_def WithdrawConfig.simps nth_Cons_0)
    apply (fold withdraw_config_def)
    apply (rule keeps_bind [OF keeps_note] keeps_bind [OF keeps_hash3] keeps_bind [OF keeps_split] keeps_bind [OF keeps_pair]
        keeps_bind [OF keeps_chip_hash] keeps_bind [OF keeps_path] keeps_bind [OF keeps_expose] keeps_expose | simp add: configured; fail)+
    done
  moreover have "keeps (set (equality (epoch_cs :: 'f ConstraintSystem))) (epoch_synthesize e epoch_config) (\<lambda>_. True)"
    unfolding epoch_synthesize_def case_prod_beta Let_def
    apply (simp only: epoch_config_def EpochRootConfig.simps nth_Cons_0)
    apply (rule keeps_bind [OF keeps_result [OF keeps_leaves, where R = "\<lambda>cs. length cs = 64"]], simp only: configured)
     apply (simp add: length_assign_leaves EPOCH_BATCH_SIZE_def)
    apply (rule keeps_bind [OF keeps_result [OF keeps_tree, where R = "\<lambda>cs. length cs = 1"]], simp only: configured, simp)
     apply (simp add: batch_layer_length EPOCH_TREE_DEPTH_def)
    apply (rule keeps_bind [OF keeps_cell], simp only: configured)
    apply (rule keeps_bind [OF keeps_chip_hash], simp only: configured, assumption, erule column_hd)
    apply (rule keeps_bind [OF keeps_pair] keeps_bind [OF keeps_expose] keeps_expose | simp add: configured; fail)+
    done
  ultimately show ?thesis
    unfolding laid_out_circuits Let_def case_prod_conv
    by (auto intro: columns_ok_from_keeps simp: batch_layer_length length_assign_leaves EPOCH_BATCH_SIZE_def EPOCH_TREE_DEPTH_def)
qed

end
