(* ===== verification/Spec2Isabelle.thy ===== *)
theory Spec2Isabelle
  imports Pallet_Xcm Pallet_Benchmarks Pallet_Weights Near_Properties Cosmwasm_Properties Ink_Properties
    Relayer_Core Relayer_Daemon Relayer_Server Lumora_Service Circuit_Witness Circuit_Columns
begin

text \<open>
  Verification of a privacy pool that spans several chains: four implementations of the pool in Rust (a Substrate pallet, a
  NEAR contract, a CosmWasm contract and an ink! contract), the relayer that carries the nullifier roots of closed epochs
  between chains, and the coprocessor that prepares and submits proofs.

  \<^bold>\<open>The program.\<close> Depositors put commitments into an incremental Merkle tree of depth 32. A transfer or a withdrawal names a
  recent root, two nullifiers and two new commitments with a proof; the nullifiers are marked as spent and listed under the
  current epoch. Closing an epoch hashes its list to a nullifier root. Watchers of the relayer see the event, the aggregator
  turns it into commands, the dispatcher sends them to the other chains and to a registry, and \<open>sync_epoch_root\<close> of a pool
  stores the root. The coprocessor computes nullifiers, commitments and proof envelopes and submits them; its circuits are
  meant to prove what the pools only check structurally.

  \<^bold>\<open>Theories and sources.\<close>
  \<^item> \<open>Pool_Prelude\<close>: results (value, error, panic), checked arithmetic, byte strings, runs of calls where a failed call leaves
    the state. \<open>Codec\<close>: decimal and hexadecimal text.
  \<^item> \<open>Merkle_Tree\<close>: the reference tree, incremental insertion, authentication paths and the ring of recent roots; the locale
    \<open>commitment_tree\<close> states what a pool's insertion and root check promise and derives the behaviour over all runs.
    \<open>Nullifier_Ledger\<close>: the locales \<open>nullifier_ledger\<close> and \<open>epoch_ledger\<close>. \<open>Poseidon_Spec\<close>: the permutation over the integers
    modulo a number.
  \<^item> \<open>Pallet_Poseidon\<close>, \<open>Pallet_Verifier\<close>, \<open>Pallet_Pool\<close>, \<open>Pallet_Properties\<close>, \<open>Pallet_Xcm\<close>, \<open>Pallet_Weights\<close>,
    \<open>Pallet_Benchmarks\<close>: \<open>pallets/privacy-pool/src\<close> and the constants of \<open>runtime/src/lib.rs\<close>. Storage items are the
    fields of one record, each dispatchable is one definition; the benchmarks are programs over the dispatchables.
  \<^item> \<open>Near_Pool\<close>, \<open>Near_Properties\<close>: \<open>near/contracts/privacy-pool/src\<close>. \<open>Cosmwasm_Poseidon\<close>, \<open>Cosmwasm_Pool\<close>,
    \<open>Cosmwasm_Properties\<close>: \<open>cosmwasm/contracts/privacy-pool/src\<close>. \<open>Ink_Pool\<close>, \<open>Ink_Properties\<close>: \<open>ink/privacy-pool/lib.rs\<close>.
    One record for the contract state, one definition per message; a panic reverts like an error.
  \<^item> \<open>Relayer_Adapters\<close>: \<open>relayer/src/config.rs\<close> and \<open>relayer/src/adapters\<close>, with the trait as the locale \<open>bridge_adapter\<close>.
    \<open>Relayer_Core\<close>: \<open>relayer/src/core/mod.rs\<close>. \<open>Relayer_Events\<close>: \<open>watcher.rs\<close> and \<open>aggregator.rs\<close>. \<open>Relayer_Dispatch\<close>:
    \<open>dispatcher.rs\<close>, \<open>metrics.rs\<close>, the state of \<open>health.rs\<close> and the command loop of \<open>lib.rs\<close>. An action on a chain is a
    function from the transactions sent so far to a result and the transactions sent afterwards. \<open>Relayer_Daemon\<close>:
    \<open>run_relayer\<close> of \<open>lib.rs\<close> and \<open>main.rs\<close>, the tasks and their channels as an inductive step relation that leaves the
    order to the scheduler. \<open>Relayer_Server\<close>: the HTTP servers of \<open>health.rs\<close> and \<open>metrics.rs\<close>, from bytes to text.
    Counter and flag of the health state are two atomics and two definitions each; the histories of the theorems are of calls
    that do not overlap, and \<open>overlapping_marks\<close> shows what an overlap does. A chain identifier beyond 64 bits panics.
  \<^item> \<open>Lumora_Coprocessor\<close>: \<open>types.rs\<close>, \<open>chains.rs\<close>, \<open>proof.rs\<close>, \<open>submitter.rs\<close>; \<open>Lumora_Service\<close>: \<open>main.rs\<close>;
    \<open>Lumora_Circuits\<close>: \<open>circuits.rs\<close>, all of \<open>lumora-coprocessor/src\<close>. A circuit is what its \<open>configure\<close> and \<open>synthesize\<close>
    tell the proving library, recorded by programs of the state monad. \<open>Circuit_Properties\<close>, \<open>Circuit_Witness\<close> and
    \<open>Circuit_Columns\<close> define when such a record is satisfied and prove rules for runs, with the locales \<open>poseidon_rows\<close> and
    \<open>merkle_rows\<close> for the rows the gates demand.

  \<^bold>\<open>Interpretations.\<close> \<open>commitment_tree\<close> holds of the pallet, the NEAR and the CosmWasm contract (the tree of the ink! contract
  is a different one and has its own reference, the sparse tree of \<open>Ink_Properties\<close>); \<open>epoch_ledger\<close> of the same three and
  \<open>nullifier_ledger\<close> of the ink! contract and of the deposit record of the pallet; \<open>bridge_adapter\<close> of each of the four
  adapters; \<open>merkle_rows\<close> of the transfer and withdraw circuit, \<open>poseidon_rows\<close> of the epoch circuit.

  \<^bold>\<open>What is shown.\<close> For every pool, over arbitrary sequences of calls: no nullifier is spent twice, the incremental tree has
  the root of the reference tree over the commitments that went through and the accepted roots are the recent ones, recorded
  balances follow the payments, and epochs partition the spent nullifiers with the root of their own list. For the hashes: the
  machine-level code computes the permutation. For the proof checks: exactly what is accepted and what the binding covers. For
  the relayer: calls decode to the message, the dispatch of a task ends with the stated attempts and waits or an error
  that leaves the task alone; under every scheduling each reachable state of the daemon is one of the sequential pipeline on an
  interleaving of the events sent, and the daemon never deadlocks: it rests when all is handled and the watchers that are left
  wait for their chains, which a polling watcher does for ever; its HTTP answers can be read back. Between chains: an epoch root sent by XCM is the root that gets stored. For the coprocessor: its answers, the call data it submits, the public inputs for which its
  circuits can be satisfied, and the witnesses they can be satisfied with. Where the code does not do what it means to, the
  theorem states what it does: dust that strands a treasury, proofs that pay twice, nullifiers that block epochs, the overflowing
  capacity check, commits that cannot be reclaimed, unconfirmed logs, misplaced proofs, refused withdrawals, circuits without
  constraints.

  \<^bold>\<open>Bounds and fuel.\<close> Nothing runs on fuel. Loops over levels recurse on the number of levels left, scans over root histories
  on the number of slots; the retry loop is a function whose measure is the number of attempts left, at most five. The watchers
  and the aggregator never end in the code: they are functions of the finite list of what they observe (rounds of polling,
  received events, timeouts, the closing of the channel), and the theorems hold for every such list. A watcher of the daemon is
  the list of events it sends and whether it goes on watching after them; every finite part of an execution uses only such
  lists. A step of the daemon lowers the amount of work left, so that it comes to rest on every such list. Integers are words where
  the code computes on 256 or 512 bits, and natural numbers with written-out widths elsewhere.

  \<^bold>\<open>Parameters.\<close> Code outside the repository is an argument: digests of the host, the currency of the runtime, the Ethereum
  client and its replies, the ABI and SCALE codecs, the Poseidon library and the random generator of the coprocessor, files and
  JSON, the field of the circuits. What a theorem needs of them is a named hypothesis with a concrete instance in its witness.

  \<^bold>\<open>Not modelled.\<close> Log lines and the formatting of the arguments of a command line. Sockets beyond what is accepted, read and
  written. The assembly of the runtime in \<open>runtime/src/lib.rs\<close> (\<open>construct_runtime\<close>, the configuration of
  the framework's own pallets, the runtime interfaces): macro calls that only name code of the framework. Test modules. Waiting
  times are recorded only where the code computes them. The Solidity contracts, the TypeScript and Python clients and the Noir
  circuits are other programs. The proving library itself: it is taken to check gates in the rows with selectors, copies and
  exposed cells, and to give unassigned cells the value zero.
\<close>

section \<open>Coprocessor and contracts\<close>

definition hexa :: "h256 \<Rightarrow> string" where
  "hexa h = lower_hex (h256_bytes h)"

text \<open>
  C35: no withdrawal the coprocessor prepares is accepted by the NEAR, CosmWasm or ink! contract: the second output
  commitment it puts into the public inputs is zero, and all three contracts refuse a zero output,
  whatever proof bytes accompany the inputs and whatever the state of the pool.
\<close>

theorem coprocessor_withdrawals_refused:
  assumes "generate_withdraw p gen wr = Ok g"
  shows "let root = public_inputs g ! 0; n0 = public_inputs g ! 1; n1 = public_inputs g ! 2;
             c0 = public_inputs g ! 3; c1 = public_inputs g ! 4
         in \<not> is_Ok (Ink_Pool.withdraw h env pr root (n0, n1) (c0, c1) to v s) \<and>
            \<not> is_Ok (execute_withdraw crypto pt (hexa root) (hexa n0, hexa n1) (hexa c0, hexa c1) recipient v st) \<and>
            \<not> is_Ok (Near_Pool.withdraw host pt (hexa root) [hexa n0, hexa n1] [hexa c0, hexa c1] recipient v pool)"
proof -
  have zero: "public_inputs g ! 4 = 0" using generate_withdraw_inputs [OF assms] by blast
  have hexa0: "hexa 0 = replicate 64 CHR ''0''" by (simp add: hexa_def h256_bytes_0 lower_hex_zeros)
  have ink: "\<not> is_Ok (Ink_Pool.verify_proof_structure h pr nuls (c0, 0))" for nuls c0
    by (auto simp: Ink_Pool.verify_proof_structure_def is_Ok_def)
  have cw: "\<not> Cosmwasm_Pool.verify_proof_binding crypto pt r nuls (c0, hexa 0)" for r nuls c0
    by (auto simp: Cosmwasm_Pool.verify_proof_binding_def hexa0 Cosmwasm_Pool.all_zero_chars_def list_all_iff)
  have near: "\<not> Near_Pool.verify_proof_binding host pt r nuls [c0, hexa 0]" for r nuls c0
    by (auto simp: Near_Pool.verify_proof_binding_def hexa0 Near_Pool.all_zero_chars_def list_all_iff)
  show ?thesis
    unfolding Let_def zero using ink cw near
    by (auto simp: is_Ok_iff Ink_Pool.withdraw_def execute_withdraw_def Near_Pool.withdraw_def
        bind_result_Ok_iff ensure_iffs assert_iffs Let_def)
qed

definition sample_prover :: Prover where
  "sample_prover = \<lparr>light_poseidon = (\<lambda>_. Some 1), fill_bytes = (\<lambda>n. replicate n 0)\<rparr>"

definition sample_request :: WithdrawRequest where
  "sample_request = \<lparr>w_input_notes = (1, 2), w_spending_keys = (3, 4),
     change_note = \<lparr>recipient_pk = 5, note_value = 6, blinding = 7\<rparr>, exit_value = 10,
     w_merkle_paths = (\<lparr>siblings = [1], indices = [0]\<rparr>, \<lparr>siblings = [1], indices = [1]\<rparr>),
     w_merkle_root = 8, w_target_chain = AstarShibuya, w_app_id = 1\<rparr>"

theorem coprocessor_withdrawals_refused_witness:
  "\<exists>g. generate_withdraw sample_prover \<lparr>transfer_pk = [], withdraw_pk = [], snark_wrapper_pk = None\<rparr> sample_request = Ok g \<and>
     \<not> is_Ok (Ink_Pool.withdraw sample_host sample_env (replicate 192 1) (public_inputs g ! 0)
       (public_inputs g ! 1, public_inputs g ! 2) (public_inputs g ! 3, public_inputs g ! 4) 9 10 committed_pool)"
proof -
  obtain g where g: "generate_withdraw sample_prover \<lparr>transfer_pk = [], withdraw_pk = [], snark_wrapper_pk = None\<rparr> sample_request = Ok g"
    by (simp add: generate_withdraw_def sample_request_def sample_prover_def validate_merkle_paths_def validate_path_def
        compute_nullifiers_v2_def compute_nullifier_def compute_single_commitment_def poseidon_hash_def unwrap_def
        wrap_snark_def ensure_def)
  from coprocessor_withdrawals_refused [OF g, of sample_host sample_env "replicate 192 1" 9 10 committed_pool] g
  show ?thesis by (auto simp: Let_def)
qed

end
